(* ===== verification/Syfrah_Prelude.thy ===== *)
theory Syfrah_Prelude
  imports
    Main
    "HOL-Library.Word"
    "HOL-Library.AList"
    "HOL-Library.Multiset"
    "HOL-Library.Char_ord"
    "HOL-Library.List_Lexorder"
begin

text \<open>
  Shared ground of the development: the names of the machine integers, the two
  key-value containers the code is built on, and the lemmas about them that the
  component theories use.

  Two containers occur in the source.  A Rust \<^verbatim>\<open>HashMap\<close> is an association list
  whose order is the (unspecified) iteration order; a redb table is an association
  list kept in key order, which is the order its iterator delivers.  Both satisfy the
  contract \<open>kv_store\<close> below.  The lemmas about sums and searches over the entries are
  proved once in that locale and reach the components through the interpretations
  \<open>hm\<close> (hash maps) and \<open>tb\<close> (tables), so nothing proved from them depends on the
  order in which a hash map happens to be traversed.
\<close>

section \<open>Machine integers\<close>

type_synonym u8 = "8 word"
type_synonym u16 = "16 word"
type_synonym u32 = "32 word"
type_synonym u64 = "64 word"

text \<open>Rust's \<^verbatim>\<open>saturating_sub\<close> on unsigned integers.\<close>

definition saturating_sub :: "'a::len word \<Rightarrow> 'a word \<Rightarrow> 'a word" where
  "saturating_sub a b = (if b \<le> a then a - b else 0)"

lemma unat_saturating_sub: "unat (saturating_sub a b) = unat a - unat b"
  by (auto simp: saturating_sub_def unat_sub word_le_nat_alt)

lemma unat_u32_bound: "unat (x :: u32) < 2 ^ 32"
  using unsigned_less [of x] by simp

lemma unat_u64_bound: "unat (x :: u64) < 2 ^ 64"
  using unsigned_less [of x] by simp

text \<open>A \<^verbatim>\<open>u32 as u64\<close> cast loses nothing.\<close>

lemma unat_u32_as_u64 [simp]: "unat (ucast (x :: u32) :: u64) = unat x"
  by (simp add: unsigned_ucast_eq take_bit_nat_eq_self_iff less_trans [OF unat_u32_bound])

lemma unat_add_u64:
  "unat (a :: u64) + unat b < 2 ^ 64 \<Longrightarrow> unat (a + b) = unat a + unat b"
  by (simp add: unat_word_ariths)

lemma unat_of_nat_u64: "n < 2 ^ 64 \<Longrightarrow> unat (of_nat n :: u64) = n"
  by (simp add: unat_of_nat)

lemma unat_Suc_u64: "(g :: u64) \<noteq> -1 \<Longrightarrow> unat (g + 1) = Suc (unat g)"
  by (metis Suc_eq_plus1 add.commute add_eq_0_iff unatSuc)

section \<open>Key-value containers\<close>

locale kv_store =
  fixes get :: "'m \<Rightarrow> 'k \<Rightarrow> 'v option"
    and put :: "'k \<Rightarrow> 'v \<Rightarrow> 'm \<Rightarrow> 'm"
    and del :: "'k \<Rightarrow> 'm \<Rightarrow> 'm"
    and entries :: "'m \<Rightarrow> ('k \<times> 'v) list"
    and invar :: "'m \<Rightarrow> bool"
  assumes get_put: "invar m \<Longrightarrow> get (put k v m) = (get m)(k \<mapsto> v)"
    and get_del: "invar m \<Longrightarrow> get (del k m) = (get m)(k := None)"
    and get_entries: "invar m \<Longrightarrow> get m = map_of (entries m)"
    and distinct_entries: "invar m \<Longrightarrow> distinct (map fst (entries m))"
    and invar_put: "invar m \<Longrightarrow> invar (put k v m)"
    and invar_del: "invar m \<Longrightarrow> invar (del k m)"
begin

lemma set_entries: "invar m \<Longrightarrow> set (entries m) = Map.graph (get m)"
  by (simp add: get_entries distinct_entries graph_map_of_if_distinct_dom)

lemma in_entries_iff: "invar m \<Longrightarrow> (k, v) \<in> set (entries m) \<longleftrightarrow> get m k = Some v"
  by (simp add: set_entries graph_def)

lemma finite_graph_get: "invar m \<Longrightarrow> finite (Map.graph (get m))"
  by (simp flip: set_entries)

text \<open>
  A sum over the entries is a sum over the graph of the lookup function: the order
  of the entries does not matter.
\<close>

lemma sum_entries_graph:
  fixes f :: "'k \<times> 'v \<Rightarrow> 'n::comm_monoid_add"
  assumes "invar m"
  shows "(\<Sum>e\<leftarrow>entries m. f e) = sum f (Map.graph (get m))"
proof -
  have "distinct (entries m)"
    using distinct_entries [OF assms] by (simp add: distinct_map)
  then show ?thesis
    by (simp add: sum_list_distinct_conv_sum_set set_entries [OF assms])
qed

lemma sum_entries_put_new:
  fixes f :: "'k \<times> 'v \<Rightarrow> 'n::comm_monoid_add"
  assumes "invar m" "get m k = None"
  shows "(\<Sum>e\<leftarrow>entries (put k v m). f e) = (\<Sum>e\<leftarrow>entries m. f e) + f (k, v)"
proof -
  have "Map.graph ((get m)(k \<mapsto> v)) = insert (k, v) (Map.graph (get m))"
    using assms(2) by (auto simp: graph_def split: if_splits)
  moreover have "(k, v) \<notin> Map.graph (get m)"
    using assms(2) by (simp add: graph_def)
  ultimately have "sum f (Map.graph ((get m)(k \<mapsto> v))) = f (k, v) + sum f (Map.graph (get m))"
    using sum.insert [OF finite_graph_get [OF assms(1)], of "(k, v)" f] by metis
  then show ?thesis
    using assms(1) by (simp add: sum_entries_graph invar_put get_put add.commute del: graph_map_upd)
qed

lemma sum_entries_del:
  fixes f :: "'k \<times> 'v \<Rightarrow> 'n::comm_monoid_add"
  assumes "invar m" "get m k = Some w"
  shows "(\<Sum>e\<leftarrow>entries (del k m). f e) + f (k, w) = (\<Sum>e\<leftarrow>entries m. f e)"
proof -
  have "Map.graph (get m) = insert (k, w) (Map.graph ((get m)(k := None)))"
    using assms(2) by (auto simp: graph_def split: if_splits)
  moreover have "(k, w) \<notin> Map.graph ((get m)(k := None))"
    by (simp add: graph_def)
  moreover have "finite (Map.graph ((get m)(k := None)))"
    using finite_graph_get [OF invar_del [OF assms(1)]] assms(1) by (simp add: get_del)
  ultimately show ?thesis
    using assms(1) by (simp add: sum_entries_graph invar_del get_del add.commute)
qed

lemma sum_entries_put_upd:
  fixes f :: "'k \<times> 'v \<Rightarrow> 'n::comm_monoid_add"
  assumes "invar m" "get m k = Some w"
  shows "(\<Sum>e\<leftarrow>entries (put k v m). f e) + f (k, w) = (\<Sum>e\<leftarrow>entries m. f e) + f (k, v)"
proof -
  have rm: "(get (put k v m))(k := None) = (get m)(k := None)"
    using assms(1) by (simp add: get_put)
  have "(\<Sum>e\<leftarrow>entries (del k (put k v m)). f e) = (\<Sum>e\<leftarrow>entries (del k m). f e)"
    using assms(1) rm by (simp add: sum_entries_graph invar_del invar_put get_del)
  moreover have "(\<Sum>e\<leftarrow>entries (del k (put k v m)). f e) + f (k, v) = (\<Sum>e\<leftarrow>entries (put k v m). f e)"
    using assms(1) by (intro sum_entries_del) (simp_all add: invar_put get_put)
  moreover have "(\<Sum>e\<leftarrow>entries (del k m). f e) + f (k, w) = (\<Sum>e\<leftarrow>entries m. f e)"
    using assms by (rule sum_entries_del)
  ultimately show ?thesis
    by (metis (no_types, lifting) add.assoc add.commute)
qed

end

subsection \<open>Hash maps\<close>

text \<open>
  \<^verbatim>\<open>HashMap<K, V>\<close>: the list order is the iteration order, \<open>hinsert\<close> is
  \<^verbatim>\<open>insert\<close>, \<open>hremove\<close> is \<^verbatim>\<open>remove\<close> and \<open>hget\<close> is \<^verbatim>\<open>get\<close>.
\<close>

type_synonym ('k, 'v) hmap = "('k \<times> 'v) list"

abbreviation hget :: "('k, 'v) hmap \<Rightarrow> 'k \<Rightarrow> 'v option" where
  "hget \<equiv> map_of"

abbreviation hinsert :: "'k \<Rightarrow> 'v \<Rightarrow> ('k, 'v) hmap \<Rightarrow> ('k, 'v) hmap" where
  "hinsert \<equiv> AList.update"

abbreviation hremove :: "'k \<Rightarrow> ('k, 'v) hmap \<Rightarrow> ('k, 'v) hmap" where
  "hremove \<equiv> AList.delete"

abbreviation hcontains :: "('k, 'v) hmap \<Rightarrow> 'k \<Rightarrow> bool" where
  "hcontains m k \<equiv> map_of m k \<noteq> None"

abbreviation hvalues :: "('k, 'v) hmap \<Rightarrow> 'v list" where
  "hvalues m \<equiv> map snd m"

abbreviation hm_wf :: "('k, 'v) hmap \<Rightarrow> bool" where
  "hm_wf m \<equiv> distinct (map fst m)"

lemma hget_hinsert [simp]: "hget (hinsert k v m) = (hget m)(k \<mapsto> v)"
  by (simp add: update_conv')

lemma hget_hremove [simp]: "hget (hremove k m) = (hget m)(k := None)"
  by (simp add: delete_conv')

lemma hm_wf_hinsert [simp]: "hm_wf m \<Longrightarrow> hm_wf (hinsert k v m)"
  by (rule distinct_update)

lemma hm_wf_hremove [simp]: "hm_wf m \<Longrightarrow> hm_wf (hremove k m)"
  by (rule distinct_delete)

interpretation hm: kv_store hget hinsert hremove "\<lambda>m. m" hm_wf
  by unfold_locales simp_all

text \<open>The loop \<^verbatim>\<open>for id in &ids { map.remove(id) }\<close>.\<close>

lemma hget_fold_hremove:
  "hget (fold hremove ks m) k = (if k \<in> set ks then None else hget m k)"
  by (induction ks arbitrary: m) auto

lemma hm_wf_fold_hremove: "hm_wf m \<Longrightarrow> hm_wf (fold hremove ks m)"
  by (induction ks arbitrary: m) auto

lemma ex_hvalues_iff:
  "hm_wf m \<Longrightarrow> (\<exists>v \<in> set (hvalues m). P v) \<longleftrightarrow> (\<exists>k v. hget m k = Some v \<and> P v)"
  by (force simp: hm.in_entries_iff [symmetric])

subsection \<open>redb tables\<close>

text \<open>
  A redb table with \<^verbatim>\<open>&str\<close> keys: the entries in key order.  Inserting a key that is
  present replaces its value.
\<close>

type_synonym ('k, 'v) table = "('k \<times> 'v) list"

definition tbl_del :: "'k \<Rightarrow> ('k, 'v) table \<Rightarrow> ('k, 'v) table" where
  "tbl_del k t = filter (\<lambda>(i, _). i \<noteq> k) t"

definition tbl_put :: "'k::linorder \<Rightarrow> 'v \<Rightarrow> ('k, 'v) table \<Rightarrow> ('k, 'v) table" where
  "tbl_put k v t = insort_key fst (k, v) (tbl_del k t)"

definition tbl_wf :: "('k::linorder, 'v) table \<Rightarrow> bool" where
  "tbl_wf t \<longleftrightarrow> sorted (map fst t) \<and> distinct (map fst t)"

lemma tbl_wf_Nil [simp]: "tbl_wf []"
  by (simp add: tbl_wf_def)

lemma map_of_tbl_del [simp]: "map_of (tbl_del k t) = (map_of t)(k := None)"
  by (induction t) (auto simp: tbl_del_def fun_eq_iff)

lemma distinct_tbl_del: "distinct (map fst t) \<Longrightarrow> distinct (map fst (tbl_del k t))"
  by (induction t) (auto simp: tbl_del_def)

lemma fst_set_tbl_del: "fst ` set (tbl_del k t) = fst ` set t - {k}"
  by (force simp: tbl_del_def)

lemma map_of_insort_new:
  "k \<notin> fst ` set t \<Longrightarrow> map_of (insort_key fst (k, v) t) = (map_of t)(k \<mapsto> v)"
  by (induction t) (auto simp: fun_eq_iff)

lemma map_of_tbl_put [simp]: "map_of (tbl_put k v t) = (map_of t)(k \<mapsto> v)"
  unfolding tbl_put_def by (subst map_of_insort_new) (auto simp: fst_set_tbl_del)

lemma tbl_wf_del [simp]: "tbl_wf t \<Longrightarrow> tbl_wf (tbl_del k t)"
  unfolding tbl_wf_def tbl_del_def
  by (auto simp: sorted_filter distinct_map_filter)

lemma distinct_insort_fst:
  "k \<notin> fst ` set t \<Longrightarrow> distinct (map fst t) \<Longrightarrow> distinct (map fst (insort_key fst (k, v) t))"
  by (induction t) (auto simp: set_insort_key)

lemma tbl_wf_put [simp]: "tbl_wf t \<Longrightarrow> tbl_wf (tbl_put k v t)"
proof -
  assume wf: "tbl_wf t"
  then have "tbl_wf (tbl_del k t)" by simp
  then show ?thesis
    unfolding tbl_put_def tbl_wf_def
    by (simp add: sorted_insort_key fst_set_tbl_del distinct_insort_fst)
qed

interpretation tb: kv_store map_of tbl_put tbl_del "\<lambda>t. t" tbl_wf
proof unfold_locales
  show "distinct (map fst m)" if "tbl_wf m" for m :: "('a, 'b) table"
    using that by (simp add: tbl_wf_def)
qed simp_all

text \<open>
  Key order makes a table canonical: it is determined by its lookup function.
\<close>

lemma tbl_eqI:
  assumes "tbl_wf t" "tbl_wf t'" "map_of t = map_of t'"
  shows "t = t'"
proof -
  have s: "set t = set t'"
    using assms by (metis tb.set_entries)
  moreover have "inj_on fst (set t \<union> set t')"
    using assms(1) s by (simp add: tbl_wf_def distinct_map)
  ultimately show ?thesis
    using assms(1,2) by (intro map_sorted_distinct_set_unique [of fst]) (simp_all add: tbl_wf_def)
qed

end
