(* ===== verification/Org_Error.thy ===== *)
theory Org_Error
  imports Syfrah_Prelude
begin

text \<open>
  The error enum of the org layer (\<^verbatim>\<open>layers/org/src/error.rs\<close>), one constructor per
  variant with the variant's fields in their order, and its result type.  Message texts
  are the \<^verbatim>\<open>Display\<close> implementation's and are not part of the model.
\<close>

datatype (plugins only: code) org_error =
    AlreadyExists string
  | NotFound string
  | OrgHasProjects string
  | OrgHasVpcs string nat
  | ProjectAlreadyExists string string
  | ProjectNotFound string string
  | ProjectHasEnvironments string string
  | EnvAlreadyExists string
  | EnvNotFound string
  | EnvProtected string
  | VpcAlreadyExists string
  | VpcNotFound string
  | InvalidName string string
  | InvalidCidr string
  | CidrOverlap string string
  | CidrExhausted
  | VpcHasSubnets string nat
  | VpcHasPeerings string nat
  | VpcHasVms string nat
  | SubnetHasVms string nat
  | VpcNotShared string
  | VpcAlreadyAttached string string
  | VpcNotAttached string string
  | PeeringAlreadyExists string string
  | PeeringNotFound string string
  | SelfPeeringRejected string
  | SubnetAlreadyExists string string
  | SubnetNotFound string string
  | SubnetCidrOutOfRange string string
  | SubnetCidrOverlap string string
  | SubnetCidrExhausted string
  | SubnetOutsideVpc string string
  | SubnetOverlap string string
  | SubnetPrefixLength u8 u8 u8
  | SelfPeer string
  | AlreadyPeered string string
  | SelfPeering
  | DuplicatePeering
  | IpExhausted string
  | IpNotFound string string
  | IpAlreadyAssigned string string
  | RouteTableAlreadyExists string
  | RouteTableNotFound string
  | CannotDeleteDefaultRouteTable
  | RouteTableHasSubnets string nat
  | RouteAlreadyExists string
  | RouteNotFound string
  | CannotDeleteSystemRoute
  | CannotDeletePropagatedRoute
  | RouteTargetNotFound string
  | RouteTargetNotActive string string
  | NatGwAlreadyExists string
  | NatGwNotFound string
  | NatGwHasRoutes string string string
  | NatGwInUse string nat
  | NatGwNotActive string string
  | SgAlreadyExists string
  | SgNotFound string
  | SgIsDefault string
  | RuleAlreadyExists string
  | RuleNotFound string
  | InvalidPortRange string
  | NicAlreadyExists string
  | NicNotFound string
  | SgNotAttached string string
  | Ambiguous string
  | CannotDelete string
  | InvalidStateTransition string string
  | VmNotFound string
  | VmHasNoNic string
  | SgAlreadyAttached string string
  | SgVpcMismatch string string string
  | LastSgDetach string
  | InvalidVolumeState string string string
  | InvalidArgument string
  | StoreError string

type_synonym 'a org_result = "org_error + 'a"

end
