(* ===== verification/Layer_Db.thy ===== *)
theory Layer_Db
  imports Rust_Strings
begin

text \<open>
  The embedded store of \<^verbatim>\<open>layers/state/src/lib.rs\<close>.  A \<^verbatim>\<open>LayerDb\<close> is a redb database:
  named tables from strings to JSON documents, whose iterator delivers the entries in
  key order.  A table is modelled by its content with the documents already decoded, so
  the typed operations below are polymorphic in the value; a table that does not exist
  behaves like an empty one in every operation of the source.  Input/output failures of
  redb are outside the model: every operation that the source declares fallible for that
  reason alone is total here.

  \<open>raw_db\<close> is the same database seen by the snapshot code, which moves the encoded
  documents without decoding them.
\<close>

section \<open>Typed access to one table\<close>

definition db_get :: "(string, 'v) table \<Rightarrow> string \<Rightarrow> 'v option" where
  "db_get t k = map_of t k"

definition db_set :: "string \<Rightarrow> 'v \<Rightarrow> (string, 'v) table \<Rightarrow> (string, 'v) table" where
  "db_set k v t = tbl_put k v t"

text \<open>\<^verbatim>\<open>delete\<close> also reports whether the key existed.\<close>

definition db_delete :: "string \<Rightarrow> (string, 'v) table \<Rightarrow> bool \<times> (string, 'v) table" where
  "db_delete k t = (map_of t k \<noteq> None, tbl_del k t)"

definition db_exists :: "(string, 'v) table \<Rightarrow> string \<Rightarrow> bool" where
  "db_exists t k \<longleftrightarrow> map_of t k \<noteq> None"

definition db_list :: "(string, 'v) table \<Rightarrow> (string \<times> 'v) list" where
  "db_list t = t"

definition db_count :: "(string, 'v) table \<Rightarrow> u64" where
  "db_count t = of_nat (length t)"

definition db_count_and_exists :: "(string, 'v) table \<Rightarrow> string \<Rightarrow> u64 \<times> bool" where
  "db_count_and_exists t k = (db_count t, db_exists t k)"

text \<open>
  The counter operations.  \<open>atomic_next_counter\<close> returns the value before the increment
  and stores \<^verbatim>\<open>current + 1\<close> in an unsigned 32-bit counter.
\<close>

definition atomic_next_counter ::
    "string \<Rightarrow> u32 \<Rightarrow> (string, u32) table \<Rightarrow> u32 \<times> (string, u32) table" where
  "atomic_next_counter k start t =
     (let current = (case db_get t k of Some v \<Rightarrow> v | None \<Rightarrow> start)
      in (current, db_set k (current + 1) t))"

definition get_metric :: "(string, u64) table \<Rightarrow> string \<Rightarrow> u64" where
  "get_metric t k = (case db_get t k of Some v \<Rightarrow> v | None \<Rightarrow> 0)"

definition inc_metric :: "string \<Rightarrow> u64 \<Rightarrow> (string, u64) table \<Rightarrow> u64 \<times> (string, u64) table" where
  "inc_metric k delta t =
     (let new_val = get_metric t k + delta in (new_val, db_set k new_val t))"

lemmas db_defs = db_get_def db_set_def db_delete_def db_exists_def db_list_def

lemma db_get_set [simp]: "db_get (db_set k v t) k' = (if k' = k then Some v else db_get t k')"
  by (simp add: db_defs)

lemma db_get_delete [simp]: "db_get (snd (db_delete k t)) k' = (if k' = k then None else db_get t k')"
  by (simp add: db_defs)

lemma fst_db_delete [simp]: "fst (db_delete k t) \<longleftrightarrow> db_get t k \<noteq> None"
  by (simp add: db_defs)

lemma db_exists_iff [simp]: "db_exists t k \<longleftrightarrow> db_get t k \<noteq> None"
  by (simp add: db_defs)

lemma db_get_Nil [simp]: "db_get [] k = None"
  by (simp add: db_defs)

lemma tbl_wf_db_set [simp]: "tbl_wf t \<Longrightarrow> tbl_wf (db_set k v t)"
  by (simp add: db_defs)

lemma tbl_wf_db_delete [simp]: "tbl_wf t \<Longrightarrow> tbl_wf (snd (db_delete k t))"
  by (simp add: db_defs)

lemma in_db_list_iff: "tbl_wf t \<Longrightarrow> (k, v) \<in> set (db_list t) \<longleftrightarrow> db_get t k = Some v"
  by (simp add: db_defs tb.in_entries_iff)

lemma tbl_eq_db_getI:
  "tbl_wf t \<Longrightarrow> tbl_wf t' \<Longrightarrow> (\<And>k. db_get t k = db_get t' k) \<Longrightarrow> t = t'"
  by (rule tbl_eqI) (auto simp: db_defs fun_eq_iff)

interpretation ldb: kv_store db_get db_set "\<lambda>k t. snd (db_delete k t)" db_list tbl_wf
proof unfold_locales
  show "db_get (db_set k v m) = (db_get m)(k \<mapsto> v)" for k :: string and v :: 'a and m
    by (simp add: fun_eq_iff)
  show "db_get (snd (db_delete k m)) = (db_get m)(k := None)" for k and m :: "(string, 'a) table"
    by (simp add: fun_eq_iff)
  show "db_get m = map_of (db_list m)" for m :: "(string, 'a) table"
    by (simp add: db_defs fun_eq_iff)
  show "distinct (map fst (db_list m))" if "tbl_wf m" for m :: "(string, 'a) table"
    using that by (simp add: db_list_def tb.distinct_entries)
qed simp_all

section \<open>Raw export and import\<close>

type_synonym bytes = "u8 list"
type_synonym raw_table = "(string, bytes) table"
type_synonym raw_db = "string \<Rightarrow> raw_table"

definition export_table_raw :: "raw_db \<Rightarrow> string \<Rightarrow> (string \<times> bytes) list" where
  "export_table_raw db tab = db_list (db tab)"

text \<open>
  \<^verbatim>\<open>import_table_raw\<close> collects the present keys, removes them one by one and inserts the
  given entries one by one, in one transaction.
\<close>

definition import_table_raw :: "string \<Rightarrow> (string \<times> bytes) list \<Rightarrow> raw_db \<Rightarrow> raw_db" where
  "import_table_raw tab es db =
     (let keys = map fst (db tab);
          cleared = fold (\<lambda>k t. snd (db_delete k t)) keys (db tab)
      in db(tab := fold (\<lambda>(k, v) t. db_set k v t) es cleared))"

lemma fold_delete_keys: "fold (\<lambda>k t. snd (db_delete k t)) ks t = filter (\<lambda>(k, _). k \<notin> set ks) t"
proof (induction ks arbitrary: t)
  case Nil
  show ?case by (simp add: case_prod_unfold)
next
  case (Cons k ks)
  then show ?case
    by (simp add: db_delete_def tbl_del_def) (rule filter_cong, auto)
qed

lemma fold_delete_all [simp]: "fold (\<lambda>k t. snd (db_delete k t)) (map fst t) t = []"
  by (force simp: fold_delete_keys filter_empty_conv)

lemma db_get_fold_set:
  "distinct (map fst es) \<Longrightarrow>
   db_get (fold (\<lambda>(k, v) t. db_set k v t) es t) k =
     (case map_of es k of Some v \<Rightarrow> Some v | None \<Rightarrow> db_get t k)"
  by (induction es arbitrary: t) (force split: option.splits dest: map_of_SomeD)+

lemma tbl_wf_fold_set:
  "tbl_wf t \<Longrightarrow> tbl_wf (fold (\<lambda>(k, v) t. db_set k v t) es t)"
  by (induction es arbitrary: t) auto

lemma fold_set_entries: "tbl_wf es \<Longrightarrow> fold (\<lambda>(k, v) t. db_set k v t) es [] = es"
  by (intro tbl_eq_db_getI)
     (auto simp: tbl_wf_fold_set db_get_fold_set tb.distinct_entries db_get_def [of es] split: option.splits)

text \<open>Importing what was exported reproduces the table, whatever the target held.\<close>

lemma import_export_raw:
  assumes "tbl_wf (src tab)"
  shows "import_table_raw tab (export_table_raw src tab) dst tab = src tab"
  using fold_set_entries [OF assms]
  by (simp add: import_table_raw_def export_table_raw_def db_list_def)

lemma import_table_raw_other [simp]:
  "tab' \<noteq> tab \<Longrightarrow> import_table_raw tab es db tab' = db tab'"
  by (simp add: import_table_raw_def Let_def)

end
