(* ===== verification/Org_Types.thy ===== *)
theory Org_Types
  imports Org_Error Layer_Db Complex_Main
begin

text \<open>
  The data model of the org layer (\<^verbatim>\<open>layers/org/src/types.rs\<close>).  Identifier newtypes over \<^verbatim>\<open>String\<close> are strings;
  every record keeps the fields of its struct under a short prefix.

  What a replica reads from outside the replicated state - the wall clock, its process
  id, the random source and the functions of third-party crates - is the record
  \<open>node_ctx\<close>, an argument of every operation that reads it.  The source draws several random identifiers while it applies one
  command; draw \<open>n\<close> is \<open>ctx_hex c n\<close>.
\<close>

section \<open>IPv4 addresses\<close>

text \<open>
  \<^verbatim>\<open>std::net::Ipv4Addr\<close> as its four octets, with its conversions to and from 32-bit
  integers, its \<^verbatim>\<open>Display\<close> and its parser: four decimal octets without leading zeros.
\<close>

datatype ipv4 = Ipv4 u8 u8 u8 u8

fun ipv4_to_string :: "ipv4 \<Rightarrow> string" where
  "ipv4_to_string (Ipv4 a b c d) =
     show_nat (unat a) @ CHR ''.'' # show_nat (unat b) @ CHR ''.'' #
     show_nat (unat c) @ CHR ''.'' # show_nat (unat d)"

definition parse_octet :: "string \<Rightarrow> u8 option" where
  "parse_octet s =
     (if s \<noteq> [] \<and> length s \<le> 3 \<and> list_all is_digit s \<and> (hd s = CHR ''0'' \<longrightarrow> length s = 1) \<and>
         digits_value s \<le> 255
      then Some (of_nat (digits_value s)) else None)"

definition parse_ipv4 :: "string \<Rightarrow> ipv4 option" where
  "parse_ipv4 s =
     (case map parse_octet (split_all CHR ''.'' s) of
        [Some a, Some b, Some c, Some d] \<Rightarrow> Some (Ipv4 a b c d)
      | _ \<Rightarrow> None)"

fun ipv4_octets :: "ipv4 \<Rightarrow> u8 \<times> u8 \<times> u8 \<times> u8" where
  "ipv4_octets (Ipv4 a b c d) = (a, b, c, d)"

fun ipv4_to_u32 :: "ipv4 \<Rightarrow> u32" where
  "ipv4_to_u32 (Ipv4 a b c d) =
     ucast a * 2 ^ 24 + ucast b * 2 ^ 16 + ucast c * 2 ^ 8 + ucast d"

definition ipv4_of_u32 :: "u32 \<Rightarrow> ipv4" where
  "ipv4_of_u32 w =
     Ipv4 (of_nat (unat w div 2 ^ 24)) (of_nat (unat w div 2 ^ 16 mod 256))
          (of_nat (unat w div 2 ^ 8 mod 256)) (of_nat (unat w mod 256))"

text \<open>
  The crate \<^verbatim>\<open>ipnet\<close> is third-party code: its functions on networks are fields of a
  record that the operations take as a parameter.  A network carries the address it was
  written with and its prefix length.
\<close>

type_synonym ipv4net = "ipv4 \<times> u8"

record ipnet_lib =
  net_parse :: "string \<Rightarrow> ipv4net option"
  net_to_string :: "ipv4net \<Rightarrow> string"
  net_network :: "ipv4net \<Rightarrow> ipv4"
  net_broadcast :: "ipv4net \<Rightarrow> ipv4"
  net_contains :: "ipv4net \<Rightarrow> ipv4 \<Rightarrow> bool"

abbreviation net_addr :: "ipv4net \<Rightarrow> ipv4" where "net_addr \<equiv> fst"
abbreviation net_prefix_len :: "ipv4net \<Rightarrow> u8" where "net_prefix_len \<equiv> snd"

section \<open>What a replica reads from outside\<close>

text \<open>
  \<open>ctx_rule_hash\<close> is the standard library's default hasher as \<^verbatim>\<open>AddSgRule\<close> uses it; the
  algorithm is unspecified by the library.
\<close>

datatype direction = Ingress | Egress
datatype protocol = Tcp | Udp | Icmp | AllProtocols

record port_range =
  pr_from :: u16
  pr_to :: u16

datatype rule_source = SourceCidr string | SourceSecurityGroup string

record node_ctx =
  ctx_now :: u64
  ctx_millis :: nat
  ctx_pid :: u32
  ctx_hex :: "nat \<Rightarrow> string"
  ctx_net :: ipnet_lib
  ctx_rule_hash :: "string \<times> direction \<times> protocol \<times> port_range option \<times> rule_source \<Rightarrow> u64"

text \<open>\<^verbatim>\<open>generate_id(prefix)\<close>: the prefix, a hyphen and twelve random hex digits.\<close>

definition generate_id :: "node_ctx \<Rightarrow> nat \<Rightarrow> string \<Rightarrow> string" where
  "generate_id c n p = p @ ''-'' @ ctx_hex c n"

text \<open>\<^verbatim>\<open>HypervisorId::generate\<close>: the milliseconds since the epoch, and the same truncated to
  32 bits and combined with the process id.\<close>

definition generate_hypervisor_id :: "node_ctx \<Rightarrow> string" where
  "generate_hypervisor_id c =
     ''hv-'' @ pad_zero 10 (show_hex (ctx_millis c)) @
     pad_zero 8 (show_hex (unat (xor (of_nat (ctx_millis c)) (ctx_pid c))))"

section \<open>Organizations, projects, environments\<close>

record org =
  org_id :: string
  org_name :: string
  org_created_at :: u64

record project =
  proj_id :: string
  proj_name :: string
  proj_org_id :: string
  proj_created_at :: u64

record environment =
  env_id :: string
  env_name :: string
  env_project_id :: string
  env_ttl :: "u64 option"
  env_deletion_protection :: bool
  env_labels :: "(string, string) hmap"
  env_created_at :: u64
  env_expires_at :: "u64 option"

section \<open>Networks\<close>

datatype resource_state = Pending | Active | Failed | Deleting | Deleted

datatype vpc_owner = OwnerProject string | OwnerOrg string

record vpc =
  vpc_id :: string
  vpc_name :: string
  vpc_cidr :: string
  vpc_vni :: u32
  vpc_owner_of :: vpc_owner
  vpc_shared :: bool
  vpc_created_at :: u64

record vpc_attachment =
  att_vpc_id :: string
  att_project_id :: string
  att_attached_at :: u64

record subnet =
  sub_id :: string
  sub_name :: string
  sub_vpc_id :: string
  sub_env_id :: string
  sub_cidr :: string
  sub_gateway :: string
  sub_created_at :: u64

datatype peering_status = PeeringActive | PeeringPending | PeeringDeleted

record vpc_peering =
  peer_id :: string
  peer_vpc_a :: string
  peer_vpc_b :: string
  peer_status :: peering_status
  peer_created_at :: u64

record security_group =
  sg_id :: string
  sg_name :: string
  sg_vpc_id :: string
  sg_description :: "string option"
  sg_is_default :: bool
  sg_state :: resource_state
  sg_created_at :: u64

record network_interface =
  nic_id :: string
  nic_name :: string
  nic_vm_id :: "string option"
  nic_subnet_id :: string
  nic_vpc_id :: string
  nic_private_ip :: string
  nic_mac :: string
  nic_security_groups :: "string list"
  nic_state :: resource_state
  nic_created_at :: u64

record sg_rule =
  rule_id :: string
  rule_sg_id :: string
  rule_direction :: direction
  rule_protocol :: protocol
  rule_port_range :: "port_range option"
  rule_source_of :: rule_source
  rule_priority :: u32
  rule_description :: "string option"

record route_table =
  rtb_id :: string
  rtb_name :: string
  rtb_vpc_id :: string
  rtb_is_default :: bool
  rtb_state :: resource_state
  rtb_created_at :: u64

datatype route_target = TargetLocal | TargetNatGateway string | TargetVpcPeering string | TargetBlackhole
datatype route_origin = OriginSystem | OriginUser | OriginPropagated
datatype route_status = RouteActive | RouteBlackhole

record route =
  route_id :: string
  route_table_id :: string
  route_destination :: string
  route_target_of :: route_target
  route_origin_of :: route_origin
  route_status_of :: route_status
  route_priority :: u32
  route_created_at :: u64

record nat_gateway =
  nat_id :: string
  nat_name :: string
  nat_vpc_id :: string
  nat_subnet_id :: string
  nat_public_ip :: string
  nat_state :: resource_state
  nat_created_at :: u64

section \<open>Placements and hypervisors\<close>

datatype placement_action = PlacementAdd | PlacementRemove

record vm_placement =
  pl_vpc_id :: string
  pl_vm_id :: string
  pl_vm_mac :: string
  pl_vm_ip :: string
  pl_subnet_id :: string
  pl_hypervisor_id :: string
  pl_action :: placement_action
  pl_created_at :: u64
  pl_generation :: u64

datatype hypervisor_state =
    HvRegistering | HvNotReady | HvAvailable | HvDraining | HvMaintenance | HvDecommissioned

fun hypervisor_state_to_string :: "hypervisor_state \<Rightarrow> string" where
  "hypervisor_state_to_string HvRegistering = ''Registering''"
| "hypervisor_state_to_string HvNotReady = ''NotReady''"
| "hypervisor_state_to_string HvAvailable = ''Available''"
| "hypervisor_state_to_string HvDraining = ''Draining''"
| "hypervisor_state_to_string HvMaintenance = ''Maintenance''"
| "hypervisor_state_to_string HvDecommissioned = ''Decommissioned''"

datatype disk_type = NVMe | SSD | HDD
datatype cpu_architecture = X86_64 | Aarch64

record gpu_spec =
  gpu_model :: string
  gpu_vram_mb :: u32
  gpu_count :: u32

record hardware_spec =
  hw_cpu_model :: string
  hw_cpu_cores_physical :: u32
  hw_cpu_threads_logical :: u32
  hw_memory_gb :: u32
  hw_local_disk_type :: disk_type
  hw_local_disk_gb :: u32
  hw_gpu :: "gpu_spec option"
  hw_network_bandwidth_gbps :: u32
  hw_architecture :: cpu_architecture

text \<open>
  The overcommit ratios are \<^verbatim>\<open>f32\<close> constants that the modelled code stores and never
  computes with; they are rationals here.
\<close>

record allocatable_capacity =
  cap_physical_vcpus :: u32
  cap_physical_memory_mb :: u64
  cap_allocatable_vcpus :: u32
  cap_allocatable_memory_mb :: u64
  cap_used_vcpus :: u32
  cap_used_memory_mb :: u64
  cap_available_vcpus :: u32
  cap_available_memory_mb :: u64
  cap_reserved_vcpus :: u32
  cap_reserved_memory_mb :: u64
  cap_overcommit_cpu :: rat
  cap_overcommit_memory :: rat
  cap_local_total_gb :: u32
  cap_local_used_gb :: u32
  cap_local_allocatable_gb :: u32

definition default_capacity :: allocatable_capacity where
  "default_capacity =
     \<lparr>cap_physical_vcpus = 0, cap_physical_memory_mb = 0,
      cap_allocatable_vcpus = 0, cap_allocatable_memory_mb = 0,
      cap_used_vcpus = 0, cap_used_memory_mb = 0,
      cap_available_vcpus = 0, cap_available_memory_mb = 0,
      cap_reserved_vcpus = 1, cap_reserved_memory_mb = 1024,
      cap_overcommit_cpu = 2, cap_overcommit_memory = 1,
      cap_local_total_gb = 0, cap_local_used_gb = 0, cap_local_allocatable_gb = 0\<rparr>"

datatype taint_effect = NoSchedule | NoExecute

record taint =
  taint_key :: string
  taint_value :: "string option"
  taint_effect_of :: taint_effect

record hypervisor =
  hv_id :: string
  hv_name :: string
  hv_region :: string
  hv_zone :: string
  hv_state :: hypervisor_state
  hv_fabric_node_id :: string
  hv_public_ip :: string
  hv_fabric_ipv6 :: string
  hv_hardware :: hardware_spec
  hv_capacity :: allocatable_capacity
  hv_labels :: "(string, string) hmap"
  hv_taints :: "taint list"
  hv_created_at :: u64

section \<open>Addresses as strings\<close>

lemma split_all_join: "d \<notin> set a \<Longrightarrow> split_all d (a @ d # s) = a # split_all d s"
  by (induction a) auto

lemma split_all_single: "d \<notin> set a \<Longrightarrow> split_all d a = [a]"
  by (induction a) auto

lemma hd_show_nat: "hd (show_nat n) = CHR ''0'' \<longleftrightarrow> n = 0"
proof (induction n rule: show_nat.induct)
  case (1 n)
  show ?case
  proof (cases "n < 10")
    case True
    then have "hd (show_nat n) = CHR ''0'' \<longleftrightarrow> (of_char (digit_char n) :: nat) = of_char CHR ''0''"
      by (subst show_nat.simps) (simp only: if_True list.sel of_char_eq_iff)
    with True show ?thesis by simp
  next
    case False
    with 1 show ?thesis by (subst show_nat.simps) (simp add: div_eq_0_iff)
  qed
qed

lemma length_show_nat: "n < 1000 \<Longrightarrow> length (show_nat n) \<le> 3"
proof -
  assume n: "n < 1000"
  have one: "m < 10 \<Longrightarrow> length (show_nat m) = 1" for m by (subst show_nat.simps) simp
  have two: "m < 100 \<Longrightarrow> length (show_nat m) \<le> 2" for m
    using one [of m] one [of "m div 10"] by (cases "m < 10") (auto simp: show_nat.simps [of m])
  show ?thesis
    using n one [of n] two [of "n div 10"] by (cases "n < 10") (auto simp: show_nat.simps [of n])
qed

lemma parse_octet_show: "parse_octet (show_nat (unat (a :: u8))) = Some a"
proof -
  have "unat a < 256" using unsigned_less [of a] by simp
  moreover have "unat a = 0 \<Longrightarrow> length (show_nat (unat a)) = 1" by (subst show_nat.simps) simp
  ultimately show ?thesis
    using length_show_nat [of "unat a"]
    by (simp add: parse_octet_def show_nat_digits hd_show_nat)
qed

lemma parse_ipv4_to_string [simp]: "parse_ipv4 (ipv4_to_string ip) = Some ip"
proof (cases ip)
  case (Ipv4 a b c d)
  have "CHR ''.'' \<notin> set (show_nat n)" for n
    by (rule digit_not_in_show) (simp add: is_digit_def)
  then show ?thesis
    by (simp add: Ipv4 parse_ipv4_def split_all_join split_all_single parse_octet_show)
qed

lemma ipv4_to_string_inject [simp]: "ipv4_to_string a = ipv4_to_string b \<longleftrightarrow> a = b"
  by (metis option.inject parse_ipv4_to_string)

lemma set_split_all: "set s \<subseteq> insert d (\<Union>(set ` set (split_all d s)))"
proof (induction s)
  case (Cons c s)
  then show ?case by (cases "split_all d s") (auto split: if_splits)
qed simp

lemma parse_octet_no_slash: "parse_octet p = Some v \<Longrightarrow> CHR ''/'' \<notin> set p"
proof -
  assume "parse_octet p = Some v"
  then have "list_all is_digit p" by (simp add: parse_octet_def split: if_splits)
  moreover have "\<not> is_digit CHR ''/''" by (simp add: is_digit_def)
  ultimately show ?thesis by (auto simp: list_all_iff)
qed

lemma parse_ipv4_no_slash:
  assumes "parse_ipv4 ip = Some a"
  shows "CHR ''/'' \<notin> set ip"
proof -
  obtain p q r t where parts: "split_all CHR ''.'' ip = [p, q, r, t]"
      "parse_octet p \<noteq> None" "parse_octet q \<noteq> None" "parse_octet r \<noteq> None" "parse_octet t \<noteq> None"
    using assms by (auto simp: parse_ipv4_def split: list.splits option.splits)
  then have "CHR ''/'' \<notin> set x" if "x \<in> set (split_all CHR ''.'' ip)" for x
    using that by (auto dest!: parse_octet_no_slash)
  then show ?thesis using set_split_all [of ip "CHR ''.''"] by auto
qed

end
