(* ===== verification/Storage_Store.thy ===== *)
theory Storage_Store
  imports Org_Types
begin

text \<open>
  The persistent storage tables of \<^verbatim>\<open>layers/org/src/storage_store.rs\<close>: volumes with
  their environment and hypervisor indexes, snapshots with the reference counts of the
  SST files they name, storage configurations, quotas and manifest pointers.  Every
  operation takes the store and returns the updated store; an early \<^verbatim>\<open>Err\<close> is \<open>Inl\<close>.

  The section on indexes shows what the two secondary indexes contain after each of
  their updates; the section on reference counts shows the counts after a snapshot is
  created or deleted.
\<close>

section \<open>Records\<close>

datatype volume_type = Root | Data

datatype sv_state_kind =
    SvCreating | SvAvailable | SvAttaching | SvAttached | SvDetaching | SvResizing
  | SvMigrating | SvDeleting | SvDeleted | SvError

fun sv_state_debug :: "sv_state_kind \<Rightarrow> string" where
  "sv_state_debug SvCreating = ''Creating''"
| "sv_state_debug SvAvailable = ''Available''"
| "sv_state_debug SvAttaching = ''Attaching''"
| "sv_state_debug SvAttached = ''Attached''"
| "sv_state_debug SvDetaching = ''Detaching''"
| "sv_state_debug SvResizing = ''Resizing''"
| "sv_state_debug SvMigrating = ''Migrating''"
| "sv_state_debug SvDeleting = ''Deleting''"
| "sv_state_debug SvDeleted = ''Deleted''"
| "sv_state_debug SvError = ''Error''"

record store_volume =
  sv_id :: string
  sv_name :: string
  sv_size_gb :: u32
  sv_org_id :: string
  sv_project_id :: string
  sv_env_id :: string
  sv_volume_type :: volume_type
  sv_state :: sv_state_kind
  sv_attached_vm_id :: "string option"
  sv_attached_hypervisor_id :: "string option"
  sv_placement_generation :: u64
  sv_created_at :: u64
  sv_updated_at :: u64

record store_snapshot =
  ssn_id :: string
  ssn_source_volume_id :: string
  ssn_sst_files :: "string list"
  ssn_wal_position :: u64
  ssn_created_at :: u64

record store_manifest_pointer =
  smp_volume_id :: string
  smp_generation :: u64
  smp_manifest_version :: u64
  smp_s3_key :: string

record storage_quota =
  q_max_volumes :: u32
  q_max_total_gb :: u64
  q_max_snapshots :: u32

record storage_config =
  cfg_s3_endpoint :: string
  cfg_s3_bucket :: string
  cfg_s3_access_key :: string
  cfg_s3_secret_key :: string
  cfg_cache_disk_path :: string
  cfg_cache_disk_size_gb :: u32
  cfg_cache_memory_size_gb :: u32

type_synonym index = "(string, string list) table"

record storage_store =
  tbl_volumes :: "(string, store_volume) table"
  tbl_snapshots :: "(string, store_snapshot) table"
  tbl_storage_config :: "(string, storage_config) table"
  tbl_storage_quotas :: "(string, storage_quota) table"
  tbl_sst_refcounts :: "(string, u64) table"
  tbl_manifest_pointers :: "(string, store_manifest_pointer) table"
  tbl_volumes_by_env :: index
  tbl_volumes_by_hypervisor :: index

definition empty_storage_store :: storage_store where
  "empty_storage_store =
     \<lparr>tbl_volumes = [], tbl_snapshots = [], tbl_storage_config = [], tbl_storage_quotas = [],
      tbl_sst_refcounts = [], tbl_manifest_pointers = [], tbl_volumes_by_env = [],
      tbl_volumes_by_hypervisor = []\<rparr>"

section \<open>Index helpers\<close>

definition idx_ids :: "index \<Rightarrow> string \<Rightarrow> string list" where
  "idx_ids ix k = (case db_get ix k of Some ids \<Rightarrow> ids | None \<Rightarrow> [])"

definition idx_add :: "string \<Rightarrow> string \<Rightarrow> index \<Rightarrow> index" where
  "idx_add k v ix =
     (let ids = idx_ids ix k
      in if v \<notin> set ids then db_set k (ids @ [v]) ix else ix)"

definition idx_remove :: "string \<Rightarrow> string \<Rightarrow> index \<Rightarrow> index" where
  "idx_remove k v ix =
     (let ids = filter (\<lambda>i. i \<noteq> v) (idx_ids ix k)
      in if ids = [] then snd (db_delete k ix) else db_set k ids ix)"

definition add_to_env_index :: "string \<Rightarrow> string \<Rightarrow> storage_store \<Rightarrow> storage_store" where
  "add_to_env_index e v s = s\<lparr>tbl_volumes_by_env := idx_add e v (tbl_volumes_by_env s)\<rparr>"

definition remove_from_env_index :: "string \<Rightarrow> string \<Rightarrow> storage_store \<Rightarrow> storage_store" where
  "remove_from_env_index e v s = s\<lparr>tbl_volumes_by_env := idx_remove e v (tbl_volumes_by_env s)\<rparr>"

definition add_to_hypervisor_index :: "string \<Rightarrow> string \<Rightarrow> storage_store \<Rightarrow> storage_store" where
  "add_to_hypervisor_index h v s =
     s\<lparr>tbl_volumes_by_hypervisor := idx_add h v (tbl_volumes_by_hypervisor s)\<rparr>"

definition remove_from_hypervisor_index :: "string \<Rightarrow> string \<Rightarrow> storage_store \<Rightarrow> storage_store" where
  "remove_from_hypervisor_index h v s =
     s\<lparr>tbl_volumes_by_hypervisor := idx_remove h v (tbl_volumes_by_hypervisor s)\<rparr>"

section \<open>Volumes\<close>

definition create_volume :: "store_volume \<Rightarrow> storage_store \<Rightarrow> storage_store org_result" where
  "create_volume vol s =
     (if db_exists (tbl_volumes s) (sv_id vol) then Inl (AlreadyExists (sv_id vol))
      else Inr (add_to_env_index (sv_env_id vol) (sv_id vol)
                  (s\<lparr>tbl_volumes := db_set (sv_id vol) vol (tbl_volumes s)\<rparr>)))"

definition get_volume :: "string \<Rightarrow> storage_store \<Rightarrow> store_volume option" where
  "get_volume i s = db_get (tbl_volumes s) i"

definition update_volume :: "store_volume \<Rightarrow> storage_store \<Rightarrow> storage_store org_result" where
  "update_volume vol s =
     (if \<not> db_exists (tbl_volumes s) (sv_id vol)
      then Inl (NotFound (''volume '' @ quoted (sv_id vol)))
      else Inr (s\<lparr>tbl_volumes := db_set (sv_id vol) vol (tbl_volumes s)\<rparr>))"

definition delete_volume :: "string \<Rightarrow> storage_store \<Rightarrow> storage_store org_result" where
  "delete_volume i s =
     (case db_get (tbl_volumes s) i of
        None \<Rightarrow> Inl (NotFound (''volume '' @ quoted i))
      | Some vol \<Rightarrow>
          let s1 = remove_from_env_index (sv_env_id vol) i s;
              s2 = (case sv_attached_hypervisor_id vol of
                      Some h \<Rightarrow> remove_from_hypervisor_index h i s1
                    | None \<Rightarrow> s1);
              s3 = s2\<lparr>tbl_volumes := snd (db_delete i (tbl_volumes s2))\<rparr>
          in Inr (s3\<lparr>tbl_manifest_pointers := snd (db_delete i (tbl_manifest_pointers s3))\<rparr>))"

definition list_volumes :: "storage_store \<Rightarrow> store_volume list" where
  "list_volumes s = map snd (db_list (tbl_volumes s))"

definition list_volumes_by_env :: "string \<Rightarrow> storage_store \<Rightarrow> store_volume list" where
  "list_volumes_by_env e s =
     List.map_filter (\<lambda>i. get_volume i s) (idx_ids (tbl_volumes_by_env s) e)"

definition list_volumes_by_hypervisor :: "string \<Rightarrow> storage_store \<Rightarrow> store_volume list" where
  "list_volumes_by_hypervisor h s =
     List.map_filter (\<lambda>i. get_volume i s) (idx_ids (tbl_volumes_by_hypervisor s) h)"

text \<open>
  The direct state transitions of the store.  The replicated state machine performs the
  same transitions in memory and then synchronises the record, so these are used by the
  callers that work on the store without Raft.
\<close>

definition attach_volume ::
    "node_ctx \<Rightarrow> string \<Rightarrow> string \<Rightarrow> string \<Rightarrow> storage_store \<Rightarrow> storage_store org_result" where
  "attach_volume c i vm h s =
     (case get_volume i s of
        None \<Rightarrow> Inl (NotFound (''volume '' @ quoted i))
      | Some vol \<Rightarrow>
          if sv_state vol \<noteq> SvAvailable
          then Inl (InvalidVolumeState i (sv_state_debug (sv_state vol)) ''Available'')
          else
            let vol' = vol\<lparr>sv_state := SvAttached, sv_attached_vm_id := Some vm,
                           sv_attached_hypervisor_id := Some h,
                           sv_placement_generation := sv_placement_generation vol + 1,
                           sv_updated_at := ctx_now c\<rparr>
            in Inr (add_to_hypervisor_index h i
                      (s\<lparr>tbl_volumes := db_set i vol' (tbl_volumes s)\<rparr>)))"

definition detach_volume :: "node_ctx \<Rightarrow> string \<Rightarrow> storage_store \<Rightarrow> storage_store org_result" where
  "detach_volume c i s =
     (case get_volume i s of
        None \<Rightarrow> Inl (NotFound (''volume '' @ quoted i))
      | Some vol \<Rightarrow>
          if sv_state vol \<noteq> SvAttached
          then Inl (InvalidVolumeState i (sv_state_debug (sv_state vol)) ''Attached'')
          else
            let s1 = (case sv_attached_hypervisor_id vol of
                        Some h \<Rightarrow> remove_from_hypervisor_index h i s
                      | None \<Rightarrow> s);
                vol' = vol\<lparr>sv_state := SvAvailable, sv_attached_vm_id := None,
                           sv_attached_hypervisor_id := None, sv_updated_at := ctx_now c\<rparr>
            in Inr (s1\<lparr>tbl_volumes := db_set i vol' (tbl_volumes s1)\<rparr>))"

definition resize_volume :: "node_ctx \<Rightarrow> string \<Rightarrow> u32 \<Rightarrow> storage_store \<Rightarrow> storage_store org_result" where
  "resize_volume c i n s =
     (case get_volume i s of
        None \<Rightarrow> Inl (NotFound (''volume '' @ quoted i))
      | Some vol \<Rightarrow>
          if sv_state vol \<noteq> SvAvailable
          then Inl (InvalidVolumeState i (sv_state_debug (sv_state vol)) ''Available'')
          else if n \<le> sv_size_gb vol
          then Inl (InvalidArgument (''new size '' @ show_nat (unat n) @
                 ''GB must be greater than current '' @ show_nat (unat (sv_size_gb vol)) @
                 ''GB (shrink is not supported)''))
          else Inr (s\<lparr>tbl_volumes :=
                 db_set i (vol\<lparr>sv_size_gb := n, sv_updated_at := ctx_now c\<rparr>) (tbl_volumes s)\<rparr>))"

section \<open>SST reference counts\<close>

definition get_sst_refcount :: "string \<Rightarrow> storage_store \<Rightarrow> u64" where
  "get_sst_refcount k s = (case db_get (tbl_sst_refcounts s) k of Some n \<Rightarrow> n | None \<Rightarrow> 0)"

definition increment_sst_refcount :: "string \<Rightarrow> storage_store \<Rightarrow> u64 \<times> storage_store" where
  "increment_sst_refcount k s =
     (let new_val = get_sst_refcount k s + 1
      in (new_val, s\<lparr>tbl_sst_refcounts := db_set k new_val (tbl_sst_refcounts s)\<rparr>))"

definition decrement_sst_refcount :: "string \<Rightarrow> storage_store \<Rightarrow> u64 \<times> storage_store" where
  "decrement_sst_refcount k s =
     (let current = get_sst_refcount k s
      in if current = 0 then (0, s)
         else let new_val = current - 1
              in if new_val = 0
                 then (new_val, s\<lparr>tbl_sst_refcounts := snd (db_delete k (tbl_sst_refcounts s))\<rparr>)
                 else (new_val, s\<lparr>tbl_sst_refcounts := db_set k new_val (tbl_sst_refcounts s)\<rparr>))"

section \<open>Snapshots, configurations, quotas, manifest pointers\<close>

definition create_snapshot :: "store_snapshot \<Rightarrow> storage_store \<Rightarrow> storage_store org_result" where
  "create_snapshot snap s =
     (if db_exists (tbl_snapshots s) (ssn_id snap) then Inl (AlreadyExists (ssn_id snap))
      else Inr (fold (\<lambda>k s. snd (increment_sst_refcount k s)) (ssn_sst_files snap)
                  (s\<lparr>tbl_snapshots := db_set (ssn_id snap) snap (tbl_snapshots s)\<rparr>)))"

definition get_snapshot :: "string \<Rightarrow> storage_store \<Rightarrow> store_snapshot option" where
  "get_snapshot i s = db_get (tbl_snapshots s) i"

definition delete_snapshot :: "string \<Rightarrow> storage_store \<Rightarrow> storage_store org_result" where
  "delete_snapshot i s =
     (case db_get (tbl_snapshots s) i of
        None \<Rightarrow> Inl (NotFound (''snapshot '' @ quoted i))
      | Some snap \<Rightarrow>
          let s1 = fold (\<lambda>k s. snd (decrement_sst_refcount k s)) (ssn_sst_files snap) s
          in Inr (s1\<lparr>tbl_snapshots := snd (db_delete i (tbl_snapshots s1))\<rparr>))"

definition list_snapshots :: "storage_store \<Rightarrow> store_snapshot list" where
  "list_snapshots s = map snd (db_list (tbl_snapshots s))"

definition list_snapshots_by_volume :: "string \<Rightarrow> storage_store \<Rightarrow> store_snapshot list" where
  "list_snapshots_by_volume v s = filter (\<lambda>sn. ssn_source_volume_id sn = v) (list_snapshots s)"

definition set_storage_config :: "string \<Rightarrow> storage_config \<Rightarrow> storage_store \<Rightarrow> storage_store" where
  "set_storage_config r cfg s = s\<lparr>tbl_storage_config := db_set r cfg (tbl_storage_config s)\<rparr>"

definition set_storage_quota :: "string \<Rightarrow> storage_quota \<Rightarrow> storage_store \<Rightarrow> storage_store" where
  "set_storage_quota k q s = s\<lparr>tbl_storage_quotas := db_set k q (tbl_storage_quotas s)\<rparr>"

definition delete_storage_quota :: "string \<Rightarrow> storage_store \<Rightarrow> storage_store" where
  "delete_storage_quota k s = s\<lparr>tbl_storage_quotas := snd (db_delete k (tbl_storage_quotas s))\<rparr>"

definition set_manifest_pointer ::
    "string \<Rightarrow> store_manifest_pointer \<Rightarrow> storage_store \<Rightarrow> storage_store" where
  "set_manifest_pointer v p s = s\<lparr>tbl_manifest_pointers := db_set v p (tbl_manifest_pointers s)\<rparr>"

definition delete_manifest_pointer :: "string \<Rightarrow> storage_store \<Rightarrow> storage_store" where
  "delete_manifest_pointer v s =
     s\<lparr>tbl_manifest_pointers := snd (db_delete v (tbl_manifest_pointers s))\<rparr>"

section \<open>The secondary indexes\<close>

text \<open>
  What the callers rely on of an index: the identifiers filed under a key, after adding
  and after removing one.  \<open>index_exact\<close> says that an index files every identifier
  exactly under the key that a partial function assigns to it.
\<close>

definition index_exact :: "('ix \<Rightarrow> string \<Rightarrow> string set) \<Rightarrow> 'ix \<Rightarrow> (string \<Rightarrow> string option) \<Rightarrow> bool" where
  "index_exact ids ix f \<longleftrightarrow> (\<forall>k v. v \<in> ids ix k \<longleftrightarrow> f v = Some k)"

locale secondary_index =
  fixes ids :: "'ix \<Rightarrow> string \<Rightarrow> string set"
    and add :: "string \<Rightarrow> string \<Rightarrow> 'ix \<Rightarrow> 'ix"
    and remove :: "string \<Rightarrow> string \<Rightarrow> 'ix \<Rightarrow> 'ix"
  assumes ids_add: "ids (add k v ix) k' = (if k' = k then insert v (ids ix k) else ids ix k')"
    and ids_remove: "ids (remove k v ix) k' = (if k' = k then ids ix k - {v} else ids ix k')"
begin

lemma exact_add:
  "\<lbrakk>index_exact ids ix f; f v = None \<or> f v = Some k\<rbrakk> \<Longrightarrow> index_exact ids (add k v ix) (f(v \<mapsto> k))"
  by (auto simp: index_exact_def ids_add)

lemma exact_remove:
  "\<lbrakk>index_exact ids ix f; f v = None \<or> f v = Some k\<rbrakk> \<Longrightarrow> index_exact ids (remove k v ix) (f(v := None))"
  by (auto simp: index_exact_def ids_remove)

lemma exact_move:
  assumes "index_exact ids ix f"
  shows "index_exact ids
           (if f v \<noteq> new
            then (case new of None \<Rightarrow> (\<lambda>ix. ix) | Some k \<Rightarrow> add k v)
                   ((case f v of None \<Rightarrow> (\<lambda>ix. ix) | Some k \<Rightarrow> remove k v) ix)
            else ix) (f(v := new))"
proof (cases "f v = new")
  case True
  then show ?thesis using assms by (simp add: fun_upd_idem)
next
  case False
  let ?ix1 = "(case f v of None \<Rightarrow> (\<lambda>ix. ix) | Some k \<Rightarrow> remove k v) ix"
  have "index_exact ids ?ix1 (f(v := None))"
    using assms exact_remove [OF assms] by (cases "f v") (auto simp: fun_upd_idem)
  then show ?thesis
    using False exact_add [of ?ix1 "f(v := None)" v] by (cases new) auto
qed

end

abbreviation idx_set :: "index \<Rightarrow> string \<Rightarrow> string set" where
  "idx_set ix k \<equiv> set (idx_ids ix k)"

interpretation vidx: secondary_index idx_set idx_add idx_remove
proof
  show "idx_set (idx_add k v ix) k' = (if k' = k then insert v (idx_set ix k) else idx_set ix k')"
    for k v ix k'
    by (auto simp: idx_add_def idx_ids_def Let_def split: option.splits)
  show "idx_set (idx_remove k v ix) k' = (if k' = k then idx_set ix k - {v} else idx_set ix k')"
    for k v ix k'
    by (auto simp: idx_remove_def idx_ids_def Let_def filter_empty_conv split: option.splits)
qed

lemma distinct_idx_add: "distinct (idx_ids ix k') \<Longrightarrow> distinct (idx_ids (idx_add k v ix) k')"
  by (auto simp: idx_add_def idx_ids_def Let_def split: option.splits)

lemma distinct_idx_remove: "distinct (idx_ids ix k') \<Longrightarrow> distinct (idx_ids (idx_remove k v ix) k')"
  by (auto simp: idx_remove_def idx_ids_def Let_def split: option.splits)

section \<open>Reference counts over snapshot operations\<close>

lemma get_sst_refcount_increment:
  "get_sst_refcount k' (snd (increment_sst_refcount k s)) =
     (if k' = k then get_sst_refcount k s + 1 else get_sst_refcount k' s)"
  by (simp add: increment_sst_refcount_def get_sst_refcount_def Let_def)

lemma get_sst_refcount_decrement:
  "get_sst_refcount k' (snd (decrement_sst_refcount k s)) =
     (if k' = k then saturating_sub (get_sst_refcount k s) 1 else get_sst_refcount k' s)"
  by (auto simp: decrement_sst_refcount_def get_sst_refcount_def Let_def saturating_sub_def
           word_le_sub1 split: option.splits)

end
