(* ===== verification/Storage_State.thy ===== *)
theory Storage_State
  imports Storage_Store
begin

text \<open>
  The replicated storage state of \<^verbatim>\<open>layers/controlplane/src/state_machine.rs\<close>: volumes,
  snapshots, SST reference counts, storage configurations, quotas, manifest pointers, the
  garbage-collection list and the VM records; the storage part of the replica
  (\<open>storage_sm\<close>), which pairs that state with the optional redb store; and the errors of
  the storage commands, one constructor per message of the source with the values the
  message prints.
\<close>

section \<open>Volumes, VMs, snapshots\<close>

datatype volume_state = VolAvailable | VolAttached | VolMigrating | VolDeleted

record volume_record =
  vol_id :: string
  vol_name :: string
  vol_size_gb :: u32
  vol_org_id :: string
  vol_project_id :: string
  vol_env_id :: string
  vol_type :: volume_type
  vol_state :: volume_state
  vol_attached_vm_id :: "string option"
  vol_attached_hypervisor_id :: "string option"
  vol_placement_generation :: u64
  vol_zone :: "string option"
  vol_deletion_protection :: bool
  vol_deleted_at :: "u64 option"
  vol_migration_source_zone :: "string option"
  vol_migration_target_zone :: "string option"
  vol_pre_migration_hypervisor :: "string option"
  vol_pre_migration_vm_id :: "string option"

datatype vm_phase =
    PhPending | PhScheduling | PhCreating | PhStarting | PhRunning
  | PhStopping | PhStopped | PhFailed | PhDeleting

fun vm_phase_to_string :: "vm_phase \<Rightarrow> string" where
  "vm_phase_to_string PhPending = ''Pending''"
| "vm_phase_to_string PhScheduling = ''Scheduling''"
| "vm_phase_to_string PhCreating = ''Creating''"
| "vm_phase_to_string PhStarting = ''Starting''"
| "vm_phase_to_string PhRunning = ''Running''"
| "vm_phase_to_string PhStopping = ''Stopping''"
| "vm_phase_to_string PhStopped = ''Stopped''"
| "vm_phase_to_string PhFailed = ''Failed''"
| "vm_phase_to_string PhDeleting = ''Deleting''"

definition from_str_loose :: "string \<Rightarrow> vm_phase option" where
  "from_str_loose s =
     (if s = ''Pending'' then Some PhPending
      else if s = ''Scheduling'' then Some PhScheduling
      else if s = ''Creating'' then Some PhCreating
      else if s = ''Starting'' then Some PhStarting
      else if s = ''Running'' then Some PhRunning
      else if s = ''Stopping'' then Some PhStopping
      else if s = ''Stopped'' then Some PhStopped
      else if s = ''Failed'' then Some PhFailed
      else if s = ''Deleting'' then Some PhDeleting
      else None)"

record vm_record =
  vmr_id :: string
  vmr_name :: string
  vmr_phase :: vm_phase
  vmr_image :: string
  vmr_vcpus :: u32
  vmr_memory_mb :: u32
  vmr_zone :: "string option"
  vmr_subnet_id :: "string option"
  vmr_hypervisor_id :: "string option"
  vmr_ip :: "string option"
  vmr_error :: "string option"
  vmr_created_at :: u64
  vmr_updated_at :: u64

datatype snapshot_state = SnapAvailable | SnapDeleted

record snapshot_record =
  snap_id :: string
  snap_source_volume_id :: string
  snap_sst_files :: "string list"
  snap_wal_position :: u64
  snap_org_id :: string
  snap_project_id :: string
  snap_size_gb :: u32
  snap_env_id :: string
  snap_volume_type :: volume_type
  snap_state :: snapshot_state

record manifest_pointer_record =
  mp_volume_id :: string
  mp_generation :: u64
  mp_manifest_version :: u64
  mp_s3_key :: string
  mp_published_by :: string

datatype quota_scope = ScopeOrg string | ScopeProject string string

section \<open>The state\<close>

record storage_state =
  st_quotas :: "(string, storage_quota) hmap"
  st_volumes :: "(string, volume_record) hmap"
  st_snapshots :: "(string, snapshot_record) hmap"
  st_sst_refcounts :: "(string, u64) hmap"
  st_storage_configs :: "(string, storage_config) hmap"
  st_manifest_pointers :: "(string, manifest_pointer_record) hmap"
  st_pending_gc_ssts :: "string list"
  st_restores_in_progress :: "string list"
  st_min_wal_position :: "u64 option"
  st_vm_records :: "(string, vm_record) hmap"

definition empty_storage_state :: storage_state where
  "empty_storage_state =
     \<lparr>st_quotas = [], st_volumes = [], st_snapshots = [], st_sst_refcounts = [],
      st_storage_configs = [], st_manifest_pointers = [], st_pending_gc_ssts = [],
      st_restores_in_progress = [], st_min_wal_position = None, st_vm_records = []\<rparr>"

text \<open>
  The fields of \<^verbatim>\<open>RedbStateMachine\<close> that the storage commands use.  The other stores
  of the replica extend this record, so a storage command leaves them alone by its type.
\<close>

record storage_sm =
  sm_storage :: storage_state
  sm_storage_store :: "storage_store option"

section \<open>Errors and responses\<close>

datatype storage_error =
    QuotaExceeded quota_scope string u64 u64
  | InvalidStorageConfig string string
  | EmptyZone
  | VolumeNameExists string string
  | VolumeIdExists string
  | DeleteAttached string
  | VolumeAlreadyDeleted string
  | DeletionProtected string
  | VolumeHasSnapshots string nat
  | CascadeRestoresInProgress string "string list"
  | VolumeNotFound string
  | AttachNotAvailable string volume_state
  | DetachRoot string
  | VolumeNotAttached string volume_state
  | RescheduleSameHypervisor string string
  | VolumeNotOnHypervisor string string "string option"
  | RescheduleNotAttached string volume_state
  | MigrateSameZone string string
  | SourceZoneConfigMissing string
  | TargetZoneConfigMissing string
  | MigrateNotAvailable string volume_state
  | CompleteNotMigrating string volume_state
  | RollbackNotMigrating string volume_state
  | CannotShrink string u32 u32
  | ResizeNotAvailable string volume_state
  | SourceVolumeNotFound string
  | SnapshotIdExists string
  | DeleteRestoreInProgress string
  | SnapshotAlreadyDeleted string
  | SnapshotNotFound string
  | GenerationMismatch string u64 u64
  | WrongPublisher string string string
  | ManifestVersionGap string u64 u64
  | RestoreFromDeleted string

datatype sm_error =
    StorageError storage_error
  | OrgError org_error
  | VmRecordExists string
  | UnknownPhase string
  | VmRecordNotFound string
  | StoreMissing string
  | AutoVpcFailed string org_error
  | OtherError string
  | CompositeFailed sm_error

datatype response =
    Ok
  | Created string
  | Error sm_error
  | AllocatedIp string string
  | StorageConfigResponse storage_config
  | CompositeResponse "response list"

definition is_error :: "response \<Rightarrow> bool" where
  "is_error r \<longleftrightarrow> (case r of Error _ \<Rightarrow> True | _ \<Rightarrow> False)"

abbreviation storage_err :: "storage_error \<Rightarrow> response" where
  "storage_err e \<equiv> Error (StorageError e)"

lemma is_error_simps [simp]:
  "is_error (Error e)" "\<not> is_error Ok" "\<not> is_error (Created i)"
  "\<not> is_error (AllocatedIp ip mac)" "\<not> is_error (CompositeResponse rs)"
  by (simp_all add: is_error_def)

lemma from_str_loose_roundtrip: "from_str_loose (vm_phase_to_string p) = Some p"
  by (cases p) (simp_all add: from_str_loose_def)

lemma from_str_loose_SomeD: "from_str_loose s = Some p \<Longrightarrow> s = vm_phase_to_string p"
  by (auto simp: from_str_loose_def split: if_splits)

end
