(* ===== verification/Storage_Quota.thy ===== *)
theory Storage_Quota
  imports Storage_State
begin

text \<open>
  Quotas of the storage layer: the scope keys, the effective quota of a project, the usage
  within a scope and the three checks the commands perform, from
  \<^verbatim>\<open>layers/controlplane/src/state_machine.rs\<close>; and the validation of a storage
  configuration from \<^verbatim>\<open>layers/controlplane/src/commands.rs\<close>.

  The usage is computed in wrapping 64-bit arithmetic.  \<open>scope_count\<close> and \<open>scope_gb\<close> are
  the exact figures, and \<open>compute_volume_usage_exact\<close> shows when the two agree: it is
  enough that fewer than \<open>2 ^ 32\<close> live volumes are in the scope.
\<close>

section \<open>Configuration\<close>

definition validate_config :: "storage_config \<Rightarrow> string + unit" where
  "validate_config cfg =
     (if \<not> starts_with (cfg_s3_endpoint cfg) ''https://'' \<and> \<not> starts_with (cfg_s3_endpoint cfg) ''http://''
      then Inl ''s3_endpoint must start with https:// or http://''
      else if cfg_s3_bucket cfg = [] then Inl ''s3_bucket must not be empty''
      else if cfg_s3_access_key cfg = [] then Inl ''s3_access_key must not be empty''
      else if cfg_s3_secret_key cfg = [] then Inl ''s3_secret_key must not be empty''
      else Inr ())"

definition get_storage_config :: "string \<Rightarrow> storage_state \<Rightarrow> storage_config option" where
  "get_storage_config z st = hget (st_storage_configs st) z"

section \<open>Scopes\<close>

fun quota_key :: "quota_scope \<Rightarrow> string" where
  "quota_key (ScopeOrg oid) = ''org:'' @ oid"
| "quota_key (ScopeProject oid pid) = ''project:'' @ oid @ ''/'' @ pid"

definition effective_quota_from :: "storage_state \<Rightarrow> string \<Rightarrow> string \<Rightarrow> storage_quota option" where
  "effective_quota_from st oid pid =
     (case hget (st_quotas st) (quota_key (ScopeProject oid pid)) of
        Some q \<Rightarrow> Some q
      | None \<Rightarrow> hget (st_quotas st) (quota_key (ScopeOrg oid)))"

definition effective_quota_scope_from :: "storage_state \<Rightarrow> string \<Rightarrow> string \<Rightarrow> quota_scope" where
  "effective_quota_scope_from st oid pid =
     (if hcontains (st_quotas st) (quota_key (ScopeProject oid pid))
      then ScopeProject oid pid else ScopeOrg oid)"

fun volume_in_scope :: "quota_scope \<Rightarrow> volume_record \<Rightarrow> bool" where
  "volume_in_scope (ScopeOrg oid) v \<longleftrightarrow> vol_org_id v = oid"
| "volume_in_scope (ScopeProject oid pid) v \<longleftrightarrow> vol_org_id v = oid \<and> vol_project_id v = pid"

fun snapshot_in_scope :: "quota_scope \<Rightarrow> snapshot_record \<Rightarrow> bool" where
  "snapshot_in_scope (ScopeOrg oid) s \<longleftrightarrow> snap_org_id s = oid"
| "snapshot_in_scope (ScopeProject oid pid) s \<longleftrightarrow> snap_org_id s = oid \<and> snap_project_id s = pid"

section \<open>Usage and checks\<close>

definition compute_volume_usage :: "storage_state \<Rightarrow> quota_scope \<Rightarrow> u64 \<times> u64" where
  "compute_volume_usage st sc =
     fold (\<lambda>v (count, total_gb).
             if vol_state v = VolDeleted then (count, total_gb)
             else if volume_in_scope sc v then (count + 1, total_gb + ucast (vol_size_gb v))
             else (count, total_gb))
       (hvalues (st_volumes st)) (0, 0)"

definition compute_snapshot_count :: "storage_state \<Rightarrow> quota_scope \<Rightarrow> u64" where
  "compute_snapshot_count st sc =
     fold (\<lambda>s count.
             if snap_state s = SnapDeleted then count
             else if snapshot_in_scope sc s then count + 1 else count)
       (hvalues (st_snapshots st)) 0"

definition check_volume_quota ::
    "storage_state \<Rightarrow> string \<Rightarrow> string \<Rightarrow> u32 \<Rightarrow> storage_error + unit" where
  "check_volume_quota st oid pid new_size_gb =
     (case effective_quota_from st oid pid of
        None \<Rightarrow> Inr ()
      | Some quota \<Rightarrow>
          let scope = effective_quota_scope_from st oid pid;
              (count, total_gb) = compute_volume_usage st scope
          in if count \<ge> ucast (q_max_volumes quota)
             then Inl (QuotaExceeded scope ''volume_count'' count (ucast (q_max_volumes quota)))
             else if total_gb + ucast new_size_gb > q_max_total_gb quota
             then Inl (QuotaExceeded scope ''total_gb'' total_gb (q_max_total_gb quota))
             else Inr ())"

definition check_resize_quota ::
    "storage_state \<Rightarrow> string \<Rightarrow> string \<Rightarrow> u32 \<Rightarrow> storage_error + unit" where
  "check_resize_quota st oid pid delta_gb =
     (case effective_quota_from st oid pid of
        None \<Rightarrow> Inr ()
      | Some quota \<Rightarrow>
          let scope = effective_quota_scope_from st oid pid;
              (_, total_gb) = compute_volume_usage st scope
          in if total_gb + ucast delta_gb > q_max_total_gb quota
             then Inl (QuotaExceeded scope ''total_gb'' total_gb (q_max_total_gb quota))
             else Inr ())"

definition check_snapshot_quota :: "storage_state \<Rightarrow> string \<Rightarrow> string \<Rightarrow> storage_error + unit" where
  "check_snapshot_quota st oid pid =
     (case effective_quota_from st oid pid of
        None \<Rightarrow> Inr ()
      | Some quota \<Rightarrow>
          let scope = effective_quota_scope_from st oid pid;
              count = compute_snapshot_count st scope
          in if count \<ge> ucast (q_max_snapshots quota)
             then Inl (QuotaExceeded scope ''snapshot_count'' count (ucast (q_max_snapshots quota)))
             else Inr ())"

section \<open>Exact usage\<close>

definition vol_live_in :: "quota_scope \<Rightarrow> volume_record \<Rightarrow> bool" where
  "vol_live_in sc v \<longleftrightarrow> vol_state v \<noteq> VolDeleted \<and> volume_in_scope sc v"

definition snap_live_in :: "quota_scope \<Rightarrow> snapshot_record \<Rightarrow> bool" where
  "snap_live_in sc s \<longleftrightarrow> snap_state s \<noteq> SnapDeleted \<and> snapshot_in_scope sc s"

definition scope_count :: "(string, volume_record) hmap \<Rightarrow> quota_scope \<Rightarrow> nat" where
  "scope_count m sc = sum_list (map (\<lambda>(_, v). if vol_live_in sc v then 1 else 0) m)"

definition scope_gb :: "(string, volume_record) hmap \<Rightarrow> quota_scope \<Rightarrow> nat" where
  "scope_gb m sc = sum_list (map (\<lambda>(_, v). if vol_live_in sc v then unat (vol_size_gb v) else 0) m)"

definition scope_snapshots :: "(string, snapshot_record) hmap \<Rightarrow> quota_scope \<Rightarrow> nat" where
  "scope_snapshots m sc = sum_list (map (\<lambda>(_, s). if snap_live_in sc s then 1 else 0) m)"

lemma compute_volume_usage_words:
  "compute_volume_usage st sc = (of_nat (scope_count (st_volumes st) sc), of_nat (scope_gb (st_volumes st) sc))"
proof -
  let ?f = "\<lambda>v (count, total_gb).
             if vol_state v = VolDeleted then (count, total_gb)
             else if volume_in_scope sc v then (count + 1, total_gb + ucast (vol_size_gb v))
             else (count :: u64, total_gb :: u64)"
  have "fold ?f (map snd m) (a, b) = (a + of_nat (scope_count m sc), b + of_nat (scope_gb m sc))"
    for m :: "(string, volume_record) hmap" and a b
    by (induction m arbitrary: a b)
       (auto simp: scope_count_def scope_gb_def vol_live_in_def algebra_simps)
  from this [of "st_volumes st" 0 0] show ?thesis
    by (simp add: compute_volume_usage_def)
qed

lemma compute_snapshot_count_words:
  "compute_snapshot_count st sc = of_nat (scope_snapshots (st_snapshots st) sc)"
proof -
  let ?f = "\<lambda>s count.
             if snap_state s = SnapDeleted then count
             else if snapshot_in_scope sc s then count + 1 else (count :: u64)"
  have "fold ?f (map snd m) a = a + of_nat (scope_snapshots m sc)"
    for m :: "(string, snapshot_record) hmap" and a
    by (induction m arbitrary: a)
       (auto simp: scope_snapshots_def snap_live_in_def algebra_simps)
  from this [of "st_snapshots st" 0] show ?thesis
    by (simp add: compute_snapshot_count_def)
qed

lemma scope_gb_le: "scope_gb m sc \<le> scope_count m sc * (2 ^ 32 - 1)"
proof (induction m)
  case (Cons p m)
  have "unat (vol_size_gb (snd p)) \<le> 2 ^ 32 - 1"
    using unat_u32_bound [of "vol_size_gb (snd p)"] by linarith
  then show ?case using Cons by (cases p) (simp add: scope_count_def scope_gb_def)
qed (simp add: scope_count_def scope_gb_def)

lemma scope_gb_room:
  assumes "scope_count m sc < 2 ^ 32"
  shows "scope_gb m sc + (2 ^ 32 - 1) < 2 ^ 64"
proof -
  have "scope_gb m sc \<le> (2 ^ 32 - 1) * (2 ^ 32 - 1)"
    using scope_gb_le [of m sc] assms mult_le_mono1 [of "scope_count m sc" "2 ^ 32 - 1" "2 ^ 32 - 1"]
    by linarith
  then show ?thesis by simp
qed

lemma compute_volume_usage_exact:
  assumes "scope_count (st_volumes st) sc < 2 ^ 32"
  shows "unat (fst (compute_volume_usage st sc)) = scope_count (st_volumes st) sc"
    and "unat (snd (compute_volume_usage st sc)) = scope_gb (st_volumes st) sc"
    and "unat (snd (compute_volume_usage st sc) + ucast (n :: u32)) = scope_gb (st_volumes st) sc + unat n"
proof -
  have room: "scope_gb (st_volumes st) sc + (2 ^ 32 - 1) < 2 ^ 64"
    using assms by (rule scope_gb_room)
  show "unat (fst (compute_volume_usage st sc)) = scope_count (st_volumes st) sc"
    using assms by (simp add: compute_volume_usage_words unat_of_nat_u64)
  show total: "unat (snd (compute_volume_usage st sc)) = scope_gb (st_volumes st) sc"
    using room by (simp add: compute_volume_usage_words unat_of_nat_u64)
  have "unat n \<le> 2 ^ 32 - 1" using unat_u32_bound [of n] by linarith
  with total room show
    "unat (snd (compute_volume_usage st sc) + ucast n) = scope_gb (st_volumes st) sc + unat n"
    by (subst unat_add_u64) simp_all
qed

section \<open>The keys of distinct scopes are distinct\<close>

lemma quota_key_scope_kind [simp]: "quota_key (ScopeOrg o1) \<noteq> quota_key (ScopeProject o2 p2)"
  by simp

lemma quota_key_org_inject [simp]: "quota_key (ScopeOrg o1) = quota_key (ScopeOrg o2) \<longleftrightarrow> o1 = o2"
  by simp

lemma quota_key_project_inject:
  "\<lbrakk>CHR ''/'' \<notin> set o1; CHR ''/'' \<notin> set o2\<rbrakk>
   \<Longrightarrow> quota_key (ScopeProject o1 p1) = quota_key (ScopeProject o2 p2) \<longleftrightarrow> o1 = o2 \<and> p1 = p2"
  using joined_key_inject [of "CHR ''/''" o1 o2 p1 p2] by simp

end
