(* ===== verification/Storage_Sync.thy ===== *)
theory Storage_Sync
  imports Storage_Quota
begin

text \<open>
  The helpers of \<^verbatim>\<open>state_machine.rs\<close> that copy the in-memory storage state into the redb
  store after a command changed it: upsert of a volume with its hypervisor index, hard
  delete, configurations and quotas.  A failed store call is logged and ignored by the
  source, so the store is unchanged on that branch.

  \<open>store_agrees\<close> is the contract of these helpers: the volume table holds the image of
  the in-memory map, and both indexes file each volume exactly once, under its environment
  and under its hypervisor.
\<close>

fun to_store_state :: "volume_state \<Rightarrow> sv_state_kind" where
  "to_store_state VolAvailable = SvAvailable"
| "to_store_state VolAttached = SvAttached"
| "to_store_state VolMigrating = SvMigrating"
| "to_store_state VolDeleted = SvDeleted"

definition store_volume_of :: "volume_record \<Rightarrow> u64 \<Rightarrow> u64 \<Rightarrow> store_volume" where
  "store_volume_of vol created updated =
     \<lparr>sv_id = vol_id vol, sv_name = vol_name vol, sv_size_gb = vol_size_gb vol,
      sv_org_id = vol_org_id vol, sv_project_id = vol_project_id vol, sv_env_id = vol_env_id vol,
      sv_volume_type = vol_type vol, sv_state = to_store_state (vol_state vol),
      sv_attached_vm_id = vol_attached_vm_id vol,
      sv_attached_hypervisor_id = vol_attached_hypervisor_id vol,
      sv_placement_generation = vol_placement_generation vol,
      sv_created_at = created, sv_updated_at = updated\<rparr>"

text \<open>The part of \<^verbatim>\<open>sync_volume_to_store\<close> after the store was found to be configured.\<close>

definition sync_volume :: "node_ctx \<Rightarrow> volume_record \<Rightarrow> storage_store \<Rightarrow> storage_store" where
  "sync_volume c vol store =
     (let now = ctx_now c;
          existing = get_volume (vol_id vol) store;
          store_vol = store_volume_of vol
                        (case existing of None \<Rightarrow> now | Some e \<Rightarrow> sv_created_at e) now;
          old_hv = Option.bind existing sv_attached_hypervisor_id;
          new_hv = vol_attached_hypervisor_id vol;
          store1 =
            (if old_hv \<noteq> new_hv
             then (case new_hv of
                     None \<Rightarrow> (\<lambda>s. s)
                   | Some h \<Rightarrow> add_to_hypervisor_index h (vol_id vol))
                  ((case old_hv of
                      None \<Rightarrow> (\<lambda>s. s)
                    | Some h \<Rightarrow> remove_from_hypervisor_index h (vol_id vol)) store)
             else store)
      in (case (if existing \<noteq> None then update_volume store_vol store1
                else create_volume store_vol store1) of
            Inl _ \<Rightarrow> store1
          | Inr store2 \<Rightarrow> store2))"

definition sync_volume_to_store ::
    "node_ctx \<Rightarrow> volume_record \<Rightarrow> 'a storage_sm_scheme \<Rightarrow> 'a storage_sm_scheme" where
  "sync_volume_to_store c vol sm =
     (case sm_storage_store sm of
        None \<Rightarrow> sm
      | Some store \<Rightarrow> sm\<lparr>sm_storage_store := Some (sync_volume c vol store)\<rparr>)"

definition sync_volume_delete :: "string \<Rightarrow> storage_store \<Rightarrow> storage_store" where
  "sync_volume_delete i store =
     (case delete_volume i store of Inl _ \<Rightarrow> store | Inr store' \<Rightarrow> store')"

definition sync_volume_delete_from_store ::
    "string \<Rightarrow> 'a storage_sm_scheme \<Rightarrow> 'a storage_sm_scheme" where
  "sync_volume_delete_from_store i sm =
     (case sm_storage_store sm of
        None \<Rightarrow> sm
      | Some store \<Rightarrow> sm\<lparr>sm_storage_store := Some (sync_volume_delete i store)\<rparr>)"

definition sync_storage_config_to_store ::
    "string \<Rightarrow> storage_config \<Rightarrow> 'a storage_sm_scheme \<Rightarrow> 'a storage_sm_scheme" where
  "sync_storage_config_to_store z cfg sm =
     (case sm_storage_store sm of
        None \<Rightarrow> sm
      | Some store \<Rightarrow> sm\<lparr>sm_storage_store := Some (set_storage_config z cfg store)\<rparr>)"

definition sync_quota_to_store ::
    "quota_scope \<Rightarrow> storage_quota \<Rightarrow> 'a storage_sm_scheme \<Rightarrow> 'a storage_sm_scheme" where
  "sync_quota_to_store sc q sm =
     (case sm_storage_store sm of
        None \<Rightarrow> sm
      | Some store \<Rightarrow> sm\<lparr>sm_storage_store := Some (set_storage_quota (quota_key sc) q store)\<rparr>)"

section \<open>The helpers leave the in-memory state alone\<close>

lemmas sync_defs = sync_volume_to_store_def sync_volume_delete_from_store_def
  sync_storage_config_to_store_def sync_quota_to_store_def

lemma sm_storage_sync [simp]:
  "sm_storage (sync_volume_to_store c vol sm) = sm_storage sm"
  "sm_storage (sync_volume_delete_from_store i sm) = sm_storage sm"
  "sm_storage (sync_storage_config_to_store z cfg sm) = sm_storage sm"
  "sm_storage (sync_quota_to_store sc q sm) = sm_storage sm"
  by (simp_all add: sync_defs split: option.splits)

lemma sm_more_sync [simp]:
  "storage_sm.more (sync_volume_to_store c vol sm) = storage_sm.more sm"
  "storage_sm.more (sync_volume_delete_from_store i sm) = storage_sm.more sm"
  "storage_sm.more (sync_storage_config_to_store z cfg sm) = storage_sm.more sm"
  "storage_sm.more (sync_quota_to_store sc q sm) = storage_sm.more sm"
  by (simp_all add: sync_defs split: option.splits)

lemma sm_store_sync [simp]:
  "sm_storage_store (sync_volume_to_store c vol sm) = map_option (sync_volume c vol) (sm_storage_store sm)"
  "sm_storage_store (sync_volume_delete_from_store i sm) = map_option (sync_volume_delete i) (sm_storage_store sm)"
  "sm_storage_store (sync_storage_config_to_store z cfg sm) = map_option (set_storage_config z cfg) (sm_storage_store sm)"
  "sm_storage_store (sync_quota_to_store sc q sm) = map_option (set_storage_quota (quota_key sc) q) (sm_storage_store sm)"
  by (simp_all add: sync_defs split: option.splits)

section \<open>Agreement of the store with the in-memory volumes\<close>

definition untimed :: "store_volume \<Rightarrow> store_volume" where
  "untimed v = v\<lparr>sv_created_at := 0, sv_updated_at := 0\<rparr>"

definition store_agrees :: "(string \<Rightarrow> volume_record option) \<Rightarrow> storage_store \<Rightarrow> bool" where
  "store_agrees vols store \<longleftrightarrow>
     (\<forall>i. map_option untimed (get_volume i store) = map_option (\<lambda>v. store_volume_of v 0 0) (vols i)) \<and>
     index_exact idx_set (tbl_volumes_by_env store) (\<lambda>i. map_option vol_env_id (vols i)) \<and>
     index_exact idx_set (tbl_volumes_by_hypervisor store)
       (\<lambda>i. Option.bind (vols i) vol_attached_hypervisor_id)"

lemma untimed_store_volume_of [simp]: "untimed (store_volume_of v a b) = store_volume_of v 0 0"
  by (simp add: untimed_def store_volume_of_def)

lemma store_volume_of_sel [simp]:
  "sv_id (store_volume_of v a b) = vol_id v"
  "sv_env_id (store_volume_of v a b) = vol_env_id v"
  "sv_attached_hypervisor_id (store_volume_of v a b) = vol_attached_hypervisor_id v"
  by (simp_all add: store_volume_of_def)

lemma untimed_sel [simp]:
  "sv_env_id (untimed v) = sv_env_id v"
  "sv_attached_hypervisor_id (untimed v) = sv_attached_hypervisor_id v"
  by (simp_all add: untimed_def)

lemma store_agrees_get:
  assumes "store_agrees vols store"
  shows "get_volume i store = None \<longleftrightarrow> vols i = None"
    and "Option.bind (get_volume i store) sv_attached_hypervisor_id
           = Option.bind (vols i) vol_attached_hypervisor_id"
    and "map_option sv_env_id (get_volume i store) = map_option vol_env_id (vols i)"
proof -
  have eq: "map_option untimed (get_volume i store) = map_option (\<lambda>v. store_volume_of v 0 0) (vols i)"
    using assms by (simp add: store_agrees_def)
  then show "get_volume i store = None \<longleftrightarrow> vols i = None"
    by (cases "get_volume i store"; cases "vols i") simp_all
  show "Option.bind (get_volume i store) sv_attached_hypervisor_id
          = Option.bind (vols i) vol_attached_hypervisor_id"
    using eq by (cases "get_volume i store"; cases "vols i")
      (auto dest: arg_cong [of _ _ sv_attached_hypervisor_id])
  show "map_option sv_env_id (get_volume i store) = map_option vol_env_id (vols i)"
    using eq by (cases "get_volume i store"; cases "vols i")
      (auto dest: arg_cong [of _ _ sv_env_id])
qed

lemmas index_update_defs = add_to_env_index_def remove_from_env_index_def
  add_to_hypervisor_index_def remove_from_hypervisor_index_def

lemma get_volume_sync:
  "map_option untimed (get_volume j (sync_volume c vol store)) =
     (if j = vol_id vol then Some (store_volume_of vol 0 0) else map_option untimed (get_volume j store))"
  by (auto simp: sync_volume_def Let_def update_volume_def create_volume_def get_volume_def
        index_update_defs split: option.splits)

lemma env_index_sync:
  "tbl_volumes_by_env (sync_volume c vol store) =
     (if get_volume (vol_id vol) store = None
      then idx_add (vol_env_id vol) (vol_id vol) (tbl_volumes_by_env store)
      else tbl_volumes_by_env store)"
  by (auto simp: sync_volume_def Let_def update_volume_def create_volume_def get_volume_def
        index_update_defs split: option.splits)

lemma hypervisor_index_sync:
  "tbl_volumes_by_hypervisor (sync_volume c vol store) =
     (let i = vol_id vol; old = Option.bind (get_volume i store) sv_attached_hypervisor_id;
          new = vol_attached_hypervisor_id vol
      in if old \<noteq> new
         then (case new of None \<Rightarrow> (\<lambda>ix. ix) | Some k \<Rightarrow> idx_add k i)
                ((case old of None \<Rightarrow> (\<lambda>ix. ix) | Some k \<Rightarrow> idx_remove k i)
                   (tbl_volumes_by_hypervisor store))
         else tbl_volumes_by_hypervisor store)"
  by (simp add: sync_volume_def Let_def update_volume_def create_volume_def get_volume_def
        index_update_defs split: option.splits)

lemma store_agrees_sync:
  assumes agr: "store_agrees vols store"
    and env: "\<And>v. vols (vol_id vol) = Some v \<Longrightarrow> vol_env_id v = vol_env_id vol"
  shows "store_agrees (vols(vol_id vol \<mapsto> vol)) (sync_volume c vol store)"
proof -
  let ?i = "vol_id vol"
  let ?s' = "sync_volume c vol store"
  have "map_option untimed (get_volume j ?s')
          = map_option (\<lambda>v. store_volume_of v 0 0) ((vols(?i \<mapsto> vol)) j)" for j
    using agr by (simp add: get_volume_sync store_agrees_def)
  moreover
  have env_eq: "(\<lambda>j. map_option vol_env_id ((vols(?i \<mapsto> vol)) j))
                  = (\<lambda>j. map_option vol_env_id (vols j))(?i \<mapsto> vol_env_id vol)"
    by auto
  have "index_exact idx_set (tbl_volumes_by_env ?s')
          ((\<lambda>j. map_option vol_env_id (vols j))(?i \<mapsto> vol_env_id vol))"
  proof (cases "vols ?i")
    case None
    then show ?thesis
      using agr store_agrees_get(1) [OF agr, of ?i]
      by (simp add: env_index_sync) (rule vidx.exact_add, simp_all add: store_agrees_def)
  next
    case (Some v)
    then have "(\<lambda>j. map_option vol_env_id (vols j))(?i \<mapsto> vol_env_id vol)
                 = (\<lambda>j. map_option vol_env_id (vols j))"
      using env by (auto simp: fun_eq_iff)
    then show ?thesis
      using agr Some store_agrees_get(1) [OF agr, of ?i] by (auto simp: env_index_sync store_agrees_def)
  qed
  moreover
  have hv_eq: "(\<lambda>j. Option.bind ((vols(?i \<mapsto> vol)) j) vol_attached_hypervisor_id)
                 = (\<lambda>j. Option.bind (vols j) vol_attached_hypervisor_id)
                     (?i := vol_attached_hypervisor_id vol)"
    by auto
  have "index_exact idx_set (tbl_volumes_by_hypervisor ?s')
          ((\<lambda>j. Option.bind (vols j) vol_attached_hypervisor_id)(?i := vol_attached_hypervisor_id vol))"
    using agr vidx.exact_move [of "tbl_volumes_by_hypervisor store"
        "\<lambda>j. Option.bind (vols j) vol_attached_hypervisor_id" ?i "vol_attached_hypervisor_id vol"]
    by (simp add: hypervisor_index_sync Let_def store_agrees_get(2) [OF agr] store_agrees_def)
  ultimately show ?thesis
    unfolding store_agrees_def env_eq hv_eq by blast
qed

lemma get_volume_sync_delete:
  "get_volume j (sync_volume_delete i store) = (if j = i then None else get_volume j store)"
  by (simp add: sync_volume_delete_def delete_volume_def Let_def get_volume_def index_update_defs
        split: option.splits)

lemma env_index_sync_delete:
  "tbl_volumes_by_env (sync_volume_delete i store) =
     (case get_volume i store of
        None \<Rightarrow> tbl_volumes_by_env store
      | Some v \<Rightarrow> idx_remove (sv_env_id v) i (tbl_volumes_by_env store))"
  by (simp add: sync_volume_delete_def delete_volume_def Let_def get_volume_def index_update_defs
        split: option.splits)

lemma hypervisor_index_sync_delete:
  "tbl_volumes_by_hypervisor (sync_volume_delete i store) =
     (case Option.bind (get_volume i store) sv_attached_hypervisor_id of
        None \<Rightarrow> tbl_volumes_by_hypervisor store
      | Some h \<Rightarrow> idx_remove h i (tbl_volumes_by_hypervisor store))"
  by (simp add: sync_volume_delete_def delete_volume_def Let_def get_volume_def index_update_defs
        split: option.splits bind_splits)

lemma index_exact_None:
  "\<lbrakk>index_exact ids ix f; f i = None\<rbrakk> \<Longrightarrow> index_exact ids ix (f(i := None))"
  by (simp add: fun_upd_idem)

lemma store_agrees_sync_delete:
  assumes agr: "store_agrees vols store"
  shows "store_agrees (vols(i := None)) (sync_volume_delete i store)"
proof -
  let ?e = "\<lambda>j. map_option vol_env_id (vols j)"
  let ?h = "\<lambda>j. Option.bind (vols j) vol_attached_hypervisor_id"
  have ix: "index_exact idx_set (tbl_volumes_by_env store) ?e"
      "index_exact idx_set (tbl_volumes_by_hypervisor store) ?h"
    using agr by (simp_all add: store_agrees_def)
  have "index_exact idx_set (tbl_volumes_by_env (sync_volume_delete i store)) (?e(i := None))"
  proof (cases "get_volume i store")
    case None
    then show ?thesis
      using ix(1) store_agrees_get(3) [OF agr, of i]
      by (simp add: env_index_sync_delete index_exact_None)
  next
    case (Some v)
    then show ?thesis
      using store_agrees_get(3) [OF agr, of i] vidx.exact_remove [OF ix(1), of i "sv_env_id v"]
      by (simp add: env_index_sync_delete)
  qed
  moreover have "index_exact idx_set (tbl_volumes_by_hypervisor (sync_volume_delete i store)) (?h(i := None))"
    using ix(2) store_agrees_get(2) [OF agr, of i] vidx.exact_remove [OF ix(2), of i]
    by (auto simp: hypervisor_index_sync_delete index_exact_None split: option.splits)
  moreover have "(\<lambda>j. map_option vol_env_id ((vols(i := None)) j)) = ?e(i := None)"
    "(\<lambda>j. Option.bind ((vols(i := None)) j) vol_attached_hypervisor_id) = ?h(i := None)"
    by auto
  ultimately show ?thesis
    using agr by (simp add: store_agrees_def get_volume_sync_delete)
qed

lemma store_agrees_other [simp]:
  "store_agrees vols (set_storage_config z cfg store) \<longleftrightarrow> store_agrees vols store"
  "store_agrees vols (set_storage_quota k q store) \<longleftrightarrow> store_agrees vols store"
  by (simp_all add: store_agrees_def get_volume_def set_storage_config_def set_storage_quota_def)

lemma store_agrees_empty: "store_agrees Map.empty empty_storage_store"
  by (simp add: store_agrees_def get_volume_def empty_storage_store_def index_exact_def idx_ids_def)

end
