(* ===== verification/Storage_Commands.thy ===== *)
theory Storage_Commands
  imports Storage_Sync
begin

text \<open>
  The storage commands of the replicated state machine
  (\<^verbatim>\<open>layers/controlplane/src/commands.rs\<close>, the section "Storage" and "GC") and the arms of
  \<^verbatim>\<open>apply_command\<close> in \<^verbatim>\<open>layers/controlplane/src/state_machine.rs\<close> that execute them.
  Each handler takes the replica and returns it updated, with the response; an early
  \<^verbatim>\<open>return StateMachineResponse::Error\<close> is a branch that returns the replica as it was at
  that point.  The write lock on the storage state is held for a whole handler and Raft
  applies one command at a time, so a handler is one step.
\<close>

section \<open>Commands\<close>

datatype (plugins only: code size) storage_command =
    CreateVolume string string u32 string string string volume_type "string option" "string option"
  | DeleteVolume string bool u64
  | VolumeAttach string string string
  | VolumeDetach string
  | ResizeVolume string u32
  | CreateSnapshot string string "string list" u64
  | DeleteSnapshot string
  | RestoreSnapshot string string string
  | MarkRestoreBegin string
  | MarkRestoreComplete string
  | SetStorageConfig string string storage_config
  | SetStorageQuota quota_scope u32 u64 u32
  | PurgeTombstones u64 u64
  | RescheduleVolume string string string string
  | MigrateVolumeToZone string string string string "string option"
  | CompleteMigration string
  | RollbackMigration string string
  | CommitManifest string u64 u64 string string
  | GcCompleteSsts "string list"
  | GcCompleteWalSegments u64

section \<open>Shared steps of the handlers\<close>

definition put_volume :: "string \<Rightarrow> volume_record \<Rightarrow> storage_state \<Rightarrow> storage_state" where
  "put_volume i v st = st\<lparr>st_volumes := hinsert i v (st_volumes st)\<rparr>"

text \<open>The record is written to the in-memory map and then synchronised to the store.\<close>

definition commit_volume ::
    "node_ctx \<Rightarrow> string \<Rightarrow> volume_record \<Rightarrow> 'a storage_sm_scheme \<Rightarrow> 'a storage_sm_scheme" where
  "commit_volume c i v sm = sync_volume_to_store c v (sm_storage_update (put_volume i v) sm)"

definition volume_name_exists ::
    "string \<Rightarrow> string \<Rightarrow> string \<Rightarrow> string \<Rightarrow> storage_state \<Rightarrow> bool" where
  "volume_name_exists eid name oid pid st \<longleftrightarrow>
     list_ex (\<lambda>v. vol_env_id v = eid \<and> vol_name v = name \<and> vol_org_id v = oid \<and> vol_project_id v = pid)
       (hvalues (st_volumes st))"

definition sst_count :: "storage_state \<Rightarrow> string \<Rightarrow> u64" where
  "sst_count st k = (case hget (st_sst_refcounts st) k of Some n \<Rightarrow> n | None \<Rightarrow> 0)"

definition sst_increment :: "string \<Rightarrow> storage_state \<Rightarrow> storage_state" where
  "sst_increment k st = st\<lparr>st_sst_refcounts := hinsert k (sst_count st k + 1) (st_sst_refcounts st)\<rparr>"

definition live_wal_positions :: "storage_state \<Rightarrow> u64 list" where
  "live_wal_positions st =
     map snap_wal_position (filter (\<lambda>s. snap_state s \<noteq> SnapDeleted) (hvalues (st_snapshots st)))"

fun min_of :: "u64 list \<Rightarrow> u64 option" where
  "min_of [] = None"
| "min_of (x # xs) = Some (foldl min x xs)"

definition mark_snapshot_deleted :: "string \<Rightarrow> storage_state \<Rightarrow> storage_state" where
  "mark_snapshot_deleted i st =
     (case hget (st_snapshots st) i of
        None \<Rightarrow> st
      | Some s \<Rightarrow> st\<lparr>st_snapshots := hinsert i (s\<lparr>snap_state := SnapDeleted\<rparr>) (st_snapshots st)\<rparr>)"

section \<open>Quotas, configurations, tombstones\<close>

definition apply_SetStorageQuota ::
    "quota_scope \<Rightarrow> u32 \<Rightarrow> u64 \<Rightarrow> u32 \<Rightarrow> 'a storage_sm_scheme \<Rightarrow> 'a storage_sm_scheme \<times> response" where
  "apply_SetStorageQuota scope max_volumes max_total_gb max_snapshots sm =
     (let quota = \<lparr>q_max_volumes = max_volumes, q_max_total_gb = max_total_gb,
                   q_max_snapshots = max_snapshots\<rparr>;
          sm1 = sm_storage_update
                  (\<lambda>st. st\<lparr>st_quotas := hinsert (quota_key scope) quota (st_quotas st)\<rparr>) sm
      in (sync_quota_to_store scope quota sm1, Ok))"

definition apply_SetStorageConfig ::
    "string \<Rightarrow> string \<Rightarrow> storage_config \<Rightarrow> 'a storage_sm_scheme \<Rightarrow> 'a storage_sm_scheme \<times> response" where
  "apply_SetStorageConfig region zone config sm =
     (let zone_key = (if zone = [] then region else zone)
      in case validate_config config of
           Inl msg \<Rightarrow> (sm, storage_err (InvalidStorageConfig zone_key msg))
         | Inr _ \<Rightarrow>
             if zone_key = [] then (sm, storage_err EmptyZone)
             else
               (sync_storage_config_to_store zone_key config
                  (sm_storage_update
                     (\<lambda>st. st\<lparr>st_storage_configs := hinsert zone_key config (st_storage_configs st)\<rparr>) sm),
                Ok))"

definition tombstone_expired :: "u64 \<Rightarrow> u64 \<Rightarrow> volume_record \<Rightarrow> bool" where
  "tombstone_expired now max_age_secs vol \<longleftrightarrow>
     vol_state vol = VolDeleted \<and>
     (case vol_deleted_at vol of
        None \<Rightarrow> False
      | Some deleted_at \<Rightarrow> saturating_sub now deleted_at \<ge> max_age_secs)"

definition purge_ids :: "u64 \<Rightarrow> u64 \<Rightarrow> storage_state \<Rightarrow> string list" where
  "purge_ids now max_age_secs st =
     map fst (filter (\<lambda>(i, vol). tombstone_expired now max_age_secs vol) (st_volumes st))"

definition apply_PurgeTombstones ::
    "u64 \<Rightarrow> u64 \<Rightarrow> 'a storage_sm_scheme \<Rightarrow> 'a storage_sm_scheme \<times> response" where
  "apply_PurgeTombstones now max_age_secs sm =
     (let purged = purge_ids now max_age_secs (sm_storage sm);
          sm1 = sm_storage_update
                  (\<lambda>st. st\<lparr>st_volumes := fold hremove purged (st_volumes st)\<rparr>) sm
      in (fold sync_volume_delete_from_store purged sm1, Ok))"

section \<open>Creating and deleting volumes\<close>

definition new_volume ::
    "string \<Rightarrow> string \<Rightarrow> u32 \<Rightarrow> string \<Rightarrow> string \<Rightarrow> string \<Rightarrow> volume_type \<Rightarrow>
     string option \<Rightarrow> u64 \<Rightarrow> string option \<Rightarrow> volume_record" where
  "new_volume i name size_gb oid pid eid ty hv gen zone =
     \<lparr>vol_id = i, vol_name = name, vol_size_gb = size_gb, vol_org_id = oid, vol_project_id = pid,
      vol_env_id = eid, vol_type = ty, vol_state = VolAvailable, vol_attached_vm_id = None,
      vol_attached_hypervisor_id = hv, vol_placement_generation = gen, vol_zone = zone,
      vol_deletion_protection = False, vol_deleted_at = None,
      vol_migration_source_zone = None, vol_migration_target_zone = None,
      vol_pre_migration_hypervisor = None, vol_pre_migration_vm_id = None\<rparr>"

definition apply_CreateVolume ::
    "node_ctx \<Rightarrow> string \<Rightarrow> string \<Rightarrow> u32 \<Rightarrow> string \<Rightarrow> string \<Rightarrow> string \<Rightarrow> volume_type \<Rightarrow>
     string option \<Rightarrow> string option \<Rightarrow> 'a storage_sm_scheme \<Rightarrow> 'a storage_sm_scheme \<times> response" where
  "apply_CreateVolume c i name size_gb oid pid eid ty hypervisor_id zone sm =
     (let st = sm_storage sm
      in case check_volume_quota st oid pid size_gb of
           Inl e \<Rightarrow> (sm, storage_err e)
         | Inr _ \<Rightarrow>
             if volume_name_exists eid name oid pid st
             then (sm, storage_err (VolumeNameExists name eid))
             else if hcontains (st_volumes st) i
             then (sm, storage_err (VolumeIdExists i))
             else
               let (hv, gen) = (case hypervisor_id of Some h \<Rightarrow> (Some h, 1) | None \<Rightarrow> (None, 0))
               in (commit_volume c i (new_volume i name size_gb oid pid eid ty hv gen zone) sm, Created i))"

text \<open>
  One SST of a cascade-deleted snapshot: a count of at most one, or none, moves the file
  to the garbage-collection list.
\<close>

definition cascade_release_sst :: "string \<Rightarrow> storage_state \<Rightarrow> storage_state" where
  "cascade_release_sst k st =
     (let count = sst_count st k
      in if count \<le> 1
         then st\<lparr>st_sst_refcounts := hremove k (st_sst_refcounts st),
                 st_pending_gc_ssts := st_pending_gc_ssts st @ [k]\<rparr>
         else st\<lparr>st_sst_refcounts := hinsert k (count - 1) (st_sst_refcounts st)\<rparr>)"

definition live_snapshot_ids :: "string \<Rightarrow> storage_state \<Rightarrow> string list" where
  "live_snapshot_ids v st =
     map fst (filter (\<lambda>(_, s). snap_source_volume_id s = v \<and> snap_state s \<noteq> SnapDeleted)
       (st_snapshots st))"

definition cascade_delete_snapshots :: "string list \<Rightarrow> storage_state \<Rightarrow> storage_state" where
  "cascade_delete_snapshots snapshot_ids st =
     (let snap_ssts = List.map_filter
            (\<lambda>i. case hget (st_snapshots st) i of
                    None \<Rightarrow> None
                  | Some s \<Rightarrow> if snap_state s = SnapDeleted then None else Some (i, snap_sst_files s))
            snapshot_ids;
          st1 = fold (\<lambda>(i, files) st. mark_snapshot_deleted i (fold cascade_release_sst files st))
                  snap_ssts st
      in st1\<lparr>st_min_wal_position := min_of (live_wal_positions st1)\<rparr>)"

definition tombstone :: "u64 \<Rightarrow> volume_record \<Rightarrow> volume_record" where
  "tombstone deleted_at vol =
     vol\<lparr>vol_state := VolDeleted, vol_deleted_at := Some deleted_at,
         vol_attached_vm_id := None, vol_attached_hypervisor_id := None\<rparr>"

definition apply_DeleteVolume ::
    "node_ctx \<Rightarrow> string \<Rightarrow> bool \<Rightarrow> u64 \<Rightarrow> 'a storage_sm_scheme \<Rightarrow> 'a storage_sm_scheme \<times> response" where
  "apply_DeleteVolume c i cascade deleted_at sm =
     (let st = sm_storage sm
      in case hget (st_volumes st) i of
           None \<Rightarrow> (sm, storage_err (VolumeNotFound i))
         | Some vol \<Rightarrow>
             if vol_state vol = VolAttached \<and> vol_type vol \<noteq> Root
             then (sm, storage_err (DeleteAttached i))
             else if vol_state vol = VolDeleted
             then (sm, storage_err (VolumeAlreadyDeleted i))
             else if vol_deletion_protection vol
             then (sm, storage_err (DeletionProtected i))
             else
               let snapshot_ids = live_snapshot_ids i st;
                   blocked = filter (\<lambda>s. s \<in> set (st_restores_in_progress st)) snapshot_ids
               in if snapshot_ids \<noteq> [] \<and> \<not> cascade
                  then (sm, storage_err (VolumeHasSnapshots i (length snapshot_ids)))
                  else if cascade \<and> blocked \<noteq> []
                  then (sm, storage_err (CascadeRestoresInProgress i blocked))
                  else
                    let sm1 = (if cascade
                               then sm_storage_update (cascade_delete_snapshots snapshot_ids) sm
                               else sm)
                    in (commit_volume c i (tombstone deleted_at vol) sm1, Ok))"

section \<open>Attachment, rescheduling, migration\<close>

definition apply_VolumeAttach ::
    "node_ctx \<Rightarrow> string \<Rightarrow> string \<Rightarrow> string \<Rightarrow> 'a storage_sm_scheme \<Rightarrow> 'a storage_sm_scheme \<times> response" where
  "apply_VolumeAttach c i vm h sm =
     (case hget (st_volumes (sm_storage sm)) i of
        None \<Rightarrow> (sm, storage_err (VolumeNotFound i))
      | Some vol \<Rightarrow>
          if vol_state vol = VolAvailable
          then (commit_volume c i
                  (vol\<lparr>vol_state := VolAttached, vol_attached_vm_id := Some vm,
                       vol_attached_hypervisor_id := Some h,
                       vol_placement_generation := vol_placement_generation vol + 1\<rparr>) sm, Ok)
          else (sm, storage_err (AttachNotAvailable i (vol_state vol))))"

definition apply_VolumeDetach ::
    "node_ctx \<Rightarrow> string \<Rightarrow> 'a storage_sm_scheme \<Rightarrow> 'a storage_sm_scheme \<times> response" where
  "apply_VolumeDetach c i sm =
     (case hget (st_volumes (sm_storage sm)) i of
        None \<Rightarrow> (sm, storage_err (VolumeNotFound i))
      | Some vol \<Rightarrow>
          if vol_type vol = Root then (sm, storage_err (DetachRoot i))
          else if vol_state vol = VolAttached
          then (commit_volume c i
                  (vol\<lparr>vol_state := VolAvailable, vol_attached_vm_id := None,
                       vol_attached_hypervisor_id := None\<rparr>)
                  (sm_storage_update
                     (\<lambda>st. st\<lparr>st_manifest_pointers := hremove i (st_manifest_pointers st)\<rparr>) sm), Ok)
          else (sm, storage_err (VolumeNotAttached i (vol_state vol))))"

definition apply_RescheduleVolume ::
    "node_ctx \<Rightarrow> string \<Rightarrow> string \<Rightarrow> string \<Rightarrow> string \<Rightarrow> 'a storage_sm_scheme \<Rightarrow> 'a storage_sm_scheme \<times> response" where
  "apply_RescheduleVolume c i from_hv to_hv new_vm sm =
     (if from_hv = to_hv then (sm, storage_err (RescheduleSameHypervisor i from_hv))
      else case hget (st_volumes (sm_storage sm)) i of
        None \<Rightarrow> (sm, storage_err (VolumeNotFound i))
      | Some vol \<Rightarrow>
          if vol_state vol = VolAttached
          then if vol_attached_hypervisor_id vol \<noteq> Some from_hv
               then (sm, storage_err (VolumeNotOnHypervisor i from_hv (vol_attached_hypervisor_id vol)))
               else (commit_volume c i
                       (vol\<lparr>vol_placement_generation := vol_placement_generation vol + 1,
                            vol_attached_hypervisor_id := Some to_hv,
                            vol_attached_vm_id := Some new_vm\<rparr>) sm, Ok)
          else (sm, storage_err (RescheduleNotAttached i (vol_state vol))))"

definition apply_MigrateVolumeToZone ::
    "node_ctx \<Rightarrow> string \<Rightarrow> string \<Rightarrow> string \<Rightarrow> string \<Rightarrow> string option \<Rightarrow>
     'a storage_sm_scheme \<Rightarrow> 'a storage_sm_scheme \<times> response" where
  "apply_MigrateVolumeToZone c i source_zone target_zone target_hv target_vm sm =
     (let st = sm_storage sm
      in if source_zone = target_zone then (sm, storage_err (MigrateSameZone i source_zone))
         else if \<not> hcontains (st_storage_configs st) source_zone
         then (sm, storage_err (SourceZoneConfigMissing source_zone))
         else if \<not> hcontains (st_storage_configs st) target_zone
         then (sm, storage_err (TargetZoneConfigMissing target_zone))
         else case hget (st_volumes st) i of
           None \<Rightarrow> (sm, storage_err (VolumeNotFound i))
         | Some vol \<Rightarrow>
             if vol_state vol = VolAvailable
             then (commit_volume c i
                     (vol\<lparr>vol_pre_migration_hypervisor := vol_attached_hypervisor_id vol,
                          vol_pre_migration_vm_id := vol_attached_vm_id vol,
                          vol_state := VolMigrating,
                          vol_migration_source_zone := Some source_zone,
                          vol_migration_target_zone := Some target_zone,
                          vol_attached_hypervisor_id := Some target_hv,
                          vol_attached_vm_id := target_vm,
                          vol_placement_generation := vol_placement_generation vol + 1\<rparr>) sm, Ok)
             else (sm, storage_err (MigrateNotAvailable i (vol_state vol))))"

definition apply_CompleteMigration ::
    "node_ctx \<Rightarrow> string \<Rightarrow> 'a storage_sm_scheme \<Rightarrow> 'a storage_sm_scheme \<times> response" where
  "apply_CompleteMigration c i sm =
     (case hget (st_volumes (sm_storage sm)) i of
        None \<Rightarrow> (sm, storage_err (VolumeNotFound i))
      | Some vol \<Rightarrow>
          if vol_state vol = VolMigrating
          then (commit_volume c i
                  (vol\<lparr>vol_state := VolAvailable, vol_migration_source_zone := None,
                       vol_migration_target_zone := None, vol_pre_migration_hypervisor := None,
                       vol_pre_migration_vm_id := None\<rparr>) sm, Ok)
          else (sm, storage_err (CompleteNotMigrating i (vol_state vol))))"

text \<open>The \<^verbatim>\<open>reason\<close> of a rollback is only logged.\<close>

definition apply_RollbackMigration ::
    "node_ctx \<Rightarrow> string \<Rightarrow> string \<Rightarrow> 'a storage_sm_scheme \<Rightarrow> 'a storage_sm_scheme \<times> response" where
  "apply_RollbackMigration c i reason sm =
     (case hget (st_volumes (sm_storage sm)) i of
        None \<Rightarrow> (sm, storage_err (VolumeNotFound i))
      | Some vol \<Rightarrow>
          if vol_state vol = VolMigrating
          then (commit_volume c i
                  (vol\<lparr>vol_attached_hypervisor_id := vol_pre_migration_hypervisor vol,
                       vol_pre_migration_hypervisor := None,
                       vol_attached_vm_id := vol_pre_migration_vm_id vol,
                       vol_pre_migration_vm_id := None,
                       vol_state := VolAvailable,
                       vol_migration_source_zone := None, vol_migration_target_zone := None\<rparr>) sm, Ok)
          else (sm, storage_err (RollbackNotMigrating i (vol_state vol))))"

definition apply_ResizeVolume ::
    "node_ctx \<Rightarrow> string \<Rightarrow> u32 \<Rightarrow> 'a storage_sm_scheme \<Rightarrow> 'a storage_sm_scheme \<times> response" where
  "apply_ResizeVolume c i new_size_gb sm =
     (let st = sm_storage sm
      in case hget (st_volumes st) i of
           None \<Rightarrow> (sm, storage_err (VolumeNotFound i))
         | Some vol \<Rightarrow>
             if vol_state vol \<noteq> VolAvailable
             then (sm, storage_err (ResizeNotAvailable i (vol_state vol)))
             else if new_size_gb \<le> vol_size_gb vol
             then (sm, storage_err (CannotShrink i (vol_size_gb vol) new_size_gb))
             else case check_resize_quota st (vol_org_id vol) (vol_project_id vol)
                         (new_size_gb - vol_size_gb vol) of
               Inl e \<Rightarrow> (sm, storage_err e)
             | Inr _ \<Rightarrow> (commit_volume c i (vol\<lparr>vol_size_gb := new_size_gb\<rparr>) sm, Ok))"

section \<open>Snapshots and manifests\<close>

definition apply_CreateSnapshot ::
    "string \<Rightarrow> string \<Rightarrow> string list \<Rightarrow> u64 \<Rightarrow> 'a storage_sm_scheme \<Rightarrow> 'a storage_sm_scheme \<times> response" where
  "apply_CreateSnapshot i source_volume_id sst_files wal_position sm =
     (let st = sm_storage sm
      in case hget (st_volumes st) source_volume_id of
           None \<Rightarrow> (sm, storage_err (SourceVolumeNotFound source_volume_id))
         | Some vol \<Rightarrow>
             case check_snapshot_quota st (vol_org_id vol) (vol_project_id vol) of
               Inl e \<Rightarrow> (sm, storage_err e)
             | Inr _ \<Rightarrow>
                 if hcontains (st_snapshots st) i then (sm, storage_err (SnapshotIdExists i))
                 else
                   let st1 = fold sst_increment sst_files st;
                       snap = \<lparr>snap_id = i, snap_source_volume_id = source_volume_id,
                               snap_sst_files = sst_files, snap_wal_position = wal_position,
                               snap_org_id = vol_org_id vol, snap_project_id = vol_project_id vol,
                               snap_size_gb = vol_size_gb vol, snap_env_id = vol_env_id vol,
                               snap_volume_type = vol_type vol, snap_state = SnapAvailable\<rparr>;
                       st2 = st1\<lparr>st_snapshots := hinsert i snap (st_snapshots st1)\<rparr>;
                       st3 = st2\<lparr>st_min_wal_position :=
                               Some (case st_min_wal_position st2 of
                                       Some existing \<Rightarrow> min existing wal_position
                                     | None \<Rightarrow> wal_position)\<rparr>
                   in (sm\<lparr>sm_storage := st3\<rparr>, Created i))"

text \<open>One SST of a deleted snapshot: an untracked file is left alone.\<close>

definition release_sst :: "string \<Rightarrow> storage_state \<Rightarrow> storage_state" where
  "release_sst k st =
     (case hget (st_sst_refcounts st) k of
        None \<Rightarrow> st
      | Some n \<Rightarrow>
          let n' = saturating_sub n 1
          in if n' = 0
             then st\<lparr>st_sst_refcounts := hremove k (st_sst_refcounts st),
                     st_pending_gc_ssts := st_pending_gc_ssts st @ [k]\<rparr>
             else st\<lparr>st_sst_refcounts := hinsert k n' (st_sst_refcounts st)\<rparr>)"

definition apply_DeleteSnapshot ::
    "string \<Rightarrow> 'a storage_sm_scheme \<Rightarrow> 'a storage_sm_scheme \<times> response" where
  "apply_DeleteSnapshot i sm =
     (let st = sm_storage sm
      in if i \<in> set (st_restores_in_progress st)
         then (sm, storage_err (DeleteRestoreInProgress i))
         else case hget (st_snapshots st) i of
           None \<Rightarrow> (sm, storage_err (SnapshotNotFound i))
         | Some s \<Rightarrow>
             if snap_state s = SnapDeleted then (sm, storage_err (SnapshotAlreadyDeleted i))
             else
               let st1 = mark_snapshot_deleted i (fold release_sst (snap_sst_files s) st);
                   st2 = st1\<lparr>st_min_wal_position := min_of (live_wal_positions st1)\<rparr>
               in (sm\<lparr>sm_storage := st2\<rparr>, Ok))"

definition last_manifest_version :: "string \<Rightarrow> storage_state \<Rightarrow> u64" where
  "last_manifest_version i st =
     (case hget (st_manifest_pointers st) i of None \<Rightarrow> 0 | Some p \<Rightarrow> mp_manifest_version p)"

definition apply_CommitManifest ::
    "string \<Rightarrow> u64 \<Rightarrow> u64 \<Rightarrow> string \<Rightarrow> string \<Rightarrow> 'a storage_sm_scheme \<Rightarrow> 'a storage_sm_scheme \<times> response" where
  "apply_CommitManifest i generation manifest_version s3_key published_by sm =
     (let st = sm_storage sm
      in case hget (st_volumes st) i of
           None \<Rightarrow> (sm, storage_err (VolumeNotFound i))
         | Some vol \<Rightarrow>
             let assigned_hv = (case vol_attached_hypervisor_id vol of Some h \<Rightarrow> h | None \<Rightarrow> []);
                 last_version = last_manifest_version i st
             in if vol_state vol \<noteq> VolAttached
                then (sm, storage_err (VolumeNotAttached i (vol_state vol)))
                else if generation \<noteq> vol_placement_generation vol
                then (sm, storage_err (GenerationMismatch i (vol_placement_generation vol) generation))
                else if published_by \<noteq> assigned_hv
                then (sm, storage_err (WrongPublisher i assigned_hv published_by))
                else if manifest_version \<noteq> last_version + 1
                then (sm, storage_err (ManifestVersionGap i (last_version + 1) manifest_version))
                else
                  (sm_storage_update
                     (\<lambda>st. st\<lparr>st_manifest_pointers :=
                        hinsert i \<lparr>mp_volume_id = i, mp_generation = generation,
                                   mp_manifest_version = manifest_version, mp_s3_key = s3_key,
                                   mp_published_by = published_by\<rparr> (st_manifest_pointers st)\<rparr>) sm,
                   Ok))"

definition apply_RestoreSnapshot ::
    "node_ctx \<Rightarrow> string \<Rightarrow> string \<Rightarrow> string \<Rightarrow> 'a storage_sm_scheme \<Rightarrow> 'a storage_sm_scheme \<times> response" where
  "apply_RestoreSnapshot c i new_volume_id new_volume_name sm =
     (let st = sm_storage sm
      in case hget (st_snapshots st) i of
           None \<Rightarrow> (sm, storage_err (SnapshotNotFound i))
         | Some snap \<Rightarrow>
             if snap_state snap = SnapDeleted then (sm, storage_err (RestoreFromDeleted i))
             else case check_volume_quota st (snap_org_id snap) (snap_project_id snap) (snap_size_gb snap) of
               Inl e \<Rightarrow> (sm, storage_err e)
             | Inr _ \<Rightarrow>
                 if volume_name_exists (snap_env_id snap) new_volume_name (snap_org_id snap)
                      (snap_project_id snap) st
                 then (sm, storage_err (VolumeNameExists new_volume_name (snap_env_id snap)))
                 else if hcontains (st_volumes st) new_volume_id
                 then (sm, storage_err (VolumeIdExists new_volume_id))
                 else
                   let st1 = fold sst_increment (snap_sst_files snap) st;
                       ptr = \<lparr>mp_volume_id = new_volume_id, mp_generation = 0,
                              mp_manifest_version = 1,
                              mp_s3_key = ''snapshots/'' @ i @ ''/manifest.json'',
                              mp_published_by = ''restore:'' @ i\<rparr>;
                       st2 = st1\<lparr>st_manifest_pointers :=
                               hinsert new_volume_id ptr (st_manifest_pointers st1)\<rparr>;
                       record = new_volume new_volume_id new_volume_name (snap_size_gb snap)
                                  (snap_org_id snap) (snap_project_id snap) (snap_env_id snap)
                                  (snap_volume_type snap) None 0 None
                   in (commit_volume c new_volume_id record (sm\<lparr>sm_storage := st2\<rparr>),
                       Created new_volume_id))"

definition apply_MarkRestoreBegin ::
    "string \<Rightarrow> 'a storage_sm_scheme \<Rightarrow> 'a storage_sm_scheme \<times> response" where
  "apply_MarkRestoreBegin i sm =
     (let st = sm_storage sm
      in if \<not> hcontains (st_snapshots st) i then (sm, storage_err (SnapshotNotFound i))
         else if i \<notin> set (st_restores_in_progress st)
         then (sm\<lparr>sm_storage := st\<lparr>st_restores_in_progress := st_restores_in_progress st @ [i]\<rparr>\<rparr>, Ok)
         else (sm, Ok))"

definition apply_MarkRestoreComplete ::
    "string \<Rightarrow> 'a storage_sm_scheme \<Rightarrow> 'a storage_sm_scheme \<times> response" where
  "apply_MarkRestoreComplete i sm =
     (sm_storage_update
        (\<lambda>st. st\<lparr>st_restores_in_progress := filter (\<lambda>j. j \<noteq> i) (st_restores_in_progress st)\<rparr>) sm, Ok)"

section \<open>Garbage collection acknowledgements\<close>

definition apply_GcCompleteSsts ::
    "string list \<Rightarrow> 'a storage_sm_scheme \<Rightarrow> 'a storage_sm_scheme \<times> response" where
  "apply_GcCompleteSsts sst_keys sm =
     (sm_storage_update
        (\<lambda>st. st\<lparr>st_pending_gc_ssts := filter (\<lambda>k. k \<notin> set sst_keys) (st_pending_gc_ssts st)\<rparr>) sm, Ok)"

definition apply_GcCompleteWalSegments ::
    "u64 \<Rightarrow> 'a storage_sm_scheme \<Rightarrow> 'a storage_sm_scheme \<times> response" where
  "apply_GcCompleteWalSegments below_position sm =
     (let st = sm_storage sm
      in if (case st_min_wal_position st of None \<Rightarrow> True | Some p \<Rightarrow> below_position > p)
         then (sm\<lparr>sm_storage := st\<lparr>st_min_wal_position := Some below_position\<rparr>\<rparr>, Ok)
         else (sm, Ok))"

section \<open>Dispatch\<close>

fun apply_storage ::
    "node_ctx \<Rightarrow> storage_command \<Rightarrow> 'a storage_sm_scheme \<Rightarrow> 'a storage_sm_scheme \<times> response" where
  "apply_storage c (CreateVolume i n sz oid pid eid ty hv z) sm =
     apply_CreateVolume c i n sz oid pid eid ty hv z sm"
| "apply_storage c (DeleteVolume i cascade t) sm = apply_DeleteVolume c i cascade t sm"
| "apply_storage c (VolumeAttach i vm h) sm = apply_VolumeAttach c i vm h sm"
| "apply_storage c (VolumeDetach i) sm = apply_VolumeDetach c i sm"
| "apply_storage c (ResizeVolume i n) sm = apply_ResizeVolume c i n sm"
| "apply_storage c (CreateSnapshot i v files w) sm = apply_CreateSnapshot i v files w sm"
| "apply_storage c (DeleteSnapshot i) sm = apply_DeleteSnapshot i sm"
| "apply_storage c (RestoreSnapshot i v n) sm = apply_RestoreSnapshot c i v n sm"
| "apply_storage c (MarkRestoreBegin i) sm = apply_MarkRestoreBegin i sm"
| "apply_storage c (MarkRestoreComplete i) sm = apply_MarkRestoreComplete i sm"
| "apply_storage c (SetStorageConfig r z cfg) sm = apply_SetStorageConfig r z cfg sm"
| "apply_storage c (SetStorageQuota sc mv mt ms) sm = apply_SetStorageQuota sc mv mt ms sm"
| "apply_storage c (PurgeTombstones now age) sm = apply_PurgeTombstones now age sm"
| "apply_storage c (RescheduleVolume i a b vm) sm = apply_RescheduleVolume c i a b vm sm"
| "apply_storage c (MigrateVolumeToZone i a b h vm) sm = apply_MigrateVolumeToZone c i a b h vm sm"
| "apply_storage c (CompleteMigration i) sm = apply_CompleteMigration c i sm"
| "apply_storage c (RollbackMigration i reason) sm = apply_RollbackMigration c i reason sm"
| "apply_storage c (CommitManifest i g n k h) sm = apply_CommitManifest i g n k h sm"
| "apply_storage c (GcCompleteSsts ks) sm = apply_GcCompleteSsts ks sm"
| "apply_storage c (GcCompleteWalSegments p) sm = apply_GcCompleteWalSegments p sm"

end
