(* ===== verification/Volume_Lifecycle.thy ===== *)
theory Volume_Lifecycle
  imports Storage_Commands
begin

text \<open>
  The life of one volume.  \<open>volume_step\<close> is the specification of what may happen to a
  volume record: the transitions that the state machine documents, with their guards.
  \<open>slot_step\<close> adds its creation and the purge of its tombstone.  The refinement theorem
  \<open>apply_storage_slots\<close> shows that every storage command moves every volume along these
  transitions; the invariant of a record and the fencing argument are then proved over the
  specification alone, by rule induction.
\<close>

section \<open>The specification\<close>

inductive volume_step :: "volume_record \<Rightarrow> volume_record \<Rightarrow> bool" where
  stay: "volume_step v v"
| attach: "vol_state v = VolAvailable \<Longrightarrow>
    volume_step v (v\<lparr>vol_state := VolAttached, vol_attached_vm_id := Some vm,
                     vol_attached_hypervisor_id := Some h,
                     vol_placement_generation := vol_placement_generation v + 1\<rparr>)"
| detach: "\<lbrakk>vol_state v = VolAttached; vol_type v \<noteq> Root\<rbrakk> \<Longrightarrow>
    volume_step v (v\<lparr>vol_state := VolAvailable, vol_attached_vm_id := None,
                     vol_attached_hypervisor_id := None\<rparr>)"
| reschedule: "\<lbrakk>vol_state v = VolAttached; vol_attached_hypervisor_id v = Some a; a \<noteq> b\<rbrakk> \<Longrightarrow>
    volume_step v (v\<lparr>vol_placement_generation := vol_placement_generation v + 1,
                     vol_attached_hypervisor_id := Some b, vol_attached_vm_id := Some vm\<rparr>)"
| follow_vm: "\<lbrakk>vol_state v = VolAttached; vol_attached_hypervisor_id v = Some a\<rbrakk> \<Longrightarrow>
    volume_step v (v\<lparr>vol_placement_generation := vol_placement_generation v + 1,
                     vol_attached_hypervisor_id := Some b\<rparr>)"
| migrate: "\<lbrakk>vol_state v = VolAvailable; src \<noteq> tgt\<rbrakk> \<Longrightarrow>
    volume_step v (v\<lparr>vol_pre_migration_hypervisor := vol_attached_hypervisor_id v,
                     vol_pre_migration_vm_id := vol_attached_vm_id v,
                     vol_state := VolMigrating,
                     vol_migration_source_zone := Some src,
                     vol_migration_target_zone := Some tgt,
                     vol_attached_hypervisor_id := Some h,
                     vol_attached_vm_id := ovm,
                     vol_placement_generation := vol_placement_generation v + 1\<rparr>)"
| complete: "vol_state v = VolMigrating \<Longrightarrow>
    volume_step v (v\<lparr>vol_state := VolAvailable, vol_migration_source_zone := None,
                     vol_migration_target_zone := None, vol_pre_migration_hypervisor := None,
                     vol_pre_migration_vm_id := None\<rparr>)"
| rollback: "vol_state v = VolMigrating \<Longrightarrow>
    volume_step v (v\<lparr>vol_attached_hypervisor_id := vol_pre_migration_hypervisor v,
                     vol_pre_migration_hypervisor := None,
                     vol_attached_vm_id := vol_pre_migration_vm_id v,
                     vol_pre_migration_vm_id := None,
                     vol_state := VolAvailable,
                     vol_migration_source_zone := None, vol_migration_target_zone := None\<rparr>)"
| resize: "\<lbrakk>vol_state v = VolAvailable; vol_size_gb v < n\<rbrakk> \<Longrightarrow> volume_step v (v\<lparr>vol_size_gb := n\<rparr>)"
| delete: "\<lbrakk>vol_state v \<noteq> VolDeleted; vol_state v = VolAttached \<longrightarrow> vol_type v = Root;
           \<not> vol_deletion_protection v\<rbrakk> \<Longrightarrow> volume_step v (tombstone t v)"

definition fresh_volume :: "string \<Rightarrow> volume_record \<Rightarrow> bool" where
  "fresh_volume i v \<longleftrightarrow>
     (\<exists>n sz oid pid eid ty hv gen z.
        v = new_volume i n sz oid pid eid ty hv gen z \<and> (hv = None \<and> gen = 0 \<or> hv \<noteq> None \<and> gen = 1))"

inductive slot_step :: "string \<Rightarrow> volume_record option \<Rightarrow> volume_record option \<Rightarrow> bool" for i where
  absent: "slot_step i None None"
| create: "fresh_volume i v \<Longrightarrow> slot_step i None (Some v)"
| change: "volume_step v v' \<Longrightarrow> slot_step i (Some v) (Some v')"
| purge: "vol_state v = VolDeleted \<Longrightarrow> slot_step i (Some v) None"

inductive_simps slot_step_simps:
  "slot_step i None (Some v)" "slot_step i (Some v) (Some v')" "slot_step i (Some v) None"

lemma slot_stay [intro, simp]: "slot_step i s s"
  by (cases s) (auto intro: slot_step.intros volume_step.intros)

lemma fresh_new_volume [intro]:
  "fresh_volume i (new_volume i n sz oid pid eid ty None 0 z)"
  "fresh_volume i (new_volume i n sz oid pid eid ty (Some h) 1 z)"
  unfolding fresh_volume_def by blast+

section \<open>The commands implement the specification\<close>

lemma commit_volume_storage [simp]:
  "sm_storage (commit_volume c i v sm) = put_volume i v (sm_storage sm)"
  by (simp add: commit_volume_def)

lemma put_volume_sel [simp]:
  "st_volumes (put_volume i v st) = hinsert i v (st_volumes st)"
  "st_snapshots (put_volume i v st) = st_snapshots st"
  "st_sst_refcounts (put_volume i v st) = st_sst_refcounts st"
  "st_quotas (put_volume i v st) = st_quotas st"
  "st_storage_configs (put_volume i v st) = st_storage_configs st"
  "st_manifest_pointers (put_volume i v st) = st_manifest_pointers st"
  "st_pending_gc_ssts (put_volume i v st) = st_pending_gc_ssts st"
  "st_restores_in_progress (put_volume i v st) = st_restores_in_progress st"
  "st_min_wal_position (put_volume i v st) = st_min_wal_position st"
  "st_vm_records (put_volume i v st) = st_vm_records st"
  by (simp_all add: put_volume_def)

lemma fold_frame: "(\<And>x s. f (g x s) = f s) \<Longrightarrow> f (fold g xs s) = f s"
  by (induction xs arbitrary: s) simp_all

lemma sst_increment_frame [simp]:
  "st_volumes (sst_increment k st) = st_volumes st"
  "st_snapshots (sst_increment k st) = st_snapshots st"
  "st_quotas (sst_increment k st) = st_quotas st"
  "st_storage_configs (sst_increment k st) = st_storage_configs st"
  "st_manifest_pointers (sst_increment k st) = st_manifest_pointers st"
  "st_pending_gc_ssts (sst_increment k st) = st_pending_gc_ssts st"
  "st_restores_in_progress (sst_increment k st) = st_restores_in_progress st"
  "st_min_wal_position (sst_increment k st) = st_min_wal_position st"
  "st_vm_records (sst_increment k st) = st_vm_records st"
  by (simp_all add: sst_increment_def)

lemmas fold_increment_frame [simp] = sst_increment_frame [THEN fold_frame [where g = sst_increment]]

lemma release_sst_frame [simp]:
  "st_volumes (release_sst k st) = st_volumes st"
  "st_snapshots (release_sst k st) = st_snapshots st"
  "st_quotas (release_sst k st) = st_quotas st"
  "st_storage_configs (release_sst k st) = st_storage_configs st"
  "st_manifest_pointers (release_sst k st) = st_manifest_pointers st"
  "st_restores_in_progress (release_sst k st) = st_restores_in_progress st"
  "st_min_wal_position (release_sst k st) = st_min_wal_position st"
  "st_vm_records (release_sst k st) = st_vm_records st"
  by (simp_all add: release_sst_def Let_def split: option.splits)

lemmas fold_release_frame [simp] = release_sst_frame [THEN fold_frame [where g = release_sst]]

lemma cascade_release_frame [simp]:
  "st_volumes (cascade_release_sst k st) = st_volumes st"
  "st_snapshots (cascade_release_sst k st) = st_snapshots st"
  "st_quotas (cascade_release_sst k st) = st_quotas st"
  "st_storage_configs (cascade_release_sst k st) = st_storage_configs st"
  "st_manifest_pointers (cascade_release_sst k st) = st_manifest_pointers st"
  "st_restores_in_progress (cascade_release_sst k st) = st_restores_in_progress st"
  "st_min_wal_position (cascade_release_sst k st) = st_min_wal_position st"
  "st_vm_records (cascade_release_sst k st) = st_vm_records st"
  by (simp_all add: cascade_release_sst_def Let_def)

lemmas fold_cascade_release_frame [simp] =
  cascade_release_frame [THEN fold_frame [where g = cascade_release_sst]]

lemma mark_deleted_frame [simp]:
  "st_volumes (mark_snapshot_deleted i st) = st_volumes st"
  "st_quotas (mark_snapshot_deleted i st) = st_quotas st"
  "st_storage_configs (mark_snapshot_deleted i st) = st_storage_configs st"
  "st_sst_refcounts (mark_snapshot_deleted i st) = st_sst_refcounts st"
  "st_manifest_pointers (mark_snapshot_deleted i st) = st_manifest_pointers st"
  "st_restores_in_progress (mark_snapshot_deleted i st) = st_restores_in_progress st"
  "st_pending_gc_ssts (mark_snapshot_deleted i st) = st_pending_gc_ssts st"
  "st_min_wal_position (mark_snapshot_deleted i st) = st_min_wal_position st"
  "st_vm_records (mark_snapshot_deleted i st) = st_vm_records st"
  by (simp_all add: mark_snapshot_deleted_def split: option.splits)

lemma cascade_frame [simp]:
  "st_volumes (cascade_delete_snapshots ids st) = st_volumes st"
  "st_quotas (cascade_delete_snapshots ids st) = st_quotas st"
  "st_storage_configs (cascade_delete_snapshots ids st) = st_storage_configs st"
  "st_manifest_pointers (cascade_delete_snapshots ids st) = st_manifest_pointers st"
  "st_restores_in_progress (cascade_delete_snapshots ids st) = st_restores_in_progress st"
  "st_vm_records (cascade_delete_snapshots ids st) = st_vm_records st"
  by (simp_all add: cascade_delete_snapshots_def Let_def fold_frame case_prod_beta)

lemma sync_deletes_storage [simp]: "sm_storage (fold sync_volume_delete_from_store is sm) = sm_storage sm"
  by (rule fold_frame) simp

lemmas handler_defs = apply_SetStorageQuota_def apply_SetStorageConfig_def apply_PurgeTombstones_def
  apply_CreateVolume_def apply_DeleteVolume_def apply_VolumeAttach_def apply_VolumeDetach_def
  apply_RescheduleVolume_def apply_MigrateVolumeToZone_def apply_CompleteMigration_def
  apply_RollbackMigration_def apply_ResizeVolume_def apply_CreateSnapshot_def
  apply_DeleteSnapshot_def apply_CommitManifest_def apply_RestoreSnapshot_def
  apply_MarkRestoreBegin_def apply_MarkRestoreComplete_def apply_GcCompleteSsts_def
  apply_GcCompleteWalSegments_def

lemma purge_ids_iff:
  "hm_wf (st_volumes st) \<Longrightarrow>
   i \<in> set (purge_ids now age st) \<longleftrightarrow>
     (\<exists>v. hget (st_volumes st) i = Some v \<and> tombstone_expired now age v)"
  by (force simp: purge_ids_def image_iff hm.in_entries_iff [symmetric])

lemma slots_purge:
  assumes "hm_wf (st_volumes st)"
  shows "slot_step j (hget (st_volumes st) j)
           (hget (fold hremove (purge_ids now age st) (st_volumes st)) j)"
  using assms by (auto simp: hget_fold_hremove purge_ids_iff tombstone_expired_def
                       intro: slot_step.purge)

definition is_purge :: "storage_command \<Rightarrow> bool" where
  "is_purge cmd \<longleftrightarrow> (case cmd of PurgeTombstones _ _ \<Rightarrow> True | _ \<Rightarrow> False)"

lemma apply_storage_slots:
  assumes wf: "is_purge cmd \<longrightarrow> hm_wf (st_volumes (sm_storage sm))"
  shows "slot_step j (hget (st_volumes (sm_storage sm)) j)
           (hget (st_volumes (sm_storage (fst (apply_storage c cmd sm)))) j)"
proof (cases cmd)
  case (CreateVolume i n sz oid pid eid ty hv z)
  then show ?thesis
    by (auto simp: apply_CreateVolume_def Let_def
             intro!: slot_step.create split: sum.splits option.splits)
next
  case (RestoreSnapshot i v n)
  then show ?thesis
    by (auto simp: apply_RestoreSnapshot_def Let_def
             intro!: slot_step.create split: sum.splits option.splits)
next
  case (PurgeTombstones now age)
  then show ?thesis using slots_purge wf by (simp add: apply_PurgeTombstones_def Let_def is_purge_def)
next
  case (DeleteVolume i cascade t)
  then show ?thesis
    by (auto simp: apply_DeleteVolume_def Let_def split: option.splits
             intro!: slot_step.change volume_step.delete)
next
  case (VolumeAttach i vm h)
  then show ?thesis
    by (auto simp: apply_VolumeAttach_def split: option.splits
             intro!: slot_step.change volume_step.attach)
next
  case (VolumeDetach i)
  then show ?thesis
    by (auto simp: apply_VolumeDetach_def split: option.splits
             intro!: slot_step.change volume_step.detach)
next
  case (ResizeVolume i n)
  then show ?thesis
    by (auto simp: apply_ResizeVolume_def Let_def not_le split: option.splits sum.splits
             intro!: slot_step.change volume_step.resize)
next
  case (RescheduleVolume i a b vm)
  then show ?thesis
    by (auto simp: apply_RescheduleVolume_def split: option.splits
             intro!: slot_step.change volume_step.reschedule)
next
  case (MigrateVolumeToZone i a b h vm)
  then show ?thesis
    by (auto simp: apply_MigrateVolumeToZone_def Let_def split: option.splits
             intro!: slot_step.change volume_step.migrate)
next
  case (CompleteMigration i)
  then show ?thesis
    by (auto simp: apply_CompleteMigration_def split: option.splits
             intro!: slot_step.change volume_step.complete)
next
  case (RollbackMigration i r)
  then show ?thesis
    by (auto simp: apply_RollbackMigration_def split: option.splits
             intro!: slot_step.change volume_step.rollback)
qed (auto simp: handler_defs Let_def split: option.splits sum.splits)

lemma apply_storage_keeps:
  assumes "\<not> is_purge cmd" "hget (st_volumes (sm_storage sm)) i \<noteq> None"
  shows "hget (st_volumes (sm_storage (fst (apply_storage c cmd sm)))) i \<noteq> None"
  using assms
  by (cases cmd)
     (simp_all add: is_purge_def handler_defs Let_def del: not_None_eq split: option.split sum.split)

lemma apply_storage_evolves:
  assumes "\<not> is_purge cmd" "hget (st_volumes (sm_storage sm)) i = Some v"
  obtains v' where "hget (st_volumes (sm_storage (fst (apply_storage c cmd sm)))) i = Some v'"
    "volume_step v v'"
  using assms apply_storage_keeps [OF assms(1), of sm i c] apply_storage_slots [of cmd sm i c]
  by (auto simp: slot_step_simps)

section \<open>Commands that create a volume\<close>

lemma volume_name_exists_iff:
  "hm_wf (st_volumes st) \<Longrightarrow>
   volume_name_exists eid n oid pid st \<longleftrightarrow>
     (\<exists>i v. hget (st_volumes st) i = Some v \<and> vol_env_id v = eid \<and> vol_name v = n \<and>
            vol_org_id v = oid \<and> vol_project_id v = pid)"
  by (force simp: volume_name_exists_def list_ex_iff hm.in_entries_iff [symmetric])

definition creates_volume :: "storage_command \<Rightarrow> bool" where
  "creates_volume cmd \<longleftrightarrow>
     (case cmd of CreateVolume _ _ _ _ _ _ _ _ _ \<Rightarrow> True | RestoreSnapshot _ _ _ \<Rightarrow> True | _ \<Rightarrow> False)"

lemma apply_storage_no_create:
  assumes "\<not> creates_volume cmd" "hget (st_volumes (sm_storage sm)) i = None"
  shows "hget (st_volumes (sm_storage (fst (apply_storage c cmd sm)))) i = None"
  using assms
  by (cases cmd) (auto simp: creates_volume_def handler_defs Let_def hget_fold_hremove
                    split: option.splits sum.splits)

lemma apply_storage_creates:
  assumes "hget (st_volumes (sm_storage sm)) i = None"
    "hget (st_volumes (sm_storage (fst (apply_storage c cmd sm)))) i = Some v"
  shows "\<not> volume_name_exists (vol_env_id v) (vol_name v) (vol_org_id v) (vol_project_id v) (sm_storage sm)"
    "check_volume_quota (sm_storage sm) (vol_org_id v) (vol_project_id v) (vol_size_gb v) = Inr ()"
    "st_volumes (sm_storage (fst (apply_storage c cmd sm))) = hinsert i v (st_volumes (sm_storage sm))"
proof -
  let ?st' = "sm_storage (fst (apply_storage c cmd sm))"
  have "\<not> volume_name_exists (vol_env_id v) (vol_name v) (vol_org_id v) (vol_project_id v) (sm_storage sm) \<and>
    check_volume_quota (sm_storage sm) (vol_org_id v) (vol_project_id v) (vol_size_gb v) = Inr () \<and>
    st_volumes ?st' = hinsert i v (st_volumes (sm_storage sm))"
  proof (cases cmd)
    case (CreateVolume j n sz oid pid eid ty hv z)
    then show ?thesis using assms
      by (auto simp: apply_CreateVolume_def Let_def new_volume_def
               split: sum.splits option.splits if_splits)
  next
    case (RestoreSnapshot s j n)
    then show ?thesis using assms
      by (auto simp: apply_RestoreSnapshot_def Let_def new_volume_def
               split: sum.splits option.splits if_splits)
  qed (use assms apply_storage_no_create [of cmd sm i c] in \<open>simp_all add: creates_volume_def\<close>)
  then show "\<not> volume_name_exists (vol_env_id v) (vol_name v) (vol_org_id v) (vol_project_id v) (sm_storage sm)"
    "check_volume_quota (sm_storage sm) (vol_org_id v) (vol_project_id v) (vol_size_gb v) = Inr ()"
    "st_volumes ?st' = hinsert i v (st_volumes (sm_storage sm))"
    by blast+
qed

lemma hm_wf_mark_deleted [simp]:
  "hm_wf (st_snapshots st) \<Longrightarrow> hm_wf (st_snapshots (mark_snapshot_deleted i st))"
  by (simp add: mark_snapshot_deleted_def split: option.splits)

lemma hm_wf_volumes_apply:
  "hm_wf (st_volumes (sm_storage sm)) \<Longrightarrow> hm_wf (st_volumes (sm_storage (fst (apply_storage c cmd sm))))"
  by (cases cmd) (auto simp: handler_defs Let_def hm_wf_fold_hremove split: sum.splits option.splits)

section \<open>How a command changes the volume map\<close>

inductive volumes_change :: "storage_state \<Rightarrow> (string, volume_record) hmap \<Rightarrow> bool" for st where
  same: "volumes_change st (st_volumes st)"
| update: "\<lbrakk>hget (st_volumes st) i = Some v; volume_step v v'; vol_size_gb v' = vol_size_gb v\<rbrakk>
    \<Longrightarrow> volumes_change st (hinsert i v' (st_volumes st))"
| resize: "\<lbrakk>hget (st_volumes st) i = Some v; vol_state v = VolAvailable; vol_size_gb v < n;
      check_resize_quota st (vol_org_id v) (vol_project_id v) (n - vol_size_gb v) = Inr ()\<rbrakk>
    \<Longrightarrow> volumes_change st (hinsert i (v\<lparr>vol_size_gb := n\<rparr>) (st_volumes st))"
| create: "\<lbrakk>hget (st_volumes st) i = None; fresh_volume i v;
      check_volume_quota st (vol_org_id v) (vol_project_id v) (vol_size_gb v) = Inr ()\<rbrakk>
    \<Longrightarrow> volumes_change st (hinsert i v (st_volumes st))"
| purge: "volumes_change st (fold hremove (purge_ids now age st) (st_volumes st))"

lemma tombstone_size [simp]: "vol_size_gb (tombstone t v) = vol_size_gb v"
  by (simp add: tombstone_def)

lemma new_volume_sel [simp]:
  "vol_org_id (new_volume i n sz oid pid eid ty hv gen z) = oid"
  "vol_project_id (new_volume i n sz oid pid eid ty hv gen z) = pid"
  "vol_env_id (new_volume i n sz oid pid eid ty hv gen z) = eid"
  "vol_name (new_volume i n sz oid pid eid ty hv gen z) = n"
  "vol_size_gb (new_volume i n sz oid pid eid ty hv gen z) = sz"
  "vol_state (new_volume i n sz oid pid eid ty hv gen z) = VolAvailable"
  "vol_id (new_volume i n sz oid pid eid ty hv gen z) = i"
  "vol_attached_hypervisor_id (new_volume i n sz oid pid eid ty hv gen z) = hv"
  by (simp_all add: new_volume_def)

lemma apply_storage_volumes:
  "volumes_change (sm_storage sm) (st_volumes (sm_storage (fst (apply_storage c cmd sm))))"
proof (cases cmd)
  case (CreateVolume i n sz oid pid eid ty hv z)
  then show ?thesis
    by (auto simp: apply_CreateVolume_def Let_def intro!: volumes_change.intros(1,4)
             split: option.splits sum.splits)
next
  case (RestoreSnapshot s i n)
  then show ?thesis
    by (auto simp: apply_RestoreSnapshot_def Let_def intro!: volumes_change.intros(1,4)
             split: option.splits sum.splits)
next
  case (DeleteVolume i cascade t)
  then show ?thesis
    by (auto simp: apply_DeleteVolume_def Let_def split: option.splits
             intro: volumes_change.intros(1,2) volume_step.delete)
next
  case (VolumeAttach i vm h)
  then show ?thesis
    by (auto simp: apply_VolumeAttach_def split: option.splits
             intro: volumes_change.intros(1,2) volume_step.attach)
next
  case (VolumeDetach i)
  then show ?thesis
    by (auto simp: apply_VolumeDetach_def split: option.splits
             intro: volumes_change.intros(1,2) volume_step.detach)
next
  case (RescheduleVolume i a b vm)
  then show ?thesis
    by (auto simp: apply_RescheduleVolume_def split: option.splits
             intro: volumes_change.intros(1,2) volume_step.reschedule)
next
  case (MigrateVolumeToZone i a b h vm)
  then show ?thesis
    by (auto simp: apply_MigrateVolumeToZone_def Let_def split: option.splits
             intro: volumes_change.intros(1,2) volume_step.migrate)
next
  case (CompleteMigration i)
  then show ?thesis
    by (auto simp: apply_CompleteMigration_def split: option.splits
             intro: volumes_change.intros(1,2) volume_step.complete)
next
  case (RollbackMigration i r)
  then show ?thesis
    by (auto simp: apply_RollbackMigration_def split: option.splits
             intro: volumes_change.intros(1,2) volume_step.rollback)
next
  case (ResizeVolume i n)
  then show ?thesis
    by (auto simp: apply_ResizeVolume_def Let_def not_le split: option.splits sum.splits
             intro: volumes_change.intros(1,3))
next
  case (PurgeTombstones now age)
  then show ?thesis by (auto simp: apply_PurgeTombstones_def Let_def intro: volumes_change.purge)
qed (auto simp: handler_defs Let_def volumes_change.same split: option.splits sum.splits)

end
