(* ===== verification/Volume_Fencing.thy ===== *)
theory Volume_Fencing
  imports Volume_Lifecycle
begin

text \<open>
  Two consequences of the volume specification.

  First, the well-formedness of a volume record: which optional fields are set in which
  state.  Second, the fencing relation: along the life of a volume the placement generation
  never decreases, and a generation is held by at most one attachment, that is, by one
  hypervisor and one VM.  The locale \<open>volume_machine\<close> is the contract under which a state
  machine inherits the fencing relation for whole logs; it is instantiated with the storage
  commands here and with the complete command language in \<open>Manifest_Fencing\<close>.
\<close>

section \<open>Well-formed records\<close>

definition volume_ok :: "string \<Rightarrow> volume_record \<Rightarrow> bool" where
  "volume_ok i v \<longleftrightarrow>
     vol_id v = i \<and>
     (vol_attached_vm_id v \<noteq> None \<longrightarrow> vol_attached_hypervisor_id v \<noteq> None) \<and>
     (vol_pre_migration_vm_id v \<noteq> None \<longrightarrow> vol_pre_migration_hypervisor v \<noteq> None) \<and>
     (case vol_state v of
        VolAvailable \<Rightarrow> vol_deleted_at v = None \<and>
          vol_migration_source_zone v = None \<and> vol_migration_target_zone v = None \<and>
          vol_pre_migration_hypervisor v = None
      | VolAttached \<Rightarrow> vol_deleted_at v = None \<and> vol_attached_vm_id v \<noteq> None \<and>
          vol_migration_source_zone v = None \<and> vol_migration_target_zone v = None \<and>
          vol_pre_migration_hypervisor v = None
      | VolMigrating \<Rightarrow> vol_deleted_at v = None \<and> vol_attached_hypervisor_id v \<noteq> None \<and>
          vol_migration_source_zone v \<noteq> None \<and> vol_migration_target_zone v \<noteq> None \<and>
          vol_migration_source_zone v \<noteq> vol_migration_target_zone v
      | VolDeleted \<Rightarrow> vol_deleted_at v \<noteq> None \<and> vol_attached_hypervisor_id v = None)"

lemma fresh_volume_ok: "fresh_volume i v \<Longrightarrow> volume_ok i v"
  by (auto simp: fresh_volume_def volume_ok_def new_volume_def)

lemma volume_step_ok: "\<lbrakk>volume_step v v'; volume_ok i v\<rbrakk> \<Longrightarrow> volume_ok i v'"
  by (induction rule: volume_step.induct)
     (auto simp: volume_ok_def tombstone_def split: volume_state.splits)

lemma slot_step_ok:
  "\<lbrakk>slot_step i s s'; \<And>v. s = Some v \<Longrightarrow> volume_ok i v; s' = Some w\<rbrakk> \<Longrightarrow> volume_ok i w"
  by (induction rule: slot_step.induct) (auto intro: fresh_volume_ok volume_step_ok)

lemma volume_step_identity:
  "volume_step v v' \<Longrightarrow>
     vol_id v' = vol_id v \<and> vol_name v' = vol_name v \<and> vol_org_id v' = vol_org_id v \<and>
     vol_project_id v' = vol_project_id v \<and> vol_env_id v' = vol_env_id v \<and> vol_type v' = vol_type v \<and>
     vol_zone v' = vol_zone v \<and> vol_size_gb v \<le> vol_size_gb v'"
  by (induction rule: volume_step.induct) (auto simp: tombstone_def)

lemma volume_step_deleted: "\<lbrakk>volume_step v v'; vol_state v = VolDeleted\<rbrakk> \<Longrightarrow> v' = v"
  by (induction rule: volume_step.induct) auto

section \<open>Fencing\<close>

definition fences :: "volume_record \<Rightarrow> volume_record \<Rightarrow> bool" where
  "fences v v' \<longleftrightarrow>
     vol_placement_generation v < vol_placement_generation v' \<or>
     vol_placement_generation v = vol_placement_generation v' \<and>
       (vol_state v' = VolAttached \<longrightarrow>
          vol_state v = VolAttached \<and>
          vol_attached_hypervisor_id v' = vol_attached_hypervisor_id v \<and>
          vol_attached_vm_id v' = vol_attached_vm_id v)"

lemma fences_refl [simp]: "fences v v"
  by (simp add: fences_def)

lemma fences_trans: "\<lbrakk>fences u v; fences v w\<rbrakk> \<Longrightarrow> fences u w"
  unfolding fences_def by (auto intro: less_trans)

lemma less_Suc_u64:
  assumes "unat (g :: u64) + 1 < 2 ^ 64"
  shows "g < g + 1" "unat (g + 1) = Suc (unat g)"
proof -
  have "unat (- 1 :: u64) + 1 = 2 ^ 64" by (simp add: unsigned_minus_1_eq_mask mask_eq_exp_minus_1)
  with assms have "g \<noteq> - 1" by auto
  then show "unat (g + 1) = Suc (unat g)" by (rule unat_Suc_u64)
  then show "g < g + 1" by (simp add: word_less_nat_alt)
qed

lemma volume_step_fences:
  assumes "volume_step v v'" "unat (vol_placement_generation v) + 1 < 2 ^ 64"
  shows "fences v v' \<and> unat (vol_placement_generation v') \<le> unat (vol_placement_generation v) + 1"
  using assms(1) less_Suc_u64 [OF assms(2)]
  by (cases rule: volume_step.cases) (auto simp: fences_def tombstone_def)

lemma volume_steps_fences:
  assumes "(volume_step ^^ n) v v'" "unat (vol_placement_generation v) + n < 2 ^ 64"
  shows "fences v v' \<and> unat (vol_placement_generation v') \<le> unat (vol_placement_generation v) + n"
  using assms
proof (induction n arbitrary: v')
  case (Suc n)
  then obtain u where u: "(volume_step ^^ n) v u" "volume_step u v'" by auto
  with Suc have "fences v u" "unat (vol_placement_generation u) \<le> unat (vol_placement_generation v) + n"
    by simp_all
  moreover from this Suc.prems have "unat (vol_placement_generation u) + 1 < 2 ^ 64" by simp
  ultimately show ?case
    using volume_step_fences [OF u(2)] fences_trans [of v u v'] by auto
qed simp

lemma volume_steps_stay:
  assumes "(volume_step ^^ m) v v'" "m \<le> n"
  shows "(volume_step ^^ n) v v'"
proof -
  have "(volume_step ^^ k) v' v'" for k
    by (induction k) (auto intro: volume_step.stay)
  with assms(1) have "(volume_step ^^ (m + (n - m))) v v'"
    unfolding relpowp_add by blast
  with assms(2) show ?thesis by simp
qed

text \<open>
  The contract: on a state that satisfies the machine's invariant, a command of weight \<open>n\<close>
  that keeps the volumes moves each of them along at most \<open>n\<close> transitions of the
  specification.
\<close>

locale volume_machine =
  fixes exec :: "'c \<Rightarrow> 's \<Rightarrow> 's"
    and slot :: "'s \<Rightarrow> string \<Rightarrow> volume_record option"
    and inv :: "'s \<Rightarrow> bool"
    and keeps :: "'c \<Rightarrow> bool"
    and weight :: "'c \<Rightarrow> nat"
  assumes inv_exec: "inv s \<Longrightarrow> inv (exec c s)"
    and evolves: "\<lbrakk>inv s; keeps c; slot s i = Some v\<rbrakk>
      \<Longrightarrow> \<exists>v'. slot (exec c s) i = Some v' \<and> (volume_step ^^ weight c) v v'"
begin

lemma log_inv: "inv s \<Longrightarrow> inv (fold exec cs s)"
  by (induction cs arbitrary: s) (simp_all add: inv_exec)

lemma log_evolves:
  "\<lbrakk>inv s; list_all keeps cs; slot s i = Some v\<rbrakk>
   \<Longrightarrow> \<exists>v'. slot (fold exec cs s) i = Some v' \<and> (volume_step ^^ sum_list (map weight cs)) v v'"
proof (induction cs arbitrary: s v)
  case (Cons c cs)
  from Cons.prems obtain u where u: "slot (exec c s) i = Some u" "(volume_step ^^ weight c) v u"
    using evolves [of s c i v] by auto
  from Cons.IH [OF inv_exec [OF Cons.prems(1)] _ u(1)] Cons.prems obtain v' where
    "slot (fold exec cs (exec c s)) i = Some v'" "(volume_step ^^ sum_list (map weight cs)) u v'"
    by auto
  with u(2) show ?case by (auto simp: relpowp_add)
qed (auto intro: volume_step.stay)

lemma log_fences:
  assumes "inv s" "list_all keeps cs" "slot s i = Some v"
    "unat (vol_placement_generation v) + sum_list (map weight cs) < 2 ^ 64"
  obtains v' where "slot (fold exec cs s) i = Some v'" "fences v v'"
  using log_evolves [OF assms(1-3)] volume_steps_fences [OF _ assms(4)] by blast

end

abbreviation volume_at :: "'a storage_sm_scheme \<Rightarrow> string \<Rightarrow> volume_record option" where
  "volume_at sm i \<equiv> hget (st_volumes (sm_storage sm)) i"

abbreviation exec_storage :: "node_ctx \<times> storage_command \<Rightarrow> 'a storage_sm_scheme \<Rightarrow> 'a storage_sm_scheme" where
  "exec_storage x sm \<equiv> fst (apply_storage (fst x) (snd x) sm)"

interpretation vstore: volume_machine exec_storage volume_at "\<lambda>_. True" "\<lambda>x. \<not> is_purge (snd x)" "\<lambda>_. 1"
proof
  show "\<exists>v'. volume_at (exec_storage x sm) i = Some v' \<and> (volume_step ^^ 1) v v'"
    if "\<not> is_purge (snd x)" "volume_at sm i = Some v" for x and sm :: "'a storage_sm_scheme" and i v
    by (rule apply_storage_evolves [OF that, of "fst x"]) (simp add: relcompp_apply)
qed simp

section \<open>The invariant of the volume map\<close>

definition same_name :: "volume_record \<Rightarrow> volume_record \<Rightarrow> bool" where
  "same_name v w \<longleftrightarrow>
     vol_name v = vol_name w \<and> vol_env_id v = vol_env_id w \<and> vol_org_id v = vol_org_id w \<and>
     vol_project_id v = vol_project_id w"

definition names_unique :: "(string \<Rightarrow> volume_record option) \<Rightarrow> bool" where
  "names_unique m \<longleftrightarrow> (\<forall>i v j w. m i = Some v \<longrightarrow> m j = Some w \<longrightarrow> same_name v w \<longrightarrow> i = j)"

definition volumes_ok :: "storage_state \<Rightarrow> bool" where
  "volumes_ok st \<longleftrightarrow>
     hm_wf (st_volumes st) \<and> (\<forall>i v. hget (st_volumes st) i = Some v \<longrightarrow> volume_ok i v) \<and>
     names_unique (hget (st_volumes st))"

lemma volumes_ok_empty [simp]: "volumes_ok empty_storage_state"
  by (simp add: volumes_ok_def empty_storage_state_def names_unique_def)

lemma names_uniqueD: "\<lbrakk>names_unique m; m i = Some v; m j = Some w; same_name v w\<rbrakk> \<Longrightarrow> i = j"
  by (simp only: names_unique_def)

lemma volumes_okD:
  "volumes_ok st \<Longrightarrow> hm_wf (st_volumes st)"
  "\<lbrakk>volumes_ok st; hget (st_volumes st) i = Some v\<rbrakk> \<Longrightarrow> volume_ok i v"
  "volumes_ok st \<Longrightarrow> names_unique (hget (st_volumes st))"
  by (simp_all add: volumes_ok_def)

lemma volume_origin:
  assumes "hm_wf (st_volumes (sm_storage sm))" "volume_at (exec_storage x sm) i = Some v'"
    "volume_at sm i \<noteq> None"
  obtains v where "volume_at sm i = Some v" "volume_step v v'"
  using apply_storage_slots [of "snd x" sm i "fst x"] assms
  by (cases "volume_at sm i") (simp_all add: slot_step_simps)

lemma same_name_step: "\<lbrakk>volume_step a v; volume_step b w; same_name v w\<rbrakk> \<Longrightarrow> same_name a b"
  using volume_step_identity [of a v] volume_step_identity [of b w] by (simp add: same_name_def)

lemma same_name_sym: "same_name v w \<Longrightarrow> same_name w v"
  by (simp add: same_name_def)

lemma created_name_fresh:
  assumes wf: "hm_wf (st_volumes (sm_storage sm))"
    and new: "volume_at sm k = None" "volume_at (exec_storage x sm) k = Some a"
    and other: "volume_at (exec_storage x sm) l = Some b" "same_name a b"
  shows "k = l"
proof (rule ccontr)
  assume "k \<noteq> l"
  then have "volume_at sm l = Some b"
    using other(1) apply_storage_creates(3) [OF new] by simp
  then show False
    using apply_storage_creates(1) [OF new] other(2) wf
    by (auto simp: volume_name_exists_iff same_name_def)
qed

lemma names_unique_step:
  assumes wf: "hm_wf (st_volumes (sm_storage sm))" and names: "names_unique (volume_at sm)"
  shows "names_unique (volume_at (exec_storage x sm))"
  unfolding names_unique_def
proof (intro allI impI)
  fix i v j w
  assume v: "volume_at (exec_storage x sm) i = Some v" and w: "volume_at (exec_storage x sm) j = Some w"
    and same: "same_name v w"
  show "i = j"
  proof (cases "volume_at sm i = None \<or> volume_at sm j = None")
    case True
    then show ?thesis
      using created_name_fresh [OF wf _ v w same] created_name_fresh [OF wf _ w v same_name_sym [OF same]]
      by metis
  next
    case False
    then obtain a b where ab: "volume_at sm i = Some a" "volume_step a v"
        "volume_at sm j = Some b" "volume_step b w"
      using volume_origin [OF wf v] volume_origin [OF wf w] by metis
    show ?thesis
      by (rule names_uniqueD [OF names ab(1,3) same_name_step [OF ab(2,4) same]])
  qed
qed

lemma volumes_ok_step:
  assumes ok: "volumes_ok (sm_storage sm)"
  shows "volumes_ok (sm_storage (exec_storage x sm))"
proof -
  note wf = volumes_okD(1) [OF ok]
  have "volume_ok i v" if "volume_at (exec_storage x sm) i = Some v" for i v
    by (rule slot_step_ok [OF apply_storage_slots [of "snd x" sm i "fst x"] _ that])
       (use wf volumes_okD(2) [OF ok] in simp_all)
  then show ?thesis
    unfolding volumes_ok_def
    using hm_wf_volumes_apply [OF wf] names_unique_step [OF wf volumes_okD(3) [OF ok]] by blast
qed

end
