(* ===== verification/Quota_Enforcement.thy ===== *)
theory Quota_Enforcement
  imports Volume_Fencing
begin

text \<open>
  The quotas hold: as long as a quota governs a scope, no storage command other than a
  change of quotas lets the live volumes or snapshots of the scope exceed it.  The usage
  that the checks compute is 64-bit arithmetic; under the quota's own bound on the number
  of volumes it is exact, so no overflow hypothesis is needed.

  A quota governs a project scope when the project has one.  It governs an organization
  scope when no project of the organization has its own: the code consults the
  organization's quota only for projects without one.
\<close>

definition governs :: "storage_state \<Rightarrow> quota_scope \<Rightarrow> storage_quota \<Rightarrow> bool" where
  "governs st sc q \<longleftrightarrow>
     hget (st_quotas st) (quota_key sc) = Some q \<and>
     (case sc of
        ScopeOrg oid \<Rightarrow> (\<forall>pid. hget (st_quotas st) (quota_key (ScopeProject oid pid)) = None)
      | ScopeProject oid pid \<Rightarrow> True)"

definition within_quota :: "storage_state \<Rightarrow> quota_scope \<Rightarrow> storage_quota \<Rightarrow> bool" where
  "within_quota st sc q \<longleftrightarrow>
     scope_count (st_volumes st) sc \<le> unat (q_max_volumes q) \<and>
     scope_gb (st_volumes st) sc \<le> unat (q_max_total_gb q) \<and>
     scope_snapshots (st_snapshots st) sc \<le> unat (q_max_snapshots q)"

lemma governs_effective:
  assumes "governs st sc q" "volume_in_scope sc v"
  shows "effective_quota_from st (vol_org_id v) (vol_project_id v) = Some q"
    and "effective_quota_scope_from st (vol_org_id v) (vol_project_id v) = sc"
  using assms
  by (cases sc; force simp: governs_def effective_quota_from_def effective_quota_scope_from_def
        simp del: quota_key.simps split: option.splits)+

lemma governs_effective_snapshot:
  assumes "governs st sc q"
    and "snapshot_in_scope sc s"
  shows "effective_quota_from st (snap_org_id s) (snap_project_id s) = Some q"
    and "effective_quota_scope_from st (snap_org_id s) (snap_project_id s) = sc"
  using assms
  by (cases sc; force simp: governs_def effective_quota_from_def effective_quota_scope_from_def
        simp del: quota_key.simps split: option.splits)+

section \<open>Usage under updates of the volume map\<close>

lemma scope_put_new:
  assumes "hm_wf m" "hget m i = None"
  shows "scope_count (hinsert i v m) sc = scope_count m sc + (if vol_live_in sc v then 1 else 0)"
    and "scope_gb (hinsert i v m) sc = scope_gb m sc + (if vol_live_in sc v then unat (vol_size_gb v) else 0)"
  using hm.sum_entries_put_new [OF assms, of "\<lambda>(_, v). if vol_live_in sc v then 1 else (0::nat)"]
    hm.sum_entries_put_new [OF assms, of "\<lambda>(_, v). if vol_live_in sc v then unat (vol_size_gb v) else 0"]
  by (simp_all add: scope_count_def scope_gb_def)

lemma scope_put_upd:
  assumes "hm_wf m" "hget m i = Some w"
  shows "scope_count (hinsert i v m) sc + (if vol_live_in sc w then 1 else 0)
           = scope_count m sc + (if vol_live_in sc v then 1 else 0)"
    and "scope_gb (hinsert i v m) sc + (if vol_live_in sc w then unat (vol_size_gb w) else 0)
           = scope_gb m sc + (if vol_live_in sc v then unat (vol_size_gb v) else 0)"
  using hm.sum_entries_put_upd [OF assms, of "\<lambda>(_, v). if vol_live_in sc v then 1 else (0::nat)"]
    hm.sum_entries_put_upd [OF assms, of "\<lambda>(_, v). if vol_live_in sc v then unat (vol_size_gb v) else 0"]
  by (simp_all add: scope_count_def scope_gb_def)

lemma sum_list_delete_le:
  "sum_list (map f (hremove k m)) \<le> (sum_list (map f m) :: nat)"
  by (induction m) (auto simp: AList.delete_eq)

lemma scope_delete_le:
  "scope_count (fold hremove ks m) sc \<le> scope_count m sc"
  "scope_gb (fold hremove ks m) sc \<le> scope_gb m sc"
  unfolding scope_count_def scope_gb_def
  by (induction ks arbitrary: m; simp; meson sum_list_delete_le order_trans)+

lemma volume_step_live:
  "\<lbrakk>volume_step v v'; vol_live_in sc v'\<rbrakk> \<Longrightarrow> vol_live_in sc v"
  using volume_step_identity [of v v'] volume_step_deleted [of v v']
  by (cases sc) (auto simp: vol_live_in_def)

section \<open>The volume limits\<close>

lemma check_volume_quota_admits:
  assumes gov: "governs st sc q" "volume_in_scope sc v"
    and ok: "check_volume_quota st (vol_org_id v) (vol_project_id v) n = Inr ()"
    and bound: "scope_count (st_volumes st) sc \<le> unat (q_max_volumes q)"
  shows "scope_count (st_volumes st) sc < unat (q_max_volumes q)"
    and "scope_gb (st_volumes st) sc + unat n \<le> unat (q_max_total_gb q)"
proof -
  have small: "scope_count (st_volumes st) sc < 2 ^ 32"
    using bound unat_u32_bound [of "q_max_volumes q"] by linarith
  show "scope_count (st_volumes st) sc < unat (q_max_volumes q)"
    using ok compute_volume_usage_exact(1) [OF small] governs_effective [OF gov]
    by (simp add: check_volume_quota_def Let_def case_prod_beta word_le_nat_alt split: if_splits)
  show "scope_gb (st_volumes st) sc + unat n \<le> unat (q_max_total_gb q)"
    using ok compute_volume_usage_exact(3) [OF small, of n] governs_effective [OF gov]
    by (simp add: check_volume_quota_def Let_def case_prod_beta word_less_nat_alt split: if_splits)
qed

lemma check_resize_quota_admits:
  assumes gov: "governs st sc q" "volume_in_scope sc v"
    and ok: "check_resize_quota st (vol_org_id v) (vol_project_id v) d = Inr ()"
    and bound: "scope_count (st_volumes st) sc \<le> unat (q_max_volumes q)"
  shows "scope_gb (st_volumes st) sc + unat d \<le> unat (q_max_total_gb q)"
proof -
  have small: "scope_count (st_volumes st) sc < 2 ^ 32"
    using bound unat_u32_bound [of "q_max_volumes q"] by linarith
  then show ?thesis
    using ok compute_volume_usage_exact(3) [OF small, of d] governs_effective [OF gov]
    by (simp add: check_resize_quota_def Let_def case_prod_beta word_less_nat_alt split: if_splits)
qed

lemma volumes_change_within:
  assumes ch: "volumes_change st vols'" and wf: "hm_wf (st_volumes st)" and gov: "governs st sc q"
    and count: "scope_count (st_volumes st) sc \<le> unat (q_max_volumes q)"
    and gb: "scope_gb (st_volumes st) sc \<le> unat (q_max_total_gb q)"
  shows "scope_count vols' sc \<le> unat (q_max_volumes q) \<and> scope_gb vols' sc \<le> unat (q_max_total_gb q)"
  using ch
proof cases
  case same
  then show ?thesis using count gb by simp
next
  case (update i v v')
  have "scope_count vols' sc \<le> scope_count (st_volumes st) sc"
    "scope_gb vols' sc \<le> scope_gb (st_volumes st) sc"
    using scope_put_upd [OF wf update(2), of v' sc] update(1,4) volume_step_live [OF update(3), of sc]
    by (auto split: if_splits)
  then show ?thesis using count gb by linarith
next
  case (resize i v n)
  have live: "vol_live_in sc (v\<lparr>vol_size_gb := n\<rparr>) \<longleftrightarrow> volume_in_scope sc v"
    "vol_live_in sc v \<longleftrightarrow> volume_in_scope sc v"
    using resize(3) by (cases sc; simp add: vol_live_in_def)+
  have size: "unat (n - vol_size_gb v) = unat n - unat (vol_size_gb v)"
      "unat (vol_size_gb v) < unat n"
    using resize(4) by (simp_all add: unat_sub word_less_nat_alt word_le_nat_alt)
  show ?thesis
    using scope_put_upd [OF wf resize(2), of "v\<lparr>vol_size_gb := n\<rparr>" sc] live resize(1) size count gb
      check_resize_quota_admits [OF gov _ resize(5) count]
    by (auto split: if_splits)
next
  case (create i v)
  have "vol_live_in sc v \<longleftrightarrow> volume_in_scope sc v"
    using create(3) by (auto simp: vol_live_in_def fresh_volume_def)
  then show ?thesis
    using scope_put_new [OF wf create(2), of v sc] create(1) count gb
      check_volume_quota_admits [OF gov _ create(4) count]
    by (auto split: if_splits)
next
  case (purge now age)
  then show ?thesis
    using scope_delete_le [of _ "st_volumes st" sc] count gb by (meson order_trans)
qed

section \<open>The snapshot limit\<close>

lemma scope_snapshots_put_new:
  assumes "hm_wf m" "hget m i = None"
  shows "scope_snapshots (hinsert i s m) sc = scope_snapshots m sc + (if snap_live_in sc s then 1 else 0)"
  using hm.sum_entries_put_new [OF assms, of "\<lambda>(_, s). if snap_live_in sc s then 1 else (0::nat)"]
  by (simp add: scope_snapshots_def)

lemma scope_snapshots_mark:
  assumes "hm_wf (st_snapshots st)"
  shows "scope_snapshots (st_snapshots (mark_snapshot_deleted i st)) sc \<le> scope_snapshots (st_snapshots st) sc"
proof (cases "hget (st_snapshots st) i")
  case (Some s)
  then show ?thesis
    using hm.sum_entries_put_upd [OF assms Some, of "\<lambda>(_, s). if snap_live_in sc s then 1 else (0::nat)"
        "s\<lparr>snap_state := SnapDeleted\<rparr>"]
    by (simp add: mark_snapshot_deleted_def scope_snapshots_def snap_live_in_def)
qed (simp add: mark_snapshot_deleted_def)

lemma st_snapshots_mark_cong:
  "st_snapshots st = st_snapshots st' \<Longrightarrow>
   st_snapshots (mark_snapshot_deleted i st) = st_snapshots (mark_snapshot_deleted i st')"
  by (simp add: mark_snapshot_deleted_def split: option.splits)

lemma cascade_fold_snapshots:
  assumes "hm_wf (st_snapshots st)"
  shows "hm_wf (st_snapshots (fold (\<lambda>(i, files) st. mark_snapshot_deleted i (fold cascade_release_sst files st)) xs st)) \<and>
    scope_snapshots (st_snapshots (fold (\<lambda>(i, files) st. mark_snapshot_deleted i (fold cascade_release_sst files st)) xs st)) sc
      \<le> scope_snapshots (st_snapshots st) sc"
  using assms
proof (induction xs arbitrary: st)
  case (Cons x xs)
  let ?st1 = "fold cascade_release_sst (snd x) st"
  have wf1: "hm_wf (st_snapshots (mark_snapshot_deleted (fst x) ?st1))"
    using Cons.prems by simp
  moreover have "scope_snapshots (st_snapshots (mark_snapshot_deleted (fst x) ?st1)) sc
      \<le> scope_snapshots (st_snapshots st) sc"
    using scope_snapshots_mark [of ?st1 "fst x" sc] Cons.prems by simp
  ultimately show ?case
    using Cons.IH [OF wf1] by (auto simp: case_prod_beta intro: order_trans)
qed simp

lemma cascade_snapshots:
  assumes "hm_wf (st_snapshots st)"
  shows "hm_wf (st_snapshots (cascade_delete_snapshots ids st))"
    and "scope_snapshots (st_snapshots (cascade_delete_snapshots ids st)) sc
           \<le> scope_snapshots (st_snapshots st) sc"
  using cascade_fold_snapshots [OF assms] by (simp_all add: cascade_delete_snapshots_def Let_def)

lemma check_snapshot_quota_admits:
  assumes gov: "governs st sc q" "volume_in_scope sc v"
    and ok: "check_snapshot_quota st (vol_org_id v) (vol_project_id v) = Inr ()"
    and bound: "scope_snapshots (st_snapshots st) sc \<le> unat (q_max_snapshots q)"
  shows "scope_snapshots (st_snapshots st) sc < unat (q_max_snapshots q)"
proof -
  have "scope_snapshots (st_snapshots st) sc < 2 ^ 64"
    using bound unat_u32_bound [of "q_max_snapshots q"] by simp
  then have "unat (compute_snapshot_count st sc) = scope_snapshots (st_snapshots st) sc"
    by (simp add: compute_snapshot_count_words unat_of_nat_u64)
  then show ?thesis
    using ok governs_effective [OF gov]
    by (simp add: check_snapshot_quota_def Let_def word_le_nat_alt split: if_splits)
qed

lemma hm_wf_snapshots_apply:
  "hm_wf (st_snapshots (sm_storage sm)) \<Longrightarrow> hm_wf (st_snapshots (sm_storage (fst (apply_storage c cmd sm))))"
  by (cases cmd) (auto simp: handler_defs Let_def cascade_snapshots split: sum.splits option.splits)

lemma snapshots_within:
  assumes wf: "hm_wf (st_snapshots (sm_storage sm))" and gov: "governs (sm_storage sm) sc q"
    and bound: "scope_snapshots (st_snapshots (sm_storage sm)) sc \<le> unat (q_max_snapshots q)"
  shows "scope_snapshots (st_snapshots (sm_storage (fst (apply_storage c cmd sm)))) sc
           \<le> unat (q_max_snapshots q)"
proof (cases cmd)
  case (CreateSnapshot i v files w)
  have scope: "snap_live_in sc \<lparr>snap_id = i, snap_source_volume_id = v, snap_sst_files = files,
      snap_wal_position = w, snap_org_id = vol_org_id r, snap_project_id = vol_project_id r,
      snap_size_gb = vol_size_gb r, snap_env_id = vol_env_id r, snap_volume_type = vol_type r,
      snap_state = SnapAvailable\<rparr> \<longleftrightarrow> volume_in_scope sc r" for r
    by (cases sc) (simp_all add: snap_live_in_def)
  show ?thesis
    using bound check_snapshot_quota_admits [OF gov _ _ bound]
    by (auto simp: CreateSnapshot apply_CreateSnapshot_def Let_def scope_snapshots_put_new [OF wf] scope Suc_le_eq
             split: option.splits sum.splits)
next
  case (DeleteSnapshot i)
  then show ?thesis
    using bound scope_snapshots_mark [of "fold release_sst _ (sm_storage sm)" i sc] wf
    by (auto simp: apply_DeleteSnapshot_def Let_def split: option.splits intro: order_trans)
next
  case (DeleteVolume i cascade t)
  then show ?thesis
    using bound cascade_snapshots(2) [OF wf, of _ sc]
    by (auto simp: apply_DeleteVolume_def Let_def split: option.splits intro: order_trans)
qed (use bound in \<open>auto simp: handler_defs Let_def split: option.splits sum.splits\<close>)

section \<open>Enforcement\<close>

definition sets_quota :: "storage_command \<Rightarrow> bool" where
  "sets_quota cmd \<longleftrightarrow> (case cmd of SetStorageQuota _ _ _ _ \<Rightarrow> True | _ \<Rightarrow> False)"

lemma quotas_frame:
  "\<not> sets_quota cmd \<Longrightarrow> st_quotas (sm_storage (fst (apply_storage c cmd sm))) = st_quotas (sm_storage sm)"
  by (cases cmd) (auto simp: sets_quota_def handler_defs Let_def split: option.splits sum.splits)

lemma governs_apply:
  "\<not> sets_quota cmd \<Longrightarrow>
   governs (sm_storage (fst (apply_storage c cmd sm))) sc q \<longleftrightarrow> governs (sm_storage sm) sc q"
  by (simp add: governs_def quotas_frame split: quota_scope.split)

lemma within_quota_apply:
  assumes "\<not> sets_quota cmd" "hm_wf (st_volumes (sm_storage sm))" "hm_wf (st_snapshots (sm_storage sm))"
    "governs (sm_storage sm) sc q" "within_quota (sm_storage sm) sc q"
  shows "within_quota (sm_storage (fst (apply_storage c cmd sm))) sc q"
  using assms volumes_change_within [OF apply_storage_volumes assms(2,4)]
    snapshots_within [OF assms(3,4)]
  by (simp add: within_quota_def)

end
