(* ===== verification/Snapshot_Gc.thy ===== *)
theory Snapshot_Gc
  imports Quota_Enforcement
begin

text \<open>
  Reference counts of SST files, the garbage-collection list and the retention position of
  the write-ahead log.

  \<open>live_refs\<close> counts the references that live snapshots hold to a file.  The counters
  cover these references (\<open>refs_covered\<close>); a file enters the garbage-collection list only
  when its counter is gone, hence only when no live snapshot refers to it.  Without
  restores the counters are exact (\<open>refs_exact\<close>), and then no file is lost: a file that
  loses its last reference is on the list.  Restores add references for the restored
  volume that no command ever gives back, so there the counters are an upper bound only.

  The two loops that give references back, in \<^verbatim>\<open>DeleteSnapshot\<close> and in the cascade of
  \<^verbatim>\<open>DeleteVolume\<close>, are different code; \<open>sst_release\<close> is the contract they share.
\<close>

definition live_refs :: "storage_state \<Rightarrow> string \<Rightarrow> nat" where
  "live_refs st k =
     sum_list (map (\<lambda>(_, s). if snap_state s = SnapDeleted then 0 else count_list (snap_sst_files s) k)
       (st_snapshots st))"

definition refs_covered :: "storage_state \<Rightarrow> bool" where
  "refs_covered st \<longleftrightarrow> (\<forall>k. live_refs st k \<le> unat (sst_count st k))"

definition refs_exact :: "storage_state \<Rightarrow> bool" where
  "refs_exact st \<longleftrightarrow> (\<forall>k. unat (sst_count st k) = live_refs st k)"

section \<open>Taking references\<close>

lemma sst_count_increment [simp]:
  "sst_count (sst_increment k st) k' = (if k' = k then sst_count st k + 1 else sst_count st k')"
  by (simp add: sst_count_def sst_increment_def)

lemma sst_count_fold_increment:
  "sst_count (fold sst_increment ks st) k = sst_count st k + of_nat (count_list ks k)"
  by (induction ks arbitrary: st) (simp_all add: algebra_simps)

lemma unat_sst_count_fold_increment:
  assumes "unat (sst_count st k) + length ks < 2 ^ 64"
  shows "unat (sst_count (fold sst_increment ks st) k) = unat (sst_count st k) + count_list ks k"
proof -
  have le: "count_list ks k \<le> length ks" by (rule count_le_length)
  with assms have "unat (of_nat (count_list ks k) :: u64) = count_list ks k"
    by (intro unat_of_nat_u64) linarith
  then show ?thesis
    unfolding sst_count_fold_increment using assms le by (subst unat_add_u64) simp_all
qed

lemma live_refs_put_new:
  assumes "hm_wf (st_snapshots st)" "hget (st_snapshots st) i = None" "snap_state s = SnapAvailable"
  shows "live_refs (st\<lparr>st_snapshots := hinsert i s (st_snapshots st)\<rparr>) k
           = live_refs st k + count_list (snap_sst_files s) k"
  using hm.sum_entries_put_new [OF assms(1,2),
      of "\<lambda>(_, s). if snap_state s = SnapDeleted then 0 else count_list (snap_sst_files s) k" s] assms(3)
  by (simp add: live_refs_def)

lemma live_refs_mark:
  assumes "hm_wf (st_snapshots st)" "hget (st_snapshots st) i = Some s" "snap_state s \<noteq> SnapDeleted"
  shows "live_refs (mark_snapshot_deleted i st) k + count_list (snap_sst_files s) k = live_refs st k"
  using hm.sum_entries_put_upd [OF assms(1,2),
      of "\<lambda>(_, s). if snap_state s = SnapDeleted then 0 else count_list (snap_sst_files s) k"
         "s\<lparr>snap_state := SnapDeleted\<rparr>"] assms(2,3)
  by (simp add: live_refs_def mark_snapshot_deleted_def)

lemma sst_count_frame: "st_sst_refcounts st' = st_sst_refcounts st \<Longrightarrow> sst_count st' = sst_count st"
  by (simp add: sst_count_def fun_eq_iff)

lemma live_refs_frame: "st_snapshots st' = st_snapshots st \<Longrightarrow> live_refs st' = live_refs st"
  by (simp add: live_refs_def fun_eq_iff)

lemma sst_count_mark [simp]: "sst_count (mark_snapshot_deleted i st) = sst_count st"
  by (rule sst_count_frame) simp

section \<open>Giving references back\<close>

text \<open>
  Dropping one snapshot: give its references back and mark it.
\<close>

definition drop_snapshot :: "(string \<Rightarrow> storage_state \<Rightarrow> storage_state) \<Rightarrow>
    string \<times> string list \<Rightarrow> storage_state \<Rightarrow> storage_state" where
  "drop_snapshot release x st = mark_snapshot_deleted (fst x) (fold release (snd x) st)"

definition holds_files :: "storage_state \<Rightarrow> string \<times> string list \<Rightarrow> bool" where
  "holds_files st x \<longleftrightarrow>
     (\<exists>s. hget (st_snapshots st) (fst x) = Some s \<and> snap_state s \<noteq> SnapDeleted \<and>
          snap_sst_files s = snd x)"

locale sst_release =
  fixes release :: "string \<Rightarrow> storage_state \<Rightarrow> storage_state"
  assumes count_release:
      "unat (sst_count (release k st) k') = unat (sst_count st k') - (if k' = k then 1 else 0)"
    and pending_release:
      "k' \<in> set (st_pending_gc_ssts (release k st)) \<Longrightarrow>
       k' \<in> set (st_pending_gc_ssts st) \<or> sst_count (release k st) k' = 0"
    and pending_kept: "set (st_pending_gc_ssts st) \<subseteq> set (st_pending_gc_ssts (release k st))"
    and pending_last:
      "\<lbrakk>sst_count st k \<noteq> 0; sst_count (release k st) k = 0\<rbrakk> \<Longrightarrow> k \<in> set (st_pending_gc_ssts (release k st))"
    and snapshots_release: "st_snapshots (release k st) = st_snapshots st"
begin

lemma count_fold: "unat (sst_count (fold release ks st) k) = unat (sst_count st k) - count_list ks k"
  by (induction ks arbitrary: st) (simp_all add: count_release)

lemma count_zero_stays: "sst_count st k = 0 \<Longrightarrow> sst_count (release k' st) k = 0"
  using count_release [of k' st k] by (simp add: unat_eq_zero)

lemma count_zero_fold: "sst_count st k = 0 \<Longrightarrow> sst_count (fold release ks st) k = 0"
  by (induction ks arbitrary: st) (simp_all add: count_zero_stays)

lemma pending_fold:
  "k \<in> set (st_pending_gc_ssts (fold release ks st)) \<Longrightarrow>
   k \<in> set (st_pending_gc_ssts st) \<or> sst_count (fold release ks st) k = 0"
  by (induction ks arbitrary: st) (auto dest!: pending_release intro: count_zero_fold)

lemma pending_kept_fold: "set (st_pending_gc_ssts st) \<subseteq> set (st_pending_gc_ssts (fold release ks st))"
  by (induction ks arbitrary: st) (use pending_kept in fastforce)+

lemma pending_last_fold:
  "\<lbrakk>sst_count st k \<noteq> 0; sst_count (fold release ks st) k = 0\<rbrakk>
   \<Longrightarrow> k \<in> set (st_pending_gc_ssts (fold release ks st))"
proof (induction ks arbitrary: st)
  case (Cons x ks)
  show ?case
  proof (cases "sst_count (release x st) k = 0")
    case True
    then have "x = k"
      using Cons.prems(1) count_release [of x st k] by (auto simp: unat_eq_zero split: if_splits)
    with True Cons.prems(1) show ?thesis
      using pending_last [of st k] pending_kept_fold [of "release x st" ks] by auto
  next
    case False
    with Cons show ?thesis by simp
  qed
qed simp

lemma snapshots_fold [simp]: "st_snapshots (fold release ks st) = st_snapshots st"
  by (rule fold_frame) (rule snapshots_release)

lemma drop_refs:
  assumes "hm_wf (st_snapshots st)" "holds_files st x"
  shows "live_refs (drop_snapshot release x st) k + count_list (snd x) k = live_refs st k"
    and "unat (sst_count (drop_snapshot release x st) k) = unat (sst_count st k) - count_list (snd x) k"
proof -
  obtain s where s: "hget (st_snapshots st) (fst x) = Some s" "snap_state s \<noteq> SnapDeleted"
      "snap_sst_files s = snd x"
    using assms(2) by (auto simp: holds_files_def)
  show "live_refs (drop_snapshot release x st) k + count_list (snd x) k = live_refs st k"
    using live_refs_mark [of "fold release (snd x) st" "fst x" s k] s assms(1)
      live_refs_frame [OF snapshots_fold]
    by (simp add: drop_snapshot_def)
qed (simp add: drop_snapshot_def count_fold)

lemma drop_covered:
  "\<lbrakk>hm_wf (st_snapshots st); holds_files st x; refs_covered st\<rbrakk> \<Longrightarrow> refs_covered (drop_snapshot release x st)"
  unfolding refs_covered_def using drop_refs by (metis diff_le_mono add_diff_cancel_right')

lemma drop_exact:
  "\<lbrakk>hm_wf (st_snapshots st); holds_files st x; refs_exact st\<rbrakk> \<Longrightarrow> refs_exact (drop_snapshot release x st)"
  unfolding refs_exact_def using drop_refs by (metis add_diff_cancel_right')

lemma drop_pending:
  "k \<in> set (st_pending_gc_ssts (drop_snapshot release x st)) \<Longrightarrow>
   k \<in> set (st_pending_gc_ssts st) \<or> sst_count (drop_snapshot release x st) k = 0"
  using pending_fold [of k "snd x" st] by (simp add: drop_snapshot_def)

lemma drop_no_leak:
  "\<lbrakk>sst_count st k \<noteq> 0; sst_count (drop_snapshot release x st) k = 0\<rbrakk>
   \<Longrightarrow> k \<in> set (st_pending_gc_ssts (drop_snapshot release x st))"
  using pending_last_fold [of st k "snd x"] by (simp add: drop_snapshot_def)

lemma drop_zero_stays: "sst_count st k = 0 \<Longrightarrow> sst_count (drop_snapshot release x st) k = 0"
  by (simp add: drop_snapshot_def count_zero_fold)

lemma drop_wf: "hm_wf (st_snapshots st) \<Longrightarrow> hm_wf (st_snapshots (drop_snapshot release x st))"
  by (simp add: drop_snapshot_def)

lemma drop_holds_other:
  "\<lbrakk>holds_files st y; fst y \<noteq> fst x\<rbrakk> \<Longrightarrow> holds_files (drop_snapshot release x st) y"
  by (auto simp: holds_files_def drop_snapshot_def mark_snapshot_deleted_def split: option.splits)

lemma drops:
  assumes "hm_wf (st_snapshots st)" "list_all (holds_files st) xs" "distinct (map fst xs)"
  shows "hm_wf (st_snapshots (fold (drop_snapshot release) xs st)) \<and>
    (refs_covered st \<longrightarrow> refs_covered (fold (drop_snapshot release) xs st)) \<and>
    (refs_exact st \<longrightarrow> refs_exact (fold (drop_snapshot release) xs st))"
  using assms
proof (induction xs arbitrary: st)
  case (Cons x xs)
  let ?st1 = "drop_snapshot release x st"
  have "holds_files ?st1 y" if "y \<in> set xs" for y
    using Cons.prems(2,3) that by (intro drop_holds_other) (auto simp: list_all_iff image_iff)
  then have "list_all (holds_files ?st1) xs" by (simp add: list_all_iff)
  moreover have "hm_wf (st_snapshots ?st1)" "distinct (map fst xs)"
    using Cons.prems drop_wf by auto
  ultimately show ?case
    using Cons.IH [of ?st1] Cons.prems drop_covered [of st x] drop_exact [of st x] by simp
qed simp

lemma drops_zero_stays: "sst_count st k = 0 \<Longrightarrow> sst_count (fold (drop_snapshot release) xs st) k = 0"
  by (induction xs arbitrary: st) (simp_all add: drop_zero_stays)

lemma drops_pending:
  "k \<in> set (st_pending_gc_ssts (fold (drop_snapshot release) xs st)) \<Longrightarrow>
   k \<in> set (st_pending_gc_ssts st) \<or> sst_count (fold (drop_snapshot release) xs st) k = 0"
  by (induction xs arbitrary: st) (auto dest!: drop_pending intro: drops_zero_stays)

lemma drop_pending_kept: "set (st_pending_gc_ssts st) \<subseteq> set (st_pending_gc_ssts (drop_snapshot release x st))"
  using pending_kept_fold [of st "snd x"] by (simp add: drop_snapshot_def)

lemma drops_pending_kept:
  "set (st_pending_gc_ssts st) \<subseteq> set (st_pending_gc_ssts (fold (drop_snapshot release) xs st))"
  by (induction xs arbitrary: st) (use drop_pending_kept in fastforce)+

lemma drops_no_leak:
  "\<lbrakk>sst_count st k \<noteq> 0; sst_count (fold (drop_snapshot release) xs st) k = 0\<rbrakk>
   \<Longrightarrow> k \<in> set (st_pending_gc_ssts (fold (drop_snapshot release) xs st))"
proof (induction xs arbitrary: st)
  case (Cons x xs)
  then show ?case
    using drop_no_leak [of st k x] drops_pending_kept [of "drop_snapshot release x st" xs]
    by (cases "sst_count (drop_snapshot release x st) k = 0") auto
qed simp

end

lemma sst_count_simps:
  "sst_count (st\<lparr>st_sst_refcounts := m, st_pending_gc_ssts := p\<rparr>) k = (case hget m k of Some n \<Rightarrow> n | None \<Rightarrow> 0)"
  "sst_count (st\<lparr>st_sst_refcounts := m\<rparr>) k = (case hget m k of Some n \<Rightarrow> n | None \<Rightarrow> 0)"
  by (simp_all add: sst_count_def)

lemma sst_count_release:
  "sst_count (release_sst k st) k' = (if k' = k then saturating_sub (sst_count st k) 1 else sst_count st k')"
  by (auto simp: release_sst_def Let_def sst_count_simps sst_count_def [of st] saturating_sub_def
           split: option.splits)

lemma sst_count_cascade_release:
  "sst_count (cascade_release_sst k st) k'
     = (if k' = k then saturating_sub (sst_count st k) 1 else sst_count st k')"
proof -
  have "sst_count st k \<le> 1 \<Longrightarrow> saturating_sub (sst_count st k) 1 = 0"
    by (simp add: unat_eq_zero [symmetric] unat_saturating_sub word_le_nat_alt)
  moreover have "\<not> sst_count st k \<le> 1 \<Longrightarrow> saturating_sub (sst_count st k) 1 = sst_count st k - 1"
    by (simp add: saturating_sub_def not_le order_less_imp_le)
  ultimately show ?thesis
    by (simp add: cascade_release_sst_def Let_def sst_count_simps) (simp add: sst_count_def)
qed

interpretation direct: sst_release release_sst
proof
  show "unat (sst_count (release_sst k st) k') = unat (sst_count st k') - (if k' = k then 1 else 0)"
    for k k' st by (simp add: sst_count_release unat_saturating_sub)
  show "k' \<in> set (st_pending_gc_ssts st) \<or> sst_count (release_sst k st) k' = 0"
    if "k' \<in> set (st_pending_gc_ssts (release_sst k st))" for k k' st
    using that by (auto simp: release_sst_def Let_def sst_count_simps split: option.splits if_splits)
  show "set (st_pending_gc_ssts st) \<subseteq> set (st_pending_gc_ssts (release_sst k st))" for k st
    by (auto simp: release_sst_def Let_def split: option.splits)
  show "k \<in> set (st_pending_gc_ssts (release_sst k st))"
    if "sst_count st k \<noteq> 0" "sst_count (release_sst k st) k = 0" for k st
    using that by (auto simp: release_sst_def Let_def sst_count_def split: option.splits if_splits)
qed simp

interpretation casc: sst_release cascade_release_sst
proof
  show "unat (sst_count (cascade_release_sst k st) k') = unat (sst_count st k') - (if k' = k then 1 else 0)"
    for k k' st by (simp add: sst_count_cascade_release unat_saturating_sub)
  show "k' \<in> set (st_pending_gc_ssts st) \<or> sst_count (cascade_release_sst k st) k' = 0"
    if "k' \<in> set (st_pending_gc_ssts (cascade_release_sst k st))" for k k' st
    using that by (auto simp: cascade_release_sst_def Let_def sst_count_simps split: if_splits)
  show "set (st_pending_gc_ssts st) \<subseteq> set (st_pending_gc_ssts (cascade_release_sst k st))" for k st
    by (auto simp: cascade_release_sst_def Let_def)
  show "k \<in> set (st_pending_gc_ssts (cascade_release_sst k st))"
    if "sst_count st k \<noteq> 0" "sst_count (cascade_release_sst k st) k = 0" for k st
    using that by (auto simp: cascade_release_sst_def Let_def sst_count_simps split: if_splits)
qed simp

section \<open>The commands\<close>

definition cascade_list :: "string \<Rightarrow> storage_state \<Rightarrow> (string \<times> string list) list" where
  "cascade_list v st = map (\<lambda>(i, s). (i, snap_sst_files s))
     (filter (\<lambda>(_, s). snap_source_volume_id s = v \<and> snap_state s \<noteq> SnapDeleted) (st_snapshots st))"

lemma cascade_list_ok:
  assumes "hm_wf (st_snapshots st)"
  shows "list_all (holds_files st) (cascade_list v st)" "distinct (map fst (cascade_list v st))"
proof -
  show "list_all (holds_files st) (cascade_list v st)"
    by (auto simp: list_all_iff cascade_list_def holds_files_def hm.in_entries_iff [OF assms])
  have "map fst (cascade_list v st) = map fst (filter (\<lambda>(_, s). snap_source_volume_id s = v \<and>
      snap_state s \<noteq> SnapDeleted) (st_snapshots st))"
    by (simp add: cascade_list_def case_prod_beta)
  then show "distinct (map fst (cascade_list v st))"
    using assms by (simp add: distinct_map_filter)
qed

lemma cascade_as_drops:
  assumes "hm_wf (st_snapshots st)"
  shows "cascade_delete_snapshots (live_snapshot_ids v st) st =
    (let st1 = fold (drop_snapshot cascade_release_sst) (cascade_list v st) st
     in st1\<lparr>st_min_wal_position := min_of (live_wal_positions st1)\<rparr>)"
proof -
  let ?live = "filter (\<lambda>(_, s). snap_source_volume_id s = v \<and> snap_state s \<noteq> SnapDeleted) (st_snapshots st)"
  have "List.map_filter (\<lambda>i. case hget (st_snapshots st) i of None \<Rightarrow> None
          | Some s \<Rightarrow> if snap_state s = SnapDeleted then None else Some (i, snap_sst_files s)) (map fst xs)
      = map (\<lambda>(i, s). (i, snap_sst_files s)) xs" if "set xs \<subseteq> set ?live" for xs
    using that
  proof (induction xs)
    case (Cons x xs)
    then have "hget (st_snapshots st) (fst x) = Some (snd x)" "snap_state (snd x) \<noteq> SnapDeleted"
      using assms by (auto simp: hm.in_entries_iff [symmetric] case_prod_beta)
    with Cons show ?case by (simp add: List.map_filter_simps case_prod_beta)
  qed (simp add: List.map_filter_simps)
  note eq = this [of ?live, OF order_refl]
  have drop: "(\<lambda>(i, files) st. mark_snapshot_deleted i (fold cascade_release_sst files st))
      = drop_snapshot cascade_release_sst"
    by (simp add: fun_eq_iff drop_snapshot_def split_beta)
  show ?thesis
    unfolding cascade_delete_snapshots_def live_snapshot_ids_def cascade_list_def eq drop Let_def ..
qed

text \<open>
  The counters are 64-bit; \<open>refs_room\<close> says that a command does not push one past its
  range.
\<close>

definition files_room :: "storage_state \<Rightarrow> string list \<Rightarrow> bool" where
  "files_room st files \<longleftrightarrow> list_all (\<lambda>k. unat (sst_count st k) + length files < 2 ^ 64) files"

definition refs_room :: "storage_command \<Rightarrow> storage_state \<Rightarrow> bool" where
  "refs_room cmd st \<longleftrightarrow>
     (case cmd of
        CreateSnapshot _ _ files _ \<Rightarrow> files_room st files
      | RestoreSnapshot i _ _ \<Rightarrow>
          (case hget (st_snapshots st) i of None \<Rightarrow> True | Some s \<Rightarrow> files_room st (snap_sst_files s))
      | _ \<Rightarrow> True)"

lemma unat_count_room:
  "files_room st files \<Longrightarrow>
   unat (sst_count (fold sst_increment files st) k) = unat (sst_count st k) + count_list files k"
proof (cases "k \<in> set files")
  case True
  moreover assume "files_room st files"
  ultimately show ?thesis
    by (intro unat_sst_count_fold_increment) (simp add: files_room_def list_all_iff)
qed (simp add: sst_count_fold_increment)

lemma refs_frame:
  "\<lbrakk>st_snapshots st' = st_snapshots st; st_sst_refcounts st' = st_sst_refcounts st\<rbrakk>
   \<Longrightarrow> refs_covered st' = refs_covered st \<and> refs_exact st' = refs_exact st"
  by (simp add: refs_covered_def refs_exact_def live_refs_frame [of st' st] sst_count_frame [of st' st])

text \<open>
  The effect of a command on snapshots, counters and the garbage-collection list; the flag
  says whether the command is a restore.
\<close>

inductive gc_change :: "bool \<Rightarrow> storage_state \<Rightarrow> storage_state \<Rightarrow> bool" for r st where
  keep: "\<lbrakk>st_snapshots st' = st_snapshots st; st_sst_refcounts st' = st_sst_refcounts st;
          set (st_pending_gc_ssts st') \<subseteq> set (st_pending_gc_ssts st)\<rbrakk> \<Longrightarrow> gc_change r st st'"
| take: "\<lbrakk>hget (st_snapshots st) i = None; snap_state s = SnapAvailable;
          st_snapshots st' = hinsert i s (st_snapshots st);
          st_sst_refcounts st' = st_sst_refcounts (fold sst_increment (snap_sst_files s) st);
          st_pending_gc_ssts st' = st_pending_gc_ssts st; files_room st (snap_sst_files s)\<rbrakk> \<Longrightarrow> gc_change r st st'"
| restore: "\<lbrakk>r; st_snapshots st' = st_snapshots st;
          st_sst_refcounts st' = st_sst_refcounts (fold sst_increment files st);
          st_pending_gc_ssts st' = st_pending_gc_ssts st; files_room st files\<rbrakk> \<Longrightarrow> gc_change r st st'"
| delete: "\<lbrakk>holds_files st x; st_snapshots st' = st_snapshots (drop_snapshot release_sst x st);
          st_sst_refcounts st' = st_sst_refcounts (drop_snapshot release_sst x st);
          st_pending_gc_ssts st' = st_pending_gc_ssts (drop_snapshot release_sst x st)\<rbrakk> \<Longrightarrow> gc_change r st st'"
| cascade: "\<lbrakk>list_all (holds_files st) xs; distinct (map fst xs);
          st_snapshots st' = st_snapshots (fold (drop_snapshot cascade_release_sst) xs st);
          st_sst_refcounts st' = st_sst_refcounts (fold (drop_snapshot cascade_release_sst) xs st);
          st_pending_gc_ssts st' = st_pending_gc_ssts (fold (drop_snapshot cascade_release_sst) xs st)\<rbrakk>
        \<Longrightarrow> gc_change r st st'"

lemma put_volume_gc:
  "gc_change r st st' \<Longrightarrow> gc_change r st (put_volume i v st')"
proof (induction rule: gc_change.induct)
  case (take j s st')
  then show ?case by (intro gc_change.take [where i = j and s = s]) simp_all
next
  case (restore st' files)
  then show ?case by (intro gc_change.restore [where files = files]) simp_all
next
  case (delete x st')
  then show ?case by (intro gc_change.delete [where x = x]) simp_all
next
  case (cascade xs st')
  then show ?case by (intro gc_change.cascade [where xs = xs]) simp_all
qed (simp add: gc_change.keep)

lemma gc_change_refl [simp, intro]: "gc_change r st st"
  by (rule gc_change.keep) simp_all

definition is_restore :: "storage_command \<Rightarrow> bool" where
  "is_restore cmd \<longleftrightarrow> (case cmd of RestoreSnapshot _ _ _ \<Rightarrow> True | _ \<Rightarrow> False)"

lemma apply_storage_gc_change:
  assumes wf: "hm_wf (st_snapshots (sm_storage sm))" and room: "refs_room cmd (sm_storage sm)"
  shows "gc_change (is_restore cmd) (sm_storage sm) (sm_storage (fst (apply_storage c cmd sm)))"
proof (cases cmd)
  case (CreateSnapshot i v files w)
  have "gc_change (is_restore cmd) (sm_storage sm) (fold sst_increment files (sm_storage sm)
      \<lparr>st_snapshots := hinsert i s (st_snapshots (sm_storage sm)), st_min_wal_position := p\<rparr>)"
    if "hget (st_snapshots (sm_storage sm)) i = None" "snap_state s = SnapAvailable" "snap_sst_files s = files"
    for s p
    using that room by (intro gc_change.take [where i = i and s = s]) (simp_all add: CreateSnapshot refs_room_def)
  then show ?thesis
    by (auto simp: CreateSnapshot apply_CreateSnapshot_def Let_def split: option.splits sum.splits)
next
  case (RestoreSnapshot i v n)
  have "gc_change (is_restore cmd) (sm_storage sm) (fold sst_increment (snap_sst_files s) (sm_storage sm)
      \<lparr>st_manifest_pointers := p\<rparr>)"
    if "hget (st_snapshots (sm_storage sm)) i = Some s" for s p
    using that room by (intro gc_change.restore [where files = "snap_sst_files s"])
      (simp_all add: RestoreSnapshot refs_room_def is_restore_def)
  then show ?thesis
    by (auto simp: RestoreSnapshot apply_RestoreSnapshot_def Let_def put_volume_gc
             split: option.splits sum.splits)
next
  case (DeleteSnapshot i)
  have "gc_change (is_restore cmd) (sm_storage sm) (mark_snapshot_deleted i (fold release_sst (snap_sst_files s)
      (sm_storage sm))\<lparr>st_min_wal_position := w\<rparr>)"
    if "hget (st_snapshots (sm_storage sm)) i = Some s" "snap_state s \<noteq> SnapDeleted" for s w
    using that by (intro gc_change.delete [where x = "(i, snap_sst_files s)"])
      (simp_all add: holds_files_def drop_snapshot_def)
  then show ?thesis
    by (auto simp: DeleteSnapshot apply_DeleteSnapshot_def Let_def split: option.splits)
next
  case (DeleteVolume i cascade t)
  have "gc_change (is_restore cmd) (sm_storage sm)
      (cascade_delete_snapshots (live_snapshot_ids i (sm_storage sm)) (sm_storage sm))"
    using cascade_list_ok [OF wf, of i]
    by (intro gc_change.cascade [where xs = "cascade_list i (sm_storage sm)"])
       (simp_all add: cascade_as_drops [OF wf] Let_def)
  then show ?thesis
    by (auto simp: DeleteVolume apply_DeleteVolume_def Let_def put_volume_gc
             split: option.splits)
qed (auto simp: handler_defs Let_def split: option.splits sum.splits intro!: gc_change.keep)

lemma gc_change_covered:
  assumes "gc_change r st st'" "hm_wf (st_snapshots st)" "refs_covered st"
  shows "refs_covered st'"
  using assms(1)
proof cases
  case keep
  then show ?thesis using assms(3) refs_frame by blast
next
  case (take i s)
  then show ?thesis
    using assms(3) live_refs_put_new [OF assms(2) take(1,2)] unat_count_room [OF take(6)]
      sst_count_frame [OF take(4)] live_refs_frame [of st' "st\<lparr>st_snapshots := hinsert i s (st_snapshots st)\<rparr>"]
    by (simp add: refs_covered_def)
next
  case (restore files)
  then show ?thesis
    using assms(3) unat_count_room [OF restore(5)] sst_count_frame [OF restore(3)] live_refs_frame [OF restore(2)]
    by (simp add: refs_covered_def trans_le_add1)
next
  case (delete x)
  then show ?thesis
    using direct.drop_covered [OF assms(2) delete(1) assms(3)] refs_frame by blast
next
  case (cascade xs)
  then show ?thesis
    using casc.drops [OF assms(2) cascade(1,2)] assms(3) refs_frame by blast
qed

lemma gc_change_pending:
  assumes "gc_change r st st'" "k \<in> set (st_pending_gc_ssts st')" "k \<notin> set (st_pending_gc_ssts st)"
  shows "sst_count st' k = 0"
  using assms(1)
proof cases
  case (delete x)
  then show ?thesis using direct.drop_pending [of k x st] assms(2,3) sst_count_frame [of st'] by auto
next
  case (cascade xs)
  then show ?thesis using casc.drops_pending [of k xs st] assms(2,3) sst_count_frame [of st'] by auto
qed (use assms(2,3) in auto)

lemma gc_change_exact:
  assumes "gc_change False st st'" "hm_wf (st_snapshots st)" "refs_exact st"
  shows "refs_exact st'"
  using assms(1)
proof cases
  case keep
  then show ?thesis using assms(3) refs_frame by blast
next
  case (take i s)
  then show ?thesis
    using assms(3) live_refs_put_new [OF assms(2) take(1,2)] unat_count_room [OF take(6)]
      sst_count_frame [OF take(4)] live_refs_frame [of st' "st\<lparr>st_snapshots := hinsert i s (st_snapshots st)\<rparr>"]
    by (simp add: refs_exact_def)
next
  case (delete x)
  then show ?thesis
    using direct.drop_exact [OF assms(2) delete(1) assms(3)] refs_frame by blast
next
  case (cascade xs)
  then show ?thesis
    using casc.drops [OF assms(2) cascade(1,2)] assms(3) refs_frame by blast
qed simp

lemma gc_change_no_leak:
  assumes "gc_change False st st'" "sst_count st k \<noteq> 0" "sst_count st' k = 0" "hm_wf (st_snapshots st)"
  shows "k \<in> set (st_pending_gc_ssts st')"
  using assms(1)
proof cases
  case keep
  then show ?thesis using assms(2,3) sst_count_frame [OF keep(2)] by simp
next
  case (take i s)
  have "unat (sst_count st' k) = unat (sst_count st k) + count_list (snap_sst_files s) k"
    using unat_count_room [OF take(6), of k] sst_count_frame [OF take(4)] by simp
  then show ?thesis using assms(2,3) by (simp add: unat_eq_zero)
next
  case (delete x)
  then show ?thesis
    using direct.drop_no_leak [OF assms(2), of x] assms(3) sst_count_frame [OF delete(3)] by simp
next
  case (cascade xs)
  then show ?thesis
    using casc.drops_no_leak [OF assms(2), of xs] assms(3) sst_count_frame [OF cascade(4)] by simp
qed simp

section \<open>Retention of the write-ahead log\<close>

definition wal_retained :: "storage_state \<Rightarrow> bool" where
  "wal_retained st \<longleftrightarrow>
     list_all (\<lambda>w. case st_min_wal_position st of None \<Rightarrow> False | Some m \<Rightarrow> m \<le> w) (live_wal_positions st)"

text \<open>
  Acknowledging deleted segments raises the retention position unconditionally; the
  position that is acknowledged must not exceed that of a live snapshot.
\<close>

definition wal_ack_ok :: "storage_command \<Rightarrow> storage_state \<Rightarrow> bool" where
  "wal_ack_ok cmd st \<longleftrightarrow>
     (case cmd of GcCompleteWalSegments p \<Rightarrow> list_all (\<lambda>w. p \<le> w) (live_wal_positions st) | _ \<Rightarrow> True)"

lemma foldl_min_le: "foldl min (x :: u64) xs \<le> x \<and> (\<forall>y \<in> set xs. foldl min x xs \<le> y)"
proof (induction xs arbitrary: x)
  case (Cons a xs)
  have "foldl min (min x a) xs \<le> min x a" using Cons by blast
  then show ?case using Cons [of "min x a"] by auto
qed simp

lemma min_of_le: "\<lbrakk>min_of xs = Some m; x \<in> set xs\<rbrakk> \<Longrightarrow> m \<le> x"
  by (cases xs) (use foldl_min_le in auto)

lemma min_of_None: "min_of xs = None \<longleftrightarrow> xs = []"
  by (cases xs) auto

lemma wal_retained_min: "wal_retained (st\<lparr>st_min_wal_position := min_of (live_wal_positions st)\<rparr>)"
proof -
  have "live_wal_positions (st\<lparr>st_min_wal_position := m\<rparr>) = live_wal_positions st" for m
    by (simp add: live_wal_positions_def)
  then show ?thesis
    by (cases "min_of (live_wal_positions st)")
       (auto simp: wal_retained_def list_all_iff min_of_None dest: min_of_le)
qed

lemma wal_retained_frame:
  "\<lbrakk>st_snapshots st' = st_snapshots st; st_min_wal_position st' = st_min_wal_position st\<rbrakk>
   \<Longrightarrow> wal_retained st' = wal_retained st"
  by (simp add: wal_retained_def live_wal_positions_def)

lemma set_live_wal_positions_put:
  "\<lbrakk>hm_wf (st_snapshots st); hget (st_snapshots st) i = None; snap_state s \<noteq> SnapDeleted\<rbrakk> \<Longrightarrow>
   set (live_wal_positions (st\<lparr>st_snapshots := hinsert i s (st_snapshots st)\<rparr>))
     = insert (snap_wal_position s) (set (live_wal_positions st))"
proof -
  assume wf: "hm_wf (st_snapshots st)" and new: "hget (st_snapshots st) i = None" and live: "snap_state s \<noteq> SnapDeleted"
  have "set (hinsert i s (st_snapshots st)) = insert (i, s) (set (st_snapshots st))"
    using new by (auto simp: set_eq_iff hm.in_entries_iff [OF wf] hm.in_entries_iff [OF hm_wf_hinsert [OF wf]])
  then show ?thesis using live by (auto simp: live_wal_positions_def)
qed

lemma wal_retained_take:
  assumes "hm_wf (st_snapshots st)" "hget (st_snapshots st) i = None" "snap_state s = SnapAvailable"
    "wal_retained st"
    "st_snapshots st' = hinsert i s (st_snapshots st)"
    "st_min_wal_position st' = Some (case st_min_wal_position st of
        Some existing \<Rightarrow> min existing (snap_wal_position s) | None \<Rightarrow> snap_wal_position s)"
  shows "wal_retained st'"
proof -
  have "set (live_wal_positions st') = insert (snap_wal_position s) (set (live_wal_positions st))"
    using set_live_wal_positions_put [OF assms(1,2), of s] assms(3,5)
    by (simp add: live_wal_positions_def)
  then show ?thesis
    using assms(4,6) by (auto simp: wal_retained_def list_all_iff min.coboundedI1 split: option.splits)
qed

definition moves_wal :: "storage_command \<Rightarrow> bool" where
  "moves_wal cmd \<longleftrightarrow>
     (case cmd of CreateSnapshot _ _ _ _ \<Rightarrow> True | DeleteSnapshot _ \<Rightarrow> True | DeleteVolume _ _ _ \<Rightarrow> True
      | GcCompleteWalSegments _ \<Rightarrow> True | _ \<Rightarrow> False)"

lemma wal_stays:
  assumes "\<not> moves_wal cmd"
  shows "st_snapshots (sm_storage (fst (apply_storage c cmd sm))) = st_snapshots (sm_storage sm)"
    and "st_min_wal_position (sm_storage (fst (apply_storage c cmd sm))) = st_min_wal_position (sm_storage sm)"
  using assms by (cases cmd; simp add: moves_wal_def handler_defs Let_def split: option.split sum.split)+

lemma wal_retained_apply:
  assumes wf: "hm_wf (st_snapshots (sm_storage sm))" and ret: "wal_retained (sm_storage sm)"
    and ack: "wal_ack_ok cmd (sm_storage sm)"
  shows "wal_retained (sm_storage (fst (apply_storage c cmd sm)))"
proof (cases cmd)
  case (CreateSnapshot i v files w)
  have "wal_retained (fold sst_increment files (sm_storage sm)
      \<lparr>st_snapshots := hinsert i s (st_snapshots (sm_storage sm)),
       st_min_wal_position := Some (case st_min_wal_position (sm_storage sm) of
         Some existing \<Rightarrow> min existing w | None \<Rightarrow> w)\<rparr>)"
    if "hget (st_snapshots (sm_storage sm)) i = None" "snap_state s = SnapAvailable" "snap_wal_position s = w" for s
    using that(3) by (intro wal_retained_take [OF wf that(1,2) ret]) (simp_all cong: option.case_cong)
  then show ?thesis using ret
    by (auto simp: CreateSnapshot apply_CreateSnapshot_def Let_def split: option.splits sum.splits)
next
  case (DeleteSnapshot i)
  then show ?thesis
    using ret wal_retained_min by (auto simp: apply_DeleteSnapshot_def Let_def split: option.splits)
next
  case (DeleteVolume i cascade t)
  have "wal_retained (put_volume i v (cascade_delete_snapshots ids (sm_storage sm)))" for v ids
    using wal_retained_min wal_retained_frame [of "put_volume i v (cascade_delete_snapshots ids (sm_storage sm))"
        "cascade_delete_snapshots ids (sm_storage sm)"]
    by (simp add: cascade_delete_snapshots_def Let_def)
  moreover have "wal_retained (put_volume i v (sm_storage sm))" for v
    using ret wal_retained_frame [of "put_volume i v (sm_storage sm)" "sm_storage sm"] by simp
  ultimately show ?thesis
    using ret by (auto simp: DeleteVolume apply_DeleteVolume_def Let_def split: option.splits)
next
  case (GcCompleteWalSegments p)
  then show ?thesis
    using ret ack
    by (auto simp: apply_GcCompleteWalSegments_def Let_def wal_retained_def wal_ack_ok_def list_all_iff
          live_wal_positions_def split: option.splits)
qed (use ret wal_retained_frame [OF wal_stays(1,2), of cmd c sm] in \<open>simp_all add: moves_wal_def\<close>)

end
