(* ===== verification/Storage_Replica.thy ===== *)
theory Storage_Replica
  imports Snapshot_Gc
begin

text \<open>
  The storage commands as a whole: the redb tables follow the in-memory volumes
  (\<open>synced\<close>), a refused command changes nothing, and the outcome depends on the replicated
  state and the command alone, not on the node that executes it.
\<close>

section \<open>The read copy of the volumes\<close>

definition synced :: "'a storage_sm_scheme \<Rightarrow> bool" where
  "synced sm \<longleftrightarrow>
     (case sm_storage_store sm of
        None \<Rightarrow> True
      | Some store \<Rightarrow> store_agrees (volume_at sm) store)"

lemma synced_update [simp]:
  "st_volumes (f (sm_storage sm)) = st_volumes (sm_storage sm) \<Longrightarrow>
   synced (sm_storage_update f sm) \<longleftrightarrow> synced sm"
  by (simp add: synced_def split: option.split)

lemma sync_delete_update:
  "sync_volume_delete_from_store i (sm_storage_update f sm) =
   sm_storage_update f (sync_volume_delete_from_store i sm)"
  by (simp add: sync_volume_delete_from_store_def split: option.splits)

lemma synced_commit:
  assumes "synced sm" "vol_id v = i" "\<And>w. volume_at sm i = Some w \<Longrightarrow> vol_env_id w = vol_env_id v"
  shows "synced (commit_volume c i v sm)"
proof (cases "sm_storage_store sm")
  case (Some store)
  have "hget (hinsert i v (st_volumes (sm_storage sm))) = (volume_at sm)(i \<mapsto> v)"
    by (simp add: fun_eq_iff)
  then show ?thesis
    using assms Some store_agrees_sync [of "volume_at sm" store v c]
    by (simp add: synced_def commit_volume_def sync_volume_to_store_def put_volume_def)
qed (simp add: synced_def commit_volume_def sync_volume_to_store_def)

lemma synced_purge:
  assumes "synced sm"
  shows "synced (fst (apply_PurgeTombstones now age sm))"
proof -
  have "synced (fold sync_volume_delete_from_store ids
      (sm_storage_update (\<lambda>st. st\<lparr>st_volumes := fold hremove ids (st_volumes st)\<rparr>) sm))" for ids
    using assms
  proof (induction ids arbitrary: sm)
    case (Cons i ids)
    let ?d = "\<lambda>sm. sm_storage_update (\<lambda>st. st\<lparr>st_volumes := hremove i (st_volumes st)\<rparr>) sm"
    have one: "synced (sync_volume_delete_from_store i (?d sm))"
    proof (cases "sm_storage_store sm")
      case (Some store)
      have "hget (hremove i (st_volumes (sm_storage sm))) = (volume_at sm)(i := None)"
        by (simp add: fun_eq_iff)
      then show ?thesis
        using Cons.prems Some store_agrees_sync_delete [of "volume_at sm" store i]
        by (simp add: synced_def sync_volume_delete_from_store_def)
    qed (simp add: synced_def sync_volume_delete_from_store_def)
    from Cons.IH [OF one] show ?case by (simp add: sync_delete_update o_def)
  qed simp
  then show ?thesis by (simp add: apply_PurgeTombstones_def Let_def)
qed

lemma synced_apply:
  assumes syn: "synced sm" and ok: "volumes_ok (sm_storage sm)"
  shows "synced (exec_storage x sm)"
proof -
  have id: "vol_id w = i" if "volume_at sm i = Some w" for i w
    using volumes_okD(2) [OF ok that] by (simp add: volume_ok_def)
  show ?thesis
  proof (cases "snd x")
    case (PurgeTombstones now age)
    then show ?thesis using synced_purge [OF syn] by simp
  next
    case (SetStorageConfig r z cfg)
    then show ?thesis
      using syn by (auto simp: handler_defs sync_storage_config_to_store_def synced_def Let_def
          split: option.splits sum.splits)
  next
    case (SetStorageQuota sc a b d)
    then show ?thesis
      using syn by (auto simp: handler_defs sync_quota_to_store_def synced_def Let_def split: option.splits)
  qed (use syn id in \<open>auto simp: handler_defs Let_def tombstone_def new_volume_def
         split: option.splits sum.splits prod.splits intro!: synced_commit\<close>)
qed

section \<open>Refusals and determinism\<close>

lemma sm_storage_commit [simp]:
  "sm_storage (commit_volume c i v sm) = put_volume i v (sm_storage sm)"
  by (simp add: commit_volume_def)

lemma storage_refused:
  assumes "is_error (snd (apply_storage c cmd sm))"
  shows "fst (apply_storage c cmd sm) = sm"
  using assms
  by (cases cmd)
     (simp_all add: handler_defs Let_def split: option.split_asm sum.split_asm if_split_asm prod.split_asm, auto)

lemma sm_storage_sync_fold [simp]:
  "sm_storage (fold sync_volume_delete_from_store ids sm) = sm_storage sm"
  by (induction ids arbitrary: sm) simp_all

lemmas push_outcome =
  if_distrib [of fst] if_distrib [of snd] if_distrib [of sm_storage]
  option.case_distrib [of fst] option.case_distrib [of snd] option.case_distrib [of sm_storage]
  sum.case_distrib [of fst] sum.case_distrib [of snd] sum.case_distrib [of sm_storage]
  prod.case_distrib [of fst] prod.case_distrib [of snd] prod.case_distrib [of sm_storage]

lemma storage_deterministic:
  assumes "sm_storage (sm :: 'a storage_sm_scheme) = sm_storage (sm' :: 'b storage_sm_scheme)"
  shows "sm_storage (fst (apply_storage c cmd sm)) = sm_storage (fst (apply_storage c' cmd sm'))"
    and "snd (apply_storage c cmd sm) = snd (apply_storage c' cmd sm')"
  by (cases cmd; simp add: handler_defs Let_def push_outcome assms split del: if_split cong: if_cong option.case_cong sum.case_cong prod.case_cong)+

end
