(* ===== verification/Storage_Properties.thy ===== *)
theory Storage_Properties
  imports Storage_Replica
begin

text \<open>
  Properties of the storage commands, one command at a time.  The properties of whole logs
  are in \<open>Machine_Properties\<close>.
\<close>

section \<open>A sample replica\<close>

definition sample_ctx :: node_ctx where
  "sample_ctx =
     \<lparr>ctx_now = 1700000000, ctx_millis = 0, ctx_pid = 1, ctx_hex = (\<lambda>_. ''0''),
      ctx_net = \<lparr>net_parse = (\<lambda>_. None), net_to_string = (\<lambda>_. []), net_network = fst,
                 net_broadcast = fst, net_contains = (\<lambda>_ _. False)\<rparr>,
      ctx_rule_hash = (\<lambda>_. 0)\<rparr>"

definition sample_volume :: volume_record where
  "sample_volume =
     (new_volume ''v1'' ''data'' 10 ''o'' ''p'' ''e'' Data None 1 None)
       \<lparr>vol_state := VolAttached, vol_attached_vm_id := Some ''vm'',
        vol_attached_hypervisor_id := Some ''h1''\<rparr>"

definition sample_sm :: storage_sm where
  "sample_sm =
     \<lparr>sm_storage = empty_storage_state\<lparr>st_volumes := [(''v1'', sample_volume)]\<rparr>,
      sm_storage_store = None\<rparr>"

section \<open>Properties\<close>

definition may_commit :: "string \<Rightarrow> u64 \<Rightarrow> u64 \<Rightarrow> string \<Rightarrow> storage_state \<Rightarrow> bool" where
  "may_commit i g n h st \<longleftrightarrow>
     (case hget (st_volumes st) i of
        None \<Rightarrow> False
      | Some v \<Rightarrow>
          vol_state v = VolAttached \<and> vol_placement_generation v = g \<and>
          (case vol_attached_hypervisor_id v of None \<Rightarrow> h = [] | Some a \<Rightarrow> h = a) \<and>
          n = last_manifest_version i st + 1)"


text \<open>
  C21: A storage command that is answered with an error leaves the whole replica as it was,
  the in-memory state and the redb tables alike.
\<close>

theorem storage_error_changes_nothing:
  assumes "is_error (snd (apply_storage c cmd sm))"
  shows "fst (apply_storage c cmd sm) = sm"
  by (rule storage_refused [OF assms])

theorem storage_error_changes_nothing_witness:
  "is_error (snd (apply_storage sample_ctx (VolumeAttach ''v1'' ''vm2'' ''h2'') sample_sm)) \<and>
   fst (apply_storage sample_ctx (VolumeAttach ''v1'' ''vm2'' ''h2'') sample_sm) = sample_sm"
proof
  show e: "is_error (snd (apply_storage sample_ctx (VolumeAttach ''v1'' ''vm2'' ''h2'') sample_sm))"
    by (simp add: apply_VolumeAttach_def sample_sm_def sample_volume_def)
  show "fst (apply_storage sample_ctx (VolumeAttach ''v1'' ''vm2'' ''h2'') sample_sm) = sample_sm"
    by (rule storage_error_changes_nothing [OF e])
qed

end
