(* ===== verification/Cidr.thy ===== *)
theory Cidr
  imports Org_Types
begin

text \<open>
  Address blocks: the CIDR helpers of \<^verbatim>\<open>layers/org/src/vpc.rs\<close> and the subnet allocator
  \<^verbatim>\<open>OrgStore::auto_allocate_subnet_cidr\<close> of \<^verbatim>\<open>layers/org/src/store.rs\<close>.

  The crate \<^verbatim>\<open>ipnet\<close> is a parameter (\<open>ipnet_lib\<close>); \<open>ipnet_ok\<close> collects its documented
  behaviour, and \<open>ipnet_ref\<close> is an implementation that has it.  Under \<open>ipnet_ok\<close> the
  overlap test of the code is the test whether two blocks share an address, and the
  allocators return the first free block and fail only when there is none.
\<close>

section \<open>Validation and overlap\<close>

definition PRIVATE_RANGES :: "ipv4net list" where
  "PRIVATE_RANGES = [(Ipv4 10 0 0 0, 8), (Ipv4 172 16 0 0, 12), (Ipv4 192 168 0 0, 16)]"

definition is_private_range :: "ipnet_lib \<Rightarrow> ipv4net \<Rightarrow> bool" where
  "is_private_range lib net \<longleftrightarrow>
     list_ex (\<lambda>private. net_contains lib private (net_network lib net) \<and>
                        net_contains lib private (net_broadcast lib net)) PRIVATE_RANGES"

definition parse_and_validate_cidr :: "ipnet_lib \<Rightarrow> string \<Rightarrow> ipv4net org_result" where
  "parse_and_validate_cidr lib s =
     (case net_parse lib s of
        None \<Rightarrow> Inl (InvalidCidr (quoted s @ '': invalid CIDR format''))
      | Some net \<Rightarrow>
          let prefix_len = net_prefix_len net
          in if \<not> (8 \<le> prefix_len \<and> prefix_len \<le> 28)
             then Inl (InvalidCidr (quoted s @ '': prefix length must be between 8 and 28, got '' @
                         show_nat (unat prefix_len)))
             else if net_addr net \<noteq> net_network lib net
             then Inl (InvalidCidr (quoted s @ '': address has host bits set; did you mean '' @
                         net_to_string lib (net_network lib net, prefix_len) @ ''?''))
             else if \<not> is_private_range lib net
             then Inl (InvalidCidr (quoted s @ '': CIDR must be within a private range '' @
                         ''(10.0.0.0/8, 172.16.0.0/12, or 192.168.0.0/16)''))
             else Inr net)"

definition cidrs_overlap :: "ipnet_lib \<Rightarrow> ipv4net \<Rightarrow> ipv4net \<Rightarrow> bool" where
  "cidrs_overlap lib a b \<longleftrightarrow>
     net_contains lib a (net_network lib b) \<or> net_contains lib b (net_network lib a)"

definition overlaps_any :: "ipnet_lib \<Rightarrow> ipv4net list \<Rightarrow> ipv4net \<Rightarrow> bool" where
  "overlaps_any lib existing candidate \<longleftrightarrow> list_ex (cidrs_overlap lib candidate) existing"

section \<open>Allocators of the VPC store\<close>

definition octet_range :: "nat \<Rightarrow> u8 list" where
  "octet_range a = map of_nat [a..<256]"

definition auto_allocate_cidr :: "ipnet_lib \<Rightarrow> ipv4net list \<Rightarrow> ipv4net org_result" where
  "auto_allocate_cidr lib existing =
     (case find (\<lambda>candidate. \<not> overlaps_any lib existing candidate)
             (map (\<lambda>second_octet. (Ipv4 10 second_octet 0 0, 16)) (octet_range 0)) of
        Some candidate \<Rightarrow> Inr candidate
      | None \<Rightarrow> Inl CidrExhausted)"

definition subnet_candidate :: "ipnet_lib \<Rightarrow> ipv4net \<Rightarrow> nat \<Rightarrow> ipv4net" where
  "subnet_candidate lib vpc_net i =
     (ipv4_of_u32 (ipv4_to_u32 (net_network lib vpc_net) + of_nat (i * 256)), 24)"

definition vpc_auto_allocate_subnet_cidr ::
    "ipnet_lib \<Rightarrow> ipv4net \<Rightarrow> ipv4net list \<Rightarrow> ipv4net org_result" where
  "vpc_auto_allocate_subnet_cidr lib vpc_net existing =
     (let vpc_prefix = net_prefix_len vpc_net
      in if vpc_prefix > 24
         then Inl (InvalidCidr ''VPC CIDR is smaller than /24, cannot allocate subnets'')
         else case find (\<lambda>candidate. net_contains lib vpc_net (net_network lib candidate) \<and>
                                     \<not> overlaps_any lib existing candidate)
                     (map (subnet_candidate lib vpc_net) [0..<2 ^ (24 - unat vpc_prefix)]) of
           Some candidate \<Rightarrow> Inr candidate
         | None \<Rightarrow> Inl CidrExhausted)"

definition validate_subnet_cidr ::
    "ipnet_lib \<Rightarrow> string \<Rightarrow> ipv4net \<Rightarrow> ipv4net list \<Rightarrow> ipv4net org_result" where
  "validate_subnet_cidr lib s vpc_net existing =
     (case parse_and_validate_cidr lib s of
        Inl e \<Rightarrow> Inl e
      | Inr net \<Rightarrow>
          let prefix = net_prefix_len net
          in if \<not> (24 \<le> prefix \<and> prefix \<le> 28) then Inl (SubnetPrefixLength 24 28 prefix)
             else if \<not> net_contains lib vpc_net (net_network lib net) \<or>
                     \<not> net_contains lib vpc_net (net_broadcast lib net)
             then Inl (SubnetOutsideVpc (net_to_string lib net) (net_to_string lib vpc_net))
             else case find (cidrs_overlap lib net) existing of
               Some e \<Rightarrow> Inl (SubnetOverlap (net_to_string lib net) (net_to_string lib e))
             | None \<Rightarrow> Inr net)"

section \<open>The subnet allocator of the org store\<close>

text \<open>
  The loop \<^verbatim>\<open>while addr <= net_end { ...; addr += 256 }\<close>.  The counter is a natural number:
  on the networks the store admits, the 32-bit addition of the source does not wrap
  (lemma \<open>scan_no_wrap\<close>).
\<close>

function scan_blocks :: "(nat \<Rightarrow> ipv4net option) \<Rightarrow> nat \<Rightarrow> nat \<Rightarrow> ipv4net option" where
  "scan_blocks accept net_end addr =
     (if addr \<le> net_end
      then case accept addr of
             Some candidate \<Rightarrow> Some candidate
           | None \<Rightarrow> scan_blocks accept net_end (addr + 256)
      else None)"
  by pat_completeness auto
termination by (relation "measure (\<lambda>(_, net_end, addr). Suc net_end - addr)") auto

declare scan_blocks.simps [simp del]

definition block_at :: "nat \<Rightarrow> ipv4net" where
  "block_at addr = (ipv4_of_u32 (of_nat addr), 24)"

text \<open>The three arms of the match on the prefix length of the VPC.\<close>

definition candidates_8 :: "u8 \<Rightarrow> u8 \<Rightarrow> ipv4net list" where
  "candidates_8 o1 o2 =
     concat (map (\<lambda>b. map (\<lambda>c. (Ipv4 o1 b c 0, 24)) (octet_range 0)) (octet_range (unat o2)))"

definition allocate_8 :: "ipnet_lib \<Rightarrow> ipv4net \<Rightarrow> ipv4net list \<Rightarrow> ipv4net option" where
  "allocate_8 lib vpc_net existing =
     (case net_network lib vpc_net of
        Ipv4 o1 o2 _ _ \<Rightarrow> find (\<lambda>candidate. \<not> overlaps_any lib existing candidate) (candidates_8 o1 o2))"

definition allocate_9_16 :: "ipnet_lib \<Rightarrow> ipv4net \<Rightarrow> ipv4net list \<Rightarrow> ipv4net option" where
  "allocate_9_16 lib vpc_net existing =
     scan_blocks
       (\<lambda>addr. let candidate = block_at addr
               in if net_contains lib vpc_net (net_network lib candidate) \<and>
                     net_contains lib vpc_net (net_broadcast lib candidate) \<and>
                     \<not> overlaps_any lib existing candidate
                  then Some candidate else None)
       (unat (ipv4_to_u32 (net_broadcast lib vpc_net))) (unat (ipv4_to_u32 (net_network lib vpc_net)))"

definition allocate_17_24 :: "ipnet_lib \<Rightarrow> ipv4net \<Rightarrow> ipv4net list \<Rightarrow> ipv4net option" where
  "allocate_17_24 lib vpc_net existing =
     (let net_end = unat (ipv4_to_u32 (net_broadcast lib vpc_net))
      in scan_blocks
           (\<lambda>addr. let candidate = block_at addr
                   in if unat (ipv4_to_u32 (net_broadcast lib candidate)) \<le> net_end \<and>
                         \<not> overlaps_any lib existing candidate
                      then Some candidate else None)
           net_end (unat (ipv4_to_u32 (net_network lib vpc_net))))"

definition auto_allocate_subnet_cidr ::
    "ipnet_lib \<Rightarrow> ipv4net \<Rightarrow> ipv4net list \<Rightarrow> ipv4net org_result" where
  "auto_allocate_subnet_cidr lib vpc_net existing =
     (let vpc_prefix = net_prefix_len vpc_net;
          found =
            (if vpc_prefix = 8 then allocate_8 lib vpc_net existing
             else if 9 \<le> vpc_prefix \<and> vpc_prefix \<le> 16 then allocate_9_16 lib vpc_net existing
             else if 17 \<le> vpc_prefix \<and> vpc_prefix \<le> 24 then allocate_17_24 lib vpc_net existing
             else None)
      in case found of
           Some candidate \<Rightarrow> Inr candidate
         | None \<Rightarrow> Inl (SubnetCidrExhausted (net_to_string lib vpc_net)))"

definition compute_gateway :: "ipnet_lib \<Rightarrow> ipv4net \<Rightarrow> ipv4" where
  "compute_gateway lib cidr = (case net_network lib cidr of Ipv4 a b c _ \<Rightarrow> Ipv4 a b c 1)"

section \<open>What the code relies on of the crate\<close>

text \<open>A block of prefix length \<open>p\<close> is the \<open>2 ^ (32 - p)\<close> addresses that share the first
  \<open>p\<close> bits with the address it was written with.\<close>

definition addr_nat :: "ipv4 \<Rightarrow> nat" where
  "addr_nat a = unat (ipv4_to_u32 a)"

definition block_size :: "ipv4net \<Rightarrow> nat" where
  "block_size net = 2 ^ (32 - unat (net_prefix_len net))"

definition block_first :: "ipv4net \<Rightarrow> nat" where
  "block_first net = addr_nat (net_addr net) div block_size net * block_size net"

definition block :: "ipv4net \<Rightarrow> nat set" where
  "block net = {block_first net ..< block_first net + block_size net}"

definition ipnet_ok :: "ipnet_lib \<Rightarrow> bool" where
  "ipnet_ok lib \<longleftrightarrow>
     (\<forall>s net. net_parse lib s = Some net \<longrightarrow> net_prefix_len net \<le> 32) \<and>
     (\<forall>net. net_prefix_len net \<le> 32 \<longrightarrow>
        net_parse lib (net_to_string lib net) = Some net \<and>
        addr_nat (net_network lib net) = block_first net \<and>
        addr_nat (net_broadcast lib net) = block_first net + block_size net - 1 \<and>
        (\<forall>a. net_contains lib net a \<longleftrightarrow> addr_nat a \<in> block net))"

definition ipnet_ref :: ipnet_lib where
  "ipnet_ref =
     \<lparr>net_parse = (\<lambda>s. case split_once CHR ''/'' s of
                      None \<Rightarrow> None
                    | Some (a, p) \<Rightarrow>
                        (case (parse_ipv4 a, parse_nat 32 p) of
                           (Some ip, Some n) \<Rightarrow> Some (ip, of_nat n)
                         | _ \<Rightarrow> None)),
      net_to_string = (\<lambda>(a, p). ipv4_to_string a @ ''/'' @ show_nat (unat p)),
      net_network = (\<lambda>net. ipv4_of_u32 (of_nat (block_first net))),
      net_broadcast = (\<lambda>net. ipv4_of_u32 (of_nat (block_first net + block_size net - 1))),
      net_contains = (\<lambda>net a. block_first net \<le> addr_nat a \<and> addr_nat a < block_first net + block_size net)\<rparr>"


section \<open>Addresses as numbers\<close>

lemma addr_nat_Ipv4:
  "addr_nat (Ipv4 a b c d) = unat a * 2 ^ 24 + unat b * 2 ^ 16 + unat c * 2 ^ 8 + unat d"
proof -
  have lt: "unat x < 256" for x :: u8 using unsigned_less [of x] by simp
  have u: "ucast x = (of_nat (unat x) :: u32)" for x :: u8 by simp
  have "ipv4_to_u32 (Ipv4 a b c d) =
      of_nat (unat a * 2 ^ 24 + unat b * 2 ^ 16 + unat c * 2 ^ 8 + unat d)"
    by (simp only: ipv4_to_u32.simps u of_nat_add of_nat_mult of_nat_power of_nat_numeral)
  moreover have "unat a * 2 ^ 24 + unat b * 2 ^ 16 + unat c * 2 ^ 8 + unat d < 2 ^ 32"
    using lt [of a] lt [of b] lt [of c] lt [of d] by simp
  ultimately show ?thesis
    unfolding addr_nat_def by (simp only: unat_of_nat take_bit_nat_eq_self_iff) (simp add: take_bit_nat_eq_self_iff)
qed

lemma addr_nat_less: "addr_nat a < 2 ^ 32"
  unfolding addr_nat_def using unsigned_less [of "ipv4_to_u32 a"] by simp

lemma addr_nat_of_nat:
  assumes "n < 2 ^ 32" shows "addr_nat (ipv4_of_u32 (of_nat n)) = n"
proof -
  have "unat (of_nat n :: u32) = n" using assms by (simp add: unat_of_nat take_bit_nat_eq_self_iff)
  moreover have "n div 2 ^ 24 < 256" using assms by simp
  moreover have "n div 2 ^ 24 * 2 ^ 24 + n div 2 ^ 16 mod 256 * 2 ^ 16 + n div 2 ^ 8 mod 256 * 2 ^ 8 + n mod 256 = n"
  proof -
    have "n div 2 ^ 16 = n div 256 div 256" "n div 2 ^ 24 = n div 256 div 256 div 256"
      by (simp_all flip: div_mult2_eq)
    moreover have "m div 256 * 256 + m mod 256 = m" for m :: nat by simp
    from this [of n] this [of "n div 256"] this [of "n div 256 div 256"]
    have "n div 256 div 256 div 256 * 16777216 + n div 256 div 256 mod 256 * 65536 +
        n div 256 mod 256 * 256 + n mod 256 = n" by linarith
    ultimately show ?thesis by simp
  qed
  ultimately show ?thesis
    by (simp add: ipv4_of_u32_def addr_nat_Ipv4 unat_of_nat take_bit_nat_eq_self_iff)
qed

lemma addr_nat_inject: "addr_nat a = addr_nat b \<Longrightarrow> a = b"
proof (cases a; cases b)
  fix a1 a2 a3 a4 b1 b2 b3 b4
  assume eq: "addr_nat a = addr_nat b" and ab: "a = Ipv4 a1 a2 a3 a4" "b = Ipv4 b1 b2 b3 b4"
  have lt: "unat x < 256" for x :: u8 using unsigned_less [of x] by simp
  note b = lt [of a2] lt [of a3] lt [of a4] lt [of b2] lt [of b3] lt [of b4]
  have 1: "unat a1 = unat b1" using eq b by (simp add: ab addr_nat_Ipv4)
  then have 2: "unat a2 = unat b2" using eq b by (simp add: ab addr_nat_Ipv4)
  with 1 have 3: "unat a3 = unat b3" using eq b by (simp add: ab addr_nat_Ipv4)
  with 1 2 have "unat a4 = unat b4" using eq b by (simp add: ab addr_nat_Ipv4)
  with 1 2 3 have "unat a1 = unat b1 \<and> unat a2 = unat b2 \<and> unat a3 = unat b3 \<and> unat a4 = unat b4" by simp
  then show "a = b" by (simp add: ab word_unat_eq_iff)
qed

section \<open>Blocks\<close>

lemma block_size_pos [simp]: "0 < block_size net"
  by (simp add: block_size_def)

lemma in_block_iff: "x \<in> block net \<longleftrightarrow> x div block_size net = addr_nat (net_addr net) div block_size net"
proof -
  have "s * q \<le> x \<and> x < s * q + s \<longleftrightarrow> x div s = q" if "0 < s" for s q :: nat
    using that by (auto simp: div_nat_eqI mult.commute) (metis mult.commute mult_Suc_right add.commute
        dividend_less_div_times times_div_less_eq_dividend)+
  then show ?thesis by (simp add: block_def block_first_def mult.commute)
qed

lemma block_first_in [simp]: "block_first net \<in> block net"
  by (simp add: block_def)

lemma block_nested:
  assumes le: "net_prefix_len b \<le> net_prefix_len a" and x: "x \<in> block a"
  shows "block_first a \<in> block b \<longleftrightarrow> x \<in> block b"
proof -
  let ?sa = "block_size a" and ?sb = "block_size b"
  have "?sa dvd ?sb" using le by (auto simp: block_size_def word_le_nat_alt intro!: le_imp_power_dvd)
  then obtain k where k: "?sb = ?sa * k" by (auto elim: dvdE)
  have "block_first a div ?sb = x div ?sb"
    using x by (simp add: k block_first_def in_block_iff div_mult2_eq)
  then show ?thesis by (simp add: in_block_iff)
qed

lemma block_last_less: "block_first net + block_size net \<le> 2 ^ 32"
proof -
  have "block_size net dvd 2 ^ 32" unfolding block_size_def by (rule le_imp_power_dvd) simp
  then obtain k where k: "2 ^ 32 = block_size net * k" unfolding dvd_def by blast
  let ?s = "block_size net"
  have "addr_nat (net_addr net) div ?s < k"
    using addr_nat_less [of "net_addr net"] unfolding k by (simp add: div_less_iff_less_mult mult.commute)
  then have "(addr_nat (net_addr net) div ?s + 1) * ?s \<le> k * ?s" by (intro mult_right_mono) auto
  then show ?thesis unfolding k block_first_def by (simp add: mult.commute)
qed

lemma ipnet_okD:
  assumes "ipnet_ok lib"
  shows "net_parse lib s = Some net \<Longrightarrow> net_prefix_len net \<le> 32"
    and "net_prefix_len net \<le> 32 \<Longrightarrow> net_parse lib (net_to_string lib net) = Some net"
    and "net_prefix_len net \<le> 32 \<Longrightarrow> addr_nat (net_network lib net) = block_first net"
    and "net_prefix_len net \<le> 32 \<Longrightarrow> addr_nat (net_broadcast lib net) = block_first net + block_size net - 1"
    and "net_prefix_len net \<le> 32 \<Longrightarrow> net_contains lib net a \<longleftrightarrow> addr_nat a \<in> block net"
  using assms unfolding ipnet_ok_def by blast+

lemma cidrs_overlap_iff:
  assumes ok: "ipnet_ok lib" and a: "net_prefix_len a \<le> 32" and b: "net_prefix_len b \<le> 32"
  shows "cidrs_overlap lib a b \<longleftrightarrow> block a \<inter> block b \<noteq> {}"
proof -
  have "cidrs_overlap lib a b \<longleftrightarrow> block_first b \<in> block a \<or> block_first a \<in> block b"
    using ipnet_okD [OF ok] a b by (simp add: cidrs_overlap_def)
  moreover have "block_first b \<in> block a \<or> block_first a \<in> block b" if "x \<in> block a" "x \<in> block b" for x
    using block_nested [of a b x] block_nested [of b a x] that linear by blast
  ultimately show ?thesis using block_first_in by blast
qed

lemma ipnet_ok_ref: "ipnet_ok ipnet_ref"
proof -
  have "net_prefix_len net \<le> 32" if p: "net_parse ipnet_ref s = Some net" for s net
  proof -
    obtain a t n where "net = (a, of_nat n)" "parse_nat 32 t = Some n"
      using p by (auto simp: ipnet_ref_def split: option.splits prod.splits)
    then show ?thesis
      by (auto simp: parse_nat_def Let_def word_le_nat_alt unat_of_nat take_bit_nat_eq_self_iff split: if_splits)
  qed
  moreover have "net_parse ipnet_ref (net_to_string ipnet_ref net) = Some net"
    if "net_prefix_len net \<le> 32" for net
    using that parse_ipv4_no_slash [OF parse_ipv4_to_string]
    by (cases net) (simp add: ipnet_ref_def word_le_nat_alt)
  moreover have "addr_nat (net_network ipnet_ref net) = block_first net \<and>
      addr_nat (net_broadcast ipnet_ref net) = block_first net + block_size net - 1"
    if "net_prefix_len net \<le> 32" for net
  proof -
    have "block_first net < 2 ^ 32" "block_first net + block_size net - 1 < 2 ^ 32"
      using block_last_less [of net] block_size_pos [of net] by linarith+
    then show ?thesis by (simp add: ipnet_ref_def addr_nat_of_nat)
  qed
  moreover have "net_contains ipnet_ref net a \<longleftrightarrow> addr_nat a \<in> block net" for net a
    by (simp add: ipnet_ref_def block_def)
  ultimately show ?thesis unfolding ipnet_ok_def by blast
qed

section \<open>The allocators\<close>

lemma scan_blocks_Some:
  assumes "scan_blocks f e a = Some c"
  obtains k where "a + 256 * k \<le> e" "f (a + 256 * k) = Some c" "\<And>j. j < k \<Longrightarrow> f (a + 256 * j) = None"
  using assms
proof (induction f e a arbitrary: thesis rule: scan_blocks.induct)
  case (1 f e a)
  show ?case
  proof (cases "f a")
    case (Some d)
    with 1(3) have "a \<le> e" "d = c" by (auto simp: scan_blocks.simps [of f e a] split: if_splits)
    then show ?thesis using Some 1(2) [of 0] by simp
  next
    case None
    with 1(3) have "a \<le> e" and rest: "scan_blocks f e (a + 256) = Some c"
      by (auto simp: scan_blocks.simps [of f e a] split: if_splits)
    then obtain k where k: "a + 256 + 256 * k \<le> e" "f (a + 256 + 256 * k) = Some c"
        "\<And>j. j < k \<Longrightarrow> f (a + 256 + 256 * j) = None"
      using 1(1) [OF _ None] by blast
    have "f (a + 256 * j) = None" if "j < Suc k" for j
      using None k(3) [of "j - 1"] that by (cases j) (simp_all add: add.assoc)
    then show ?thesis using 1(2) [of "Suc k"] k(1,2) by (simp add: add.assoc)
  qed
qed

lemma scan_blocks_None:
  "scan_blocks f e a = None \<Longrightarrow> a + 256 * k \<le> e \<Longrightarrow> f (a + 256 * k) = None"
proof (induction f e a arbitrary: k rule: scan_blocks.induct)
  case (1 f e a)
  from 1(3) have "a \<le> e" by simp
  with 1(2) have none: "f a = None" "scan_blocks f e (a + 256) = None"
    by (auto simp: scan_blocks.simps [of f e a] split: option.splits)
  show ?case
  proof (cases k)
    case (Suc j)
    then show ?thesis using 1(1) [OF \<open>a \<le> e\<close> none(1) none(2), of j] 1(3) by (simp add: add.assoc)
  qed (simp add: none)
qed

definition free_in :: "ipv4net \<Rightarrow> ipv4net list \<Rightarrow> ipv4net \<Rightarrow> bool" where
  "free_in vpc_net existing c \<longleftrightarrow>
     net_prefix_len c = 24 \<and> block c \<subseteq> block vpc_net \<and> (\<forall>e\<in>set existing. block c \<inter> block e = {})"

lemma overlaps_any_iff:
  assumes "ipnet_ok lib" "net_prefix_len c \<le> 32" "\<forall>e\<in>set existing. net_prefix_len e \<le> 32"
  shows "overlaps_any lib existing c \<longleftrightarrow> (\<exists>e\<in>set existing. block c \<inter> block e \<noteq> {})"
  using assms cidrs_overlap_iff [OF assms(1,2)] by (auto simp: overlaps_any_def list_ex_iff)

lemma block_24: "net_prefix_len c = 24 \<Longrightarrow> block_size c = 256"
  by (simp add: block_size_def)

lemma block_subset_iff:
  assumes "net_prefix_len v \<le> net_prefix_len c"
  shows "block c \<subseteq> block v \<longleftrightarrow> block_first c \<in> block v"
  using block_nested [OF assms] block_first_in [of c] by blast

lemma block_at_first:
  assumes "256 dvd n" "n < 2 ^ 32"
  shows "block_first (block_at n) = n" "block (block_at n) = {n ..< n + 256}"
  using assms by (auto simp: block_def block_first_def block_size_def block_at_def addr_nat_of_nat)

lemma block_last_in: "block_first v + block_size v - 1 \<in> block v"
  using block_size_pos [of v] unfolding block_def atLeastLessThan_iff by linarith

lemma dvd_block_first: "net_prefix_len v \<le> 24 \<Longrightarrow> 256 dvd block_first v \<and> 256 dvd block_size v"
proof -
  assume "net_prefix_len v \<le> 24"
  then have "unat (net_prefix_len v) \<le> 24" by (simp add: word_le_nat_alt)
  then have "(2 :: nat) ^ 8 dvd 2 ^ (32 - unat (net_prefix_len v))" by (intro le_imp_power_dvd) simp
  then show ?thesis by (simp add: block_first_def block_size_def)
qed

lemma aligned_in_block:
  assumes v: "net_prefix_len v \<le> 24" and k: "256 * k < block_size v"
  shows "block (block_at (block_first v + 256 * k)) \<subseteq> block v"
proof -
  obtain f z where fz: "block_first v = 256 * f" "block_size v = 256 * z"
    using dvd_block_first [OF v] by (auto elim!: dvdE)
  have "block_first v + 256 * k < 2 ^ 32" using block_last_less [of v] k by linarith
  then show ?thesis
    using block_at_first(2) [of "block_first v + 256 * k"] k by (auto simp: fz block_def)
qed

lemma free_block_aligned:
  assumes v: "net_prefix_len v \<le> 24" and c: "net_prefix_len c = 24" "block c \<subseteq> block v"
  obtains k where "256 * k < block_size v" "block_first c = block_first v + 256 * k"
    "block c = block (block_at (block_first v + 256 * k))"
proof -
  obtain f z where fz: "block_first v = 256 * f" "block_size v = 256 * z"
    using dvd_block_first [OF v] by (auto elim!: dvdE)
  obtain g where g: "block_first c = 256 * g" using dvd_block_first [of c] c(1) by (auto elim!: dvdE)
  have "block_first c \<in> block v" using c(2) by auto
  then have "f \<le> g" "g < f + z" using g by (auto simp: fz block_def)
  then have k: "256 * (g - f) < block_size v" "block_first c = block_first v + 256 * (g - f)"
    by (simp_all add: fz g)
  moreover have "block_first c < 2 ^ 32" using block_last_less [of c] block_size_pos [of c] by linarith
  then have "block c = block (block_at (block_first v + 256 * (g - f)))"
    using block_at_first(2) [of "block_first c"] c(1) g by (simp add: k(2) [symmetric] block_def [of c] block_24)
  ultimately show thesis by (rule that)
qed

lemma free_in_cong: "block c = block d \<Longrightarrow> net_prefix_len c = net_prefix_len d \<Longrightarrow> free_in v ex c = free_in v ex d"
  by (simp add: free_in_def)

lemma scan_free:
  assumes v: "net_prefix_len v \<le> 24" and e: "e = block_first v + block_size v - 1"
    and acc: "\<And>k. 256 * k < block_size v \<Longrightarrow>
      f (block_first v + 256 * k) =
        (let c = block_at (block_first v + 256 * k) in if free_in v ex c then Some c else None)"
  shows "scan_blocks f e (block_first v) = Some c \<Longrightarrow> free_in v ex c"
    and "scan_blocks f e (block_first v) = None \<Longrightarrow> \<not> free_in v ex c"
proof -
  have le: "block_first v + 256 * k \<le> e \<longleftrightarrow> 256 * k < block_size v" for k
    using block_size_pos [of v] unfolding e by linarith
  show "free_in v ex c" if "scan_blocks f e (block_first v) = Some c"
    using that by (rule scan_blocks_Some) (auto simp: le acc Let_def split: if_splits)
  show "\<not> free_in v ex c" if none: "scan_blocks f e (block_first v) = None"
  proof
    assume free: "free_in v ex c"
    then obtain k where k: "256 * k < block_size v" "block c = block (block_at (block_first v + 256 * k))"
      using free_block_aligned [OF v] by (metis free_in_def)
    with free have "free_in v ex (block_at (block_first v + 256 * k))"
      using free_in_cong [OF k(2)] by (simp add: free_in_def block_at_def)
    then show False
      using scan_blocks_None [OF none, of k] k(1) by (simp add: le acc Let_def)
  qed
qed

lemma octet_range_mem: "b \<in> set (octet_range a) \<longleftrightarrow> a \<le> unat b"
proof -
  have "unat b < 256" using unsigned_less [of b] by simp
  moreover have "b = of_nat (unat b)" by simp
  ultimately show ?thesis
    by (auto simp: octet_range_def image_iff unat_of_nat take_bit_nat_eq_self_iff intro!: bexI [of _ "unat b"])
qed

text \<open>The candidates of a \<^verbatim>\<open>/8\<close> are its \<^verbatim>\<open>/24\<close> blocks.\<close>

lemma candidates_8_blocks:
  assumes v: "net_prefix_len v = 8" and n: "addr_nat n = block_first v" "n = Ipv4 o1 o2 o3 o4"
  shows "c \<in> set (candidates_8 o1 o2)
           \<Longrightarrow> net_prefix_len c = 24 \<and> block c \<subseteq> block v"
    and "\<lbrakk>net_prefix_len d = 24; block d \<subseteq> block v\<rbrakk> \<Longrightarrow>
           \<exists>c\<in>set (candidates_8 o1 o2).
             block c = block d"
proof -
  have lt: "unat x < 256" for x :: u8 using unsigned_less [of x] by simp
  have sz: "block_size v = 2 ^ 24" by (simp add: block_size_def v)
  then have "2 ^ 24 dvd addr_nat n" by (simp add: n(1) block_first_def)
  then have "2 ^ 24 dvd unat o2 * 2 ^ 16 + unat o3 * 2 ^ 8 + unat o4"
    by (simp add: n(2) addr_nat_Ipv4 add.assoc dvd_add_right_iff)
  moreover have "unat o2 * 2 ^ 16 + unat o3 * 2 ^ 8 + unat o4 < 2 ^ 24"
    using lt [of o2] lt [of o3] lt [of o4] by simp
  ultimately have "unat o2 * 2 ^ 16 + unat o3 * 2 ^ 8 + unat o4 = 0"
    using nat_dvd_not_less by blast
  then have o2: "unat o2 = 0" and first: "block_first v = unat o1 * 2 ^ 24"
    using n by (simp_all add: addr_nat_Ipv4)
  have mem: "x \<in> block v \<longleftrightarrow> x div 2 ^ 24 = unat o1" for x
    using first in_block_iff [of x v] by (simp add: sz block_first_def)
  show "net_prefix_len c = 24 \<and> block c \<subseteq> block v"
    if "c \<in> set (candidates_8 o1 o2)"
  proof -
    from that obtain b d where c: "c = (Ipv4 o1 b d 0, 24)" by (auto simp: candidates_8_def)
    have "block_first c = unat o1 * 2 ^ 24 + unat b * 2 ^ 16 + unat d * 2 ^ 8"
      by (simp add: c block_first_def block_size_def addr_nat_Ipv4)
    then have "block_first c \<in> block v" using lt [of b] lt [of d] by (simp add: mem)
    then show ?thesis using block_subset_iff [of v c] v c by simp
  qed
  show "\<exists>c\<in>set (candidates_8 o1 o2).
             block c = block d"
    if d: "net_prefix_len d = 24" "block d \<subseteq> block v"
  proof -
    obtain a1 a2 a3 a4 where a: "net_addr d = Ipv4 a1 a2 a3 a4" by (cases "net_addr d")
    let ?c = "(Ipv4 a1 a2 a3 0, 24) :: ipv4net"
    have "addr_nat (Ipv4 a1 a2 a3 0) div 256 = addr_nat (net_addr d) div 256"
      using lt [of a4] by (simp add: a addr_nat_Ipv4)
    then have eq: "block ?c = block d" by (auto simp: in_block_iff block_24 d(1))
    have "addr_nat (net_addr d) \<in> block d" by (simp add: in_block_iff)
    then have "a1 = o1" using d(2) lt [of a2] lt [of a3] lt [of a4]
      by (auto simp: mem a addr_nat_Ipv4 word_unat_eq_iff)
    then have "?c \<in> set (map (\<lambda>d. (Ipv4 o1 a2 d 0, 24)) (octet_range 0))" by (simp add: octet_range_mem image_iff)
    then have "?c \<in> set (candidates_8 o1 o2)"
      unfolding candidates_8_def set_concat set_map using o2 by (intro UN_I [of "map (\<lambda>d. (Ipv4 o1 a2 d 0, 24)) (octet_range 0)"])
        (auto simp: octet_range_mem)
    with eq show ?thesis by blast
  qed
qed

definition found_free :: "ipv4net \<Rightarrow> ipv4net list \<Rightarrow> ipv4net option \<Rightarrow> bool" where
  "found_free v ex r \<longleftrightarrow> (case r of Some c \<Rightarrow> free_in v ex c | None \<Rightarrow> \<forall>c. \<not> free_in v ex c)"

lemma free_in_iff:
  assumes "ipnet_ok lib" "\<forall>e\<in>set ex. net_prefix_len e \<le> 32" "net_prefix_len d = 24"
  shows "free_in v ex d \<longleftrightarrow> block d \<subseteq> block v \<and> \<not> overlaps_any lib ex d"
  using overlaps_any_iff [OF assms(1) _ assms(2), of d] assms(3) by (auto simp: free_in_def)

lemma allocate_8_found:
  assumes ok: "ipnet_ok lib" and v: "net_prefix_len v = 8" and ex: "\<forall>e\<in>set ex. net_prefix_len e \<le> 32"
  shows "found_free v ex (allocate_8 lib v ex)"
proof -
  obtain o1 o2 o3 o4 where n: "net_network lib v = Ipv4 o1 o2 o3 o4" by (cases "net_network lib v")
  have first: "addr_nat (net_network lib v) = block_first v" using ipnet_okD(3) [OF ok, of v] v by simp
  note cand = candidates_8_blocks [OF v first n]
  show ?thesis
  proof (cases "allocate_8 lib v ex")
    case (Some c)
    then have "c \<in> set (candidates_8 o1 o2)" "\<not> overlaps_any lib ex c"
      by (auto simp: allocate_8_def n find_Some_iff)
    then show ?thesis using cand(1) [of c] free_in_iff [OF ok ex, of c v] Some by (simp add: found_free_def)
  next
    case None
    have "\<not> free_in v ex d" for d
    proof
      assume free: "free_in v ex d"
      then obtain c where c: "c \<in> set (candidates_8 o1 o2)" "block c = block d"
        using cand(2) [of d] by (auto simp: free_in_def)
      then have "free_in v ex c" using free cand(1) [of c] by (simp add: free_in_def)
      moreover have "overlaps_any lib ex c" using None c(1) by (cases c) (simp add: allocate_8_def n find_None_iff)
      ultimately show False using free_in_iff [OF ok ex, of c v] cand(1) [OF c(1)] by simp
    qed
    then show ?thesis by (simp add: found_free_def None)
  qed
qed

lemma scan_found:
  assumes ok: "ipnet_ok lib" and v: "net_prefix_len v \<le> 24"
    and acc: "\<And>k. 256 * k < block_size v \<Longrightarrow>
      f (block_first v + 256 * k) =
        (let c = block_at (block_first v + 256 * k) in if free_in v ex c then Some c else None)"
  shows "found_free v ex (scan_blocks f (unat (ipv4_to_u32 (net_broadcast lib v)))
           (unat (ipv4_to_u32 (net_network lib v))))"
proof -
  have "net_prefix_len v \<le> 32" using v by (rule order_trans) simp
  then have "unat (ipv4_to_u32 (net_network lib v)) = block_first v"
      "unat (ipv4_to_u32 (net_broadcast lib v)) = block_first v + block_size v - 1"
    using ipnet_okD(3,4) [OF ok, of v] by (simp_all add: addr_nat_def)
  then show ?thesis
    using scan_free [OF v refl acc] by (auto simp: found_free_def split: option.split)
qed

lemma allocate_9_16_found:
  assumes ok: "ipnet_ok lib" and v: "net_prefix_len v \<le> 24" and ex: "\<forall>e\<in>set ex. net_prefix_len e \<le> 32"
  shows "found_free v ex (allocate_9_16 lib v ex)"
  unfolding allocate_9_16_def
proof (rule scan_found [OF ok v])
  fix k
  let ?d = "block_at (block_first v + 256 * k)"
  have p: "net_prefix_len ?d = 24" "net_prefix_len v \<le> 32" using v by (auto simp: block_at_def intro: order_trans)
  have "net_contains lib v (net_network lib ?d) \<and> net_contains lib v (net_broadcast lib ?d) \<longleftrightarrow> block ?d \<subseteq> block v"
    using ipnet_okD(3-5) [OF ok, of ?d] ipnet_okD(5) [OF ok p(2)] block_subset_iff [of v ?d] v p(1) block_last_in [of ?d]
    by auto
  then show "(let d = ?d in if net_contains lib v (net_network lib d) \<and> net_contains lib v (net_broadcast lib d) \<and>
      \<not> overlaps_any lib ex d then Some d else None) = (let c = ?d in if free_in v ex c then Some c else None)"
    unfolding Let_def free_in_iff [OF ok ex p(1), of v] by (intro if_cong) blast+
qed

lemma allocate_17_24_found:
  assumes ok: "ipnet_ok lib" and v: "net_prefix_len v \<le> 24" and ex: "\<forall>e\<in>set ex. net_prefix_len e \<le> 32"
  shows "found_free v ex (allocate_17_24 lib v ex)"
  unfolding allocate_17_24_def Let_def [of "unat _"]
proof (rule scan_found [OF ok v])
  fix k assume k: "256 * k < block_size v"
  let ?d = "block_at (block_first v + 256 * k)"
  have p: "net_prefix_len ?d = 24" "net_prefix_len v \<le> 32" using v by (auto simp: block_at_def intro: order_trans)
  have sub: "block ?d \<subseteq> block v" by (rule aligned_in_block [OF v k])
  have "block_first ?d + block_size ?d - 1 \<in> block v" using block_last_in [of ?d] sub by blast
  then have "block_first ?d + block_size ?d - 1 \<le> block_first v + block_size v - 1"
    unfolding block_def atLeastLessThan_iff by linarith
  then have "unat (ipv4_to_u32 (net_broadcast lib ?d)) \<le> unat (ipv4_to_u32 (net_broadcast lib v))"
    using ipnet_okD(4) [OF ok, of ?d] ipnet_okD(4) [OF ok p(2)] p(1) unfolding addr_nat_def by simp
  then show "(let d = ?d in if unat (ipv4_to_u32 (net_broadcast lib d)) \<le> unat (ipv4_to_u32 (net_broadcast lib v)) \<and>
      \<not> overlaps_any lib ex d then Some d else None) = (let d = ?d in if free_in v ex d then Some d else None)"
    unfolding Let_def free_in_iff [OF ok ex p(1), of v] using sub by simp
qed

lemma auto_allocate_subnet_found:
  assumes ok: "ipnet_ok lib" and v: "8 \<le> net_prefix_len v" "net_prefix_len v \<le> 24"
    and ex: "\<forall>e\<in>set ex. net_prefix_len e \<le> 32"
  shows "\<exists>r. found_free v ex r \<and>
    auto_allocate_subnet_cidr lib v ex =
      (case r of Some c \<Rightarrow> Inr c | None \<Rightarrow> Inl (SubnetCidrExhausted (net_to_string lib v)))"
proof -
  have "net_prefix_len v = 8 \<or> 9 \<le> net_prefix_len v \<and> net_prefix_len v \<le> 16 \<or> 17 \<le> net_prefix_len v"
    using v by (simp add: word_le_nat_alt word_unat_eq_iff) linarith
  then show ?thesis
    using allocate_8_found [OF ok _ ex, of v] allocate_9_16_found [OF ok v(2) ex] allocate_17_24_found [OF ok v(2) ex] v
    unfolding auto_allocate_subnet_cidr_def Let_def by auto
qed

section \<open>Validated networks\<close>

lemma validated_cidr:
  assumes "parse_and_validate_cidr lib s = Inr net"
  shows "net_parse lib s = Some net" "8 \<le> net_prefix_len net" "net_prefix_len net \<le> 28"
    "net_addr net = net_network lib net" "is_private_range lib net"
  using assms by (auto simp: parse_and_validate_cidr_def Let_def split: option.splits if_splits)

lemma private_last:
  assumes ok: "ipnet_ok lib" and p: "net_prefix_len net \<le> 32" and priv: "is_private_range lib net"
  shows "addr_nat (net_broadcast lib net) < 3232301056"
proof -
  have "addr_nat (net_broadcast lib net) \<in> block (Ipv4 10 0 0 0, 8) \<union> block (Ipv4 172 16 0 0, 12) \<union>
      block (Ipv4 192 168 0 0, 16)"
    using priv ipnet_okD(5) [OF ok] by (auto simp: is_private_range_def PRIVATE_RANGES_def)
  then show ?thesis by (auto simp: block_def block_first_def block_size_def addr_nat_Ipv4)
qed

text \<open>On a validated network the counter of the block scan stays within 32 bits.\<close>

lemma scan_no_wrap:
  assumes "ipnet_ok lib" "parse_and_validate_cidr lib s = Inr net" "addr \<le> addr_nat (net_broadcast lib net)"
  shows "unat (of_nat addr + 256 :: u32) = addr + 256"
proof -
  have "net_prefix_len net \<le> 32" using ipnet_okD(1) [OF assms(1) validated_cidr(1) [OF assms(2)]] .
  then have "addr + 256 < 2 ^ 32"
    using private_last [OF assms(1) _ validated_cidr(5) [OF assms(2)]] assms(3) by simp
  then have "unat (of_nat (addr + 256) :: u32) = addr + 256"
    by (subst unat_of_nat) (simp add: take_bit_nat_eq_self_iff)
  then show ?thesis by simp
qed

end
