(* ===== verification/Org_Store.thy ===== *)
theory Org_Store
  imports Cidr
begin

text \<open>
  Organizations, projects and environments: the first half of
  \<^verbatim>\<open>layers/org/src/store.rs\<close>, with \<^verbatim>\<open>validation.rs\<close> and \<^verbatim>\<open>ttl.rs\<close>.

  \<open>org_store\<close> holds the tables of \<^verbatim>\<open>OrgStore\<close>, the networking ones included.  A resource is
  stored under a random identifier; an index table maps its scoped name to the identifier.
  Records written by earlier versions were keyed by name: a lookup that meets one moves it,
  so the lookups of organizations, projects and environments return the store as well, and
  an operation that fails after such a lookup returns the store with the record moved.

  Every operation that generates identifiers takes the replica's context; the draws of
  one operation have different numbers (organization 0, project 1, environment 2, VPC 3,
  security group 4, route table 5, its system route 6, subnet 7, its system route 8,
  peering 9, NAT gateway 10, route 11).
\<close>

record org_store =
  tbl_orgs :: "(string, org) table"
  tbl_projects :: "(string, project) table"
  tbl_environments :: "(string, environment) table"
  tbl_vpcs :: "(string, vpc) table"
  tbl_vpc_attachments :: "(string, vpc_attachment) table"
  tbl_subnets :: "(string, subnet) table"
  tbl_vpc_peerings :: "(string, vpc_peering) table"
  tbl_security_groups :: "(string, security_group) table"
  tbl_nics :: "(string, network_interface) table"
  tbl_route_tables :: "(string, route_table) table"
  tbl_routes :: "(string, route) table"
  tbl_subnet_route_assoc :: "(string, string) table"
  tbl_nat_gateways :: "(string, nat_gateway) table"
  tbl_vni_counter :: "(string, u32) table"
  idx_org_name :: "(string, string) table"
  idx_project_name :: "(string, string) table"
  idx_env_name :: "(string, string) table"
  idx_vpc_name :: "(string, string) table"
  idx_subnet_name :: "(string, string) table"
  idx_sg_name :: "(string, string) table"
  idx_nat_gw_name :: "(string, string) table"
  idx_route_table_name :: "(string, string) table"

definition empty_org_store :: org_store where
  "empty_org_store =
     \<lparr>tbl_orgs = [], tbl_projects = [], tbl_environments = [], tbl_vpcs = [],
      tbl_vpc_attachments = [], tbl_subnets = [], tbl_vpc_peerings = [], tbl_security_groups = [],
      tbl_nics = [], tbl_route_tables = [], tbl_routes = [], tbl_subnet_route_assoc = [],
      tbl_nat_gateways = [], tbl_vni_counter = [], idx_org_name = [], idx_project_name = [],
      idx_env_name = [], idx_vpc_name = [], idx_subnet_name = [], idx_sg_name = [],
      idx_nat_gw_name = [], idx_route_table_name = []\<rparr>"

section \<open>Names\<close>

definition is_lower :: "char \<Rightarrow> bool" where
  "is_lower c \<longleftrightarrow> 97 \<le> (of_char c :: nat) \<and> (of_char c :: nat) \<le> 122"

definition validate_name :: "string \<Rightarrow> string \<Rightarrow> unit org_result" where
  "validate_name name context =
     (let len = length name
      in if \<not> (3 \<le> len \<and> len \<le> 63)
         then Inl (InvalidName context (''name must be 3-63 characters, got '' @ show_nat len))
         else if \<not> list_all (\<lambda>c. is_lower c \<or> is_digit c \<or> c = CHR ''-'') name
         then Inl (InvalidName context
                ''name must contain only lowercase alphanumeric characters and hyphens'')
         else if starts_with name ''-'' \<or> ends_with name ''-''
         then Inl (InvalidName context ''name must not start or end with a hyphen'')
         else Inr ())"

section \<open>Organizations\<close>

definition org_create :: "node_ctx \<Rightarrow> string \<Rightarrow> org_store \<Rightarrow> org org_result \<times> org_store" where
  "org_create c name s =
     (case validate_name name ''org'' of
        Inl e \<Rightarrow> (Inl e, s)
      | Inr _ \<Rightarrow>
          if db_exists (idx_org_name s) name then (Inl (AlreadyExists name), s)
          else if db_exists (tbl_orgs s) name then (Inl (AlreadyExists name), s)
          else
            let i = generate_id c 0 ''org'';
                new = \<lparr>org_id = i, org_name = name, org_created_at = ctx_now c\<rparr>
            in (Inr new, s\<lparr>tbl_orgs := db_set i new (tbl_orgs s),
                           idx_org_name := db_set name i (idx_org_name s)\<rparr>))"

definition org_get_by_id :: "string \<Rightarrow> org_store \<Rightarrow> org option" where
  "org_get_by_id i s = db_get (tbl_orgs s) i"

definition org_get :: "node_ctx \<Rightarrow> string \<Rightarrow> org_store \<Rightarrow> org option \<times> org_store" where
  "org_get c name s =
     (case db_get (idx_org_name s) name of
        Some i \<Rightarrow> (db_get (tbl_orgs s) i, s)
      | None \<Rightarrow>
          case db_get (tbl_orgs s) name of
            None \<Rightarrow> (None, s)
          | Some legacy \<Rightarrow>
              let i = generate_id c 0 ''org'';
                  moved = legacy\<lparr>org_id := i\<rparr>
              in (Some moved,
                  s\<lparr>tbl_orgs := snd (db_delete name (db_set i moved (tbl_orgs s))),
                    idx_org_name := db_set name i (idx_org_name s)\<rparr>))"

definition resolve_org_id :: "node_ctx \<Rightarrow> string \<Rightarrow> org_store \<Rightarrow> string org_result \<times> org_store" where
  "resolve_org_id c name s =
     (case db_get (idx_org_name s) name of
        Some i \<Rightarrow> (Inr i, s)
      | None \<Rightarrow>
          case org_get c name s of
            (Some o', s1) \<Rightarrow> (Inr (org_id o'), s1)
          | (None, s1) \<Rightarrow> (Inl (NotFound name), s1))"

definition org_list :: "org_store \<Rightarrow> org list" where
  "org_list s = map snd (db_list (tbl_orgs s))"

section \<open>Projects\<close>

definition project_name_key :: "string \<Rightarrow> string \<Rightarrow> string" where
  "project_name_key o' p = o' @ ''/'' @ p"

definition create_project ::
    "node_ctx \<Rightarrow> string \<Rightarrow> string \<Rightarrow> org_store \<Rightarrow> project org_result \<times> org_store" where
  "create_project c oname name s =
     (case validate_name name ''project'' of
        Inl e \<Rightarrow> (Inl e, s)
      | Inr _ \<Rightarrow>
          case org_get c oname s of
            (None, s1) \<Rightarrow> (Inl (NotFound oname), s1)
          | (Some org_obj, s1) \<Rightarrow>
              let name_key = project_name_key oname name
              in if db_exists (idx_project_name s1) name_key
                 then (Inl (ProjectAlreadyExists oname name), s1)
                 else if db_exists (tbl_projects s1) name_key
                 then (Inl (ProjectAlreadyExists oname name), s1)
                 else
                   let i = generate_id c 1 ''proj'';
                       new = \<lparr>proj_id = i, proj_name = name, proj_org_id = org_id org_obj,
                              proj_created_at = ctx_now c\<rparr>
                   in (Inr new, s1\<lparr>tbl_projects := db_set i new (tbl_projects s1),
                                   idx_project_name := db_set name_key i (idx_project_name s1)\<rparr>))"

definition get_project_by_id :: "string \<Rightarrow> org_store \<Rightarrow> project option" where
  "get_project_by_id i s = db_get (tbl_projects s) i"

definition get_project ::
    "node_ctx \<Rightarrow> string \<Rightarrow> string \<Rightarrow> org_store \<Rightarrow> project option \<times> org_store" where
  "get_project c oname name s =
     (let name_key = project_name_key oname name
      in case db_get (idx_project_name s) name_key of
           Some i \<Rightarrow> (db_get (tbl_projects s) i, s)
         | None \<Rightarrow>
             case db_get (tbl_projects s) name_key of
               None \<Rightarrow> (None, s)
             | Some legacy \<Rightarrow>
                 let i = generate_id c 1 ''proj'';
                     (org_opt, s1) = org_get c oname s;
                     p1 = (case org_opt of Some o' \<Rightarrow> legacy\<lparr>proj_org_id := org_id o'\<rparr> | None \<Rightarrow> legacy);
                     moved = p1\<lparr>proj_id := i\<rparr>
                 in (Some moved,
                     s1\<lparr>tbl_projects := snd (db_delete name_key (db_set i moved (tbl_projects s1))),
                        idx_project_name := db_set name_key i (idx_project_name s1)\<rparr>))"

definition resolve_project_id ::
    "node_ctx \<Rightarrow> string \<Rightarrow> string \<Rightarrow> org_store \<Rightarrow> string org_result \<times> org_store" where
  "resolve_project_id c oname name s =
     (case db_get (idx_project_name s) (project_name_key oname name) of
        Some i \<Rightarrow> (Inr i, s)
      | None \<Rightarrow>
          case get_project c oname name s of
            (Some p, s1) \<Rightarrow> (Inr (proj_id p), s1)
          | (None, s1) \<Rightarrow> (Inl (ProjectNotFound oname name), s1))"

text \<open>The records an index names, in index order, that are filed under keys with a prefix;
  without any, the records of the table itself with such a key.\<close>

definition list_indexed :: "string \<Rightarrow> (string, string) table \<Rightarrow> (string, 'r) table \<Rightarrow> 'r list" where
  "list_indexed prefix idx t =
     (let found = List.map_filter (\<lambda>(k, i). if starts_with k prefix then db_get t i else None) (db_list idx)
      in if found = [] then map snd (filter (\<lambda>(k, _). starts_with k prefix) (db_list t)) else found)"

definition list_projects :: "string \<Rightarrow> org_store \<Rightarrow> project list" where
  "list_projects oname s = list_indexed (oname @ ''/'') (idx_project_name s) (tbl_projects s)"

section \<open>Environments\<close>

definition env_name_key :: "string \<Rightarrow> string \<Rightarrow> string \<Rightarrow> string" where
  "env_name_key o' p e = o' @ ''/'' @ p @ ''/'' @ e"

text \<open>The expiry time \<^verbatim>\<open>created_at + t\<close> is an unsigned 64-bit sum.\<close>

definition create_env ::
    "node_ctx \<Rightarrow> string \<Rightarrow> string \<Rightarrow> string \<Rightarrow> u64 option \<Rightarrow> bool \<Rightarrow> (string, string) hmap \<Rightarrow>
     org_store \<Rightarrow> environment org_result \<times> org_store" where
  "create_env c oname pname name ttl deletion_protection labels s =
     (case validate_name name ''environment'' of
        Inl e \<Rightarrow> (Inl e, s)
      | Inr _ \<Rightarrow>
          case get_project c oname pname s of
            (None, s1) \<Rightarrow> (Inl (ProjectNotFound oname pname), s1)
          | (Some project_obj, s1) \<Rightarrow>
              let name_key = env_name_key oname pname name
              in if db_exists (idx_env_name s1) name_key then (Inl (EnvAlreadyExists name), s1)
                 else if db_exists (tbl_environments s1) name_key then (Inl (EnvAlreadyExists name), s1)
                 else
                   let created_at = ctx_now c;
                       i = generate_id c 2 ''env'';
                       new = \<lparr>env_id = i, env_name = name, env_project_id = proj_id project_obj,
                              env_ttl = ttl, env_deletion_protection = deletion_protection,
                              env_labels = labels, env_created_at = created_at,
                              env_expires_at = map_option (\<lambda>t. created_at + t) ttl\<rparr>
                   in (Inr new, s1\<lparr>tbl_environments := db_set i new (tbl_environments s1),
                                   idx_env_name := db_set name_key i (idx_env_name s1)\<rparr>))"

definition get_env_by_id :: "string \<Rightarrow> org_store \<Rightarrow> environment option" where
  "get_env_by_id i s = db_get (tbl_environments s) i"

definition get_env ::
    "node_ctx \<Rightarrow> string \<Rightarrow> string \<Rightarrow> string \<Rightarrow> org_store \<Rightarrow> environment org_result \<times> org_store" where
  "get_env c oname pname name s =
     (let name_key = env_name_key oname pname name
      in case db_get (idx_env_name s) name_key of
           Some i \<Rightarrow>
             (case db_get (tbl_environments s) i of
                Some e \<Rightarrow> (Inr e, s)
              | None \<Rightarrow> (Inl (EnvNotFound name), s))
         | None \<Rightarrow>
             case db_get (tbl_environments s) name_key of
               None \<Rightarrow> (Inl (EnvNotFound name), s)
             | Some legacy \<Rightarrow>
                 let i = generate_id c 2 ''env'';
                     (proj_opt, s1) = get_project c oname pname s;
                     e1 = (case proj_opt of Some p \<Rightarrow> legacy\<lparr>env_project_id := proj_id p\<rparr> | None \<Rightarrow> legacy);
                     moved = e1\<lparr>env_id := i\<rparr>
                 in (Inr moved,
                     s1\<lparr>tbl_environments := snd (db_delete name_key (db_set i moved (tbl_environments s1))),
                        idx_env_name := db_set name_key i (idx_env_name s1)\<rparr>))"

definition list_envs :: "string \<Rightarrow> string \<Rightarrow> org_store \<Rightarrow> environment list" where
  "list_envs oname pname s =
     list_indexed (oname @ ''/'' @ pname @ ''/'') (idx_env_name s) (tbl_environments s)"

definition extend_env ::
    "node_ctx \<Rightarrow> string \<Rightarrow> string \<Rightarrow> string \<Rightarrow> u64 \<Rightarrow> org_store \<Rightarrow> environment org_result \<times> org_store" where
  "extend_env c oname pname name ttl s =
     (case get_env c oname pname name s of
        (Inl e, s1) \<Rightarrow> (Inl e, s1)
      | (Inr env, s1) \<Rightarrow>
          let env' = env\<lparr>env_ttl := Some ttl, env_expires_at := Some (ctx_now c + ttl)\<rparr>
          in (Inr env', s1\<lparr>tbl_environments := db_set (env_id env') env' (tbl_environments s1)\<rparr>))"

definition update_env_protection ::
    "node_ctx \<Rightarrow> string \<Rightarrow> string \<Rightarrow> string \<Rightarrow> bool \<Rightarrow> org_store \<Rightarrow> environment org_result \<times> org_store" where
  "update_env_protection c oname pname name enabled s =
     (case get_env c oname pname name s of
        (Inl e, s1) \<Rightarrow> (Inl e, s1)
      | (Inr env, s1) \<Rightarrow>
          let env' = env\<lparr>env_deletion_protection := enabled\<rparr>
          in (Inr env', s1\<lparr>tbl_environments := db_set (env_id env') env' (tbl_environments s1)\<rparr>))"

definition delete_env ::
    "node_ctx \<Rightarrow> string \<Rightarrow> string \<Rightarrow> string \<Rightarrow> org_store \<Rightarrow> unit org_result \<times> org_store" where
  "delete_env c oname pname name s =
     (case get_env c oname pname name s of
        (Inl e, s1) \<Rightarrow> (Inl e, s1)
      | (Inr env, s1) \<Rightarrow>
          if env_deletion_protection env then (Inl (EnvProtected name), s1)
          else (Inr (), s1\<lparr>tbl_environments := snd (db_delete (env_id env) (tbl_environments s1)),
                           idx_env_name := snd (db_delete (env_name_key oname pname name) (idx_env_name s1))\<rparr>))"

definition delete_project ::
    "node_ctx \<Rightarrow> string \<Rightarrow> string \<Rightarrow> org_store \<Rightarrow> unit org_result \<times> org_store" where
  "delete_project c oname name s =
     (case get_project c oname name s of
        (None, s1) \<Rightarrow> (Inl (ProjectNotFound oname name), s1)
      | (Some p, s1) \<Rightarrow>
          if list_envs oname name s1 \<noteq> [] then (Inl (ProjectHasEnvironments oname name), s1)
          else (Inr (), s1\<lparr>tbl_projects := snd (db_delete (proj_id p) (tbl_projects s1)),
                           idx_project_name := snd (db_delete (project_name_key oname name) (idx_project_name s1))\<rparr>))"

text \<open>\<^verbatim>\<open>find_expired_envs\<close>: the expired environments of all organizations and projects.\<close>

definition find_expired_envs :: "node_ctx \<Rightarrow> org_store \<Rightarrow> (string \<times> string \<times> environment) list" where
  "find_expired_envs c s =
     concat (map (\<lambda>o'. concat (map (\<lambda>p.
       List.map_filter (\<lambda>e. case env_expires_at e of
                              Some expires_at \<Rightarrow>
                                if ctx_now c > expires_at then Some (org_name o', proj_name p, e) else None
                            | None \<Rightarrow> None)
         (list_envs (org_name o') (proj_name p) s))
       (list_projects (org_name o') s))) (org_list s))"

section \<open>VPCs of an organization\<close>

definition list_vpcs :: "org_store \<Rightarrow> vpc list" where
  "list_vpcs s = map snd (db_list (tbl_vpcs s))"

definition list_vpcs_by_project :: "string \<Rightarrow> org_store \<Rightarrow> vpc list" where
  "list_vpcs_by_project pid s = filter (\<lambda>v. vpc_owner_of v = OwnerProject pid) (list_vpcs s)"

definition vpc_org :: "org_store \<Rightarrow> vpc \<Rightarrow> string option" where
  "vpc_org s v =
     (case vpc_owner_of v of
        OwnerOrg oid \<Rightarrow> Some oid
      | OwnerProject pid \<Rightarrow> map_option proj_org_id (get_project_by_id pid s))"

definition list_vpcs_by_org :: "string \<Rightarrow> org_store \<Rightarrow> vpc list" where
  "list_vpcs_by_org oid s = filter (\<lambda>v. vpc_org s v = Some oid) (list_vpcs s)"

definition org_delete :: "node_ctx \<Rightarrow> string \<Rightarrow> org_store \<Rightarrow> unit org_result \<times> org_store" where
  "org_delete c name s =
     (case org_get c name s of
        (None, s1) \<Rightarrow> (Inl (NotFound name), s1)
      | (Some o', s1) \<Rightarrow>
          let all_vpcs = list_vpcs_by_org (org_id o') s1
          in if all_vpcs \<noteq> [] then (Inl (OrgHasVpcs name (length all_vpcs)), s1)
             else if list_projects name s1 \<noteq> [] then (Inl (OrgHasProjects name), s1)
             else (Inr (), s1\<lparr>tbl_orgs := snd (db_delete (org_id o') (tbl_orgs s1)),
                              idx_org_name := snd (db_delete name (idx_org_name s1))\<rparr>))"

end
