(* ===== verification/Network_Store.thy ===== *)
theory Network_Store
  imports Org_Store
begin

text \<open>
  VPCs, their attachments and subnets, with the default security group and route table of a
  new VPC; from the second half of \<^verbatim>\<open>layers/org/src/store.rs\<close>.
\<close>

section \<open>Security groups, route tables and routes of a new VPC\<close>

definition sg_name_key :: "string \<Rightarrow> string \<Rightarrow> string" where
  "sg_name_key vpc name = vpc @ ''/'' @ name"

definition create_default_sg :: "node_ctx \<Rightarrow> vpc \<Rightarrow> org_store \<Rightarrow> org_store" where
  "create_default_sg c v s =
     (let i = generate_id c 4 ''sg'';
          sg = \<lparr>sg_id = i, sg_name = ''default'', sg_vpc_id = vpc_id v,
                sg_description = Some (''Default security group for VPC '' @ vpc_name v),
                sg_is_default = True, sg_state = Active, sg_created_at = ctx_now c\<rparr>
      in s\<lparr>tbl_security_groups := db_set i sg (tbl_security_groups s),
           idx_sg_name := db_set (sg_name_key (vpc_id v) ''default'') i (idx_sg_name s)\<rparr>)"

definition route_table_name_key :: "string \<Rightarrow> string \<Rightarrow> string" where
  "route_table_name_key vpc name = vpc @ ''/'' @ name"

definition route_key :: "string \<Rightarrow> string \<Rightarrow> string" where
  "route_key table destination = table @ ''/'' @ destination"

text \<open>\<open>n\<close> is the number of the draw for the identifier.\<close>

definition add_system_route :: "node_ctx \<Rightarrow> nat \<Rightarrow> route_table \<Rightarrow> string \<Rightarrow> org_store \<Rightarrow> org_store" where
  "add_system_route c n t destination s =
     (let r = \<lparr>route_id = generate_id c n ''rt'', route_table_id = rtb_id t,
               route_destination = destination, route_target_of = TargetLocal,
               route_origin_of = OriginSystem, route_status_of = RouteActive,
               route_priority = 0, route_created_at = ctx_now c\<rparr>
      in s\<lparr>tbl_routes := db_set (route_key (rtb_id t) destination) r (tbl_routes s)\<rparr>)"

definition create_default_route_table :: "node_ctx \<Rightarrow> vpc \<Rightarrow> org_store \<Rightarrow> org_store" where
  "create_default_route_table c v s =
     (let i = generate_id c 5 ''rtb'';
          t = \<lparr>rtb_id = i, rtb_name = ''default'', rtb_vpc_id = vpc_id v, rtb_is_default = True,
               rtb_state = Active, rtb_created_at = ctx_now c\<rparr>;
          s1 = s\<lparr>tbl_route_tables := db_set i t (tbl_route_tables s),
                 idx_route_table_name :=
                   db_set (route_table_name_key (vpc_id v) ''default'') i (idx_route_table_name s)\<rparr>
      in add_system_route c 6 t (vpc_cidr v) s1)"

section \<open>VPCs\<close>

definition resolve_owner_org_id ::
    "node_ctx \<Rightarrow> vpc_owner \<Rightarrow> org_store \<Rightarrow> string org_result \<times> org_store" where
  "resolve_owner_org_id c owner s =
     (case owner of
        OwnerOrg oid \<Rightarrow> (Inr oid, s)
      | OwnerProject pid \<Rightarrow>
          case get_project_by_id pid s of
            Some p \<Rightarrow> (Inr (proj_org_id p), s)
          | None \<Rightarrow>
              case split_once CHR ''/'' pid of
                Some (oname, _) \<Rightarrow> resolve_org_id c oname s
              | None \<Rightarrow> (Inl (NotFound pid), s))"

definition existing_cidrs_for_org ::
    "node_ctx \<Rightarrow> vpc_owner \<Rightarrow> org_store \<Rightarrow> ipv4net list org_result \<times> org_store" where
  "existing_cidrs_for_org c owner s =
     (case resolve_owner_org_id c owner s of
        (Inl e, s1) \<Rightarrow> (Inl e, s1)
      | (Inr oid, s1) \<Rightarrow>
          (Inr (List.map_filter (\<lambda>v. net_parse (ctx_net c) (vpc_cidr v)) (list_vpcs_by_org oid s1)), s1))"

definition next_vni :: "org_store \<Rightarrow> u32 \<times> org_store" where
  "next_vni s =
     (case atomic_next_counter ''counter'' 100 (tbl_vni_counter s) of
        (vni, t) \<Rightarrow> (vni, s\<lparr>tbl_vni_counter := t\<rparr>))"

definition vpc_org_scope :: "vpc_owner \<Rightarrow> string" where
  "vpc_org_scope owner =
     (case owner of OwnerOrg oid \<Rightarrow> oid | OwnerProject pid \<Rightarrow> split_first CHR ''/'' pid)"

definition vpc_name_key :: "vpc_owner \<Rightarrow> string \<Rightarrow> string" where
  "vpc_name_key owner name = vpc_org_scope owner @ ''/'' @ name"

text \<open>The check of \<^verbatim>\<open>create_vpc\<close> that the owner exists.\<close>

definition check_owner :: "node_ctx \<Rightarrow> vpc_owner \<Rightarrow> org_store \<Rightarrow> unit org_result \<times> org_store" where
  "check_owner c owner s =
     (case owner of
        OwnerOrg oid \<Rightarrow>
          (case org_get_by_id oid s of
             Some _ \<Rightarrow> (Inr (), s)
           | None \<Rightarrow>
               case org_get c oid s of
                 (None, s1) \<Rightarrow> (Inl (NotFound oid), s1)
               | (Some _, s1) \<Rightarrow> (Inr (), s1))
      | OwnerProject pid \<Rightarrow>
          (case get_project_by_id pid s of
             Some _ \<Rightarrow> (Inr (), s)
           | None \<Rightarrow>
               case split_once CHR ''/'' pid of
                 None \<Rightarrow> (Inl (NotFound pid), s)
               | Some (oname, pname) \<Rightarrow>
                   case org_get c oname s of
                     (None, s1) \<Rightarrow> (Inl (NotFound oname), s1)
                   | (Some _, s1) \<Rightarrow>
                       case get_project c oname pname s1 of
                         (None, s2) \<Rightarrow> (Inl (ProjectNotFound oname pname), s2)
                       | (Some _, s2) \<Rightarrow> (Inr (), s2)))"

text \<open>The writes of \<^verbatim>\<open>create_vpc\<close>, once every check has passed.\<close>

definition insert_vpc ::
    "node_ctx \<Rightarrow> string \<Rightarrow> string \<Rightarrow> vpc_owner \<Rightarrow> bool \<Rightarrow> org_store \<Rightarrow> vpc \<times> org_store" where
  "insert_vpc c name cidr owner shared s =
     (let (vni, s1) = next_vni s;
          i = generate_id c 3 ''vpc'';
          v = \<lparr>vpc_id = i, vpc_name = name, vpc_cidr = cidr, vpc_vni = vni, vpc_owner_of = owner,
               vpc_shared = shared, vpc_created_at = ctx_now c\<rparr>;
          s2 = s1\<lparr>tbl_vpcs := db_set i v (tbl_vpcs s1),
                  idx_vpc_name := db_set (vpc_name_key owner name) i (idx_vpc_name s1)\<rparr>
      in (v, create_default_route_table c v (create_default_sg c v s2)))"

definition create_vpc ::
    "node_ctx \<Rightarrow> string \<Rightarrow> string \<Rightarrow> vpc_owner \<Rightarrow> bool \<Rightarrow> org_store \<Rightarrow> vpc org_result \<times> org_store" where
  "create_vpc c name cidr owner shared s =
     (let lib = ctx_net c
      in case validate_name name ''vpc'' of
           Inl e \<Rightarrow> (Inl e, s)
         | Inr _ \<Rightarrow>
         case parse_and_validate_cidr lib cidr of
           Inl e \<Rightarrow> (Inl e, s)
         | Inr net \<Rightarrow>
         case check_owner c owner s of
           (Inl e, s1) \<Rightarrow> (Inl e, s1)
         | (Inr _, s1) \<Rightarrow>
             if db_exists (idx_vpc_name s1) (vpc_name_key owner name) then (Inl (VpcAlreadyExists name), s1)
             else case existing_cidrs_for_org c owner s1 of
               (Inl e, s2) \<Rightarrow> (Inl e, s2)
             | (Inr existing, s2) \<Rightarrow>
                 case find (cidrs_overlap lib net) existing of
                   Some e \<Rightarrow> (Inl (CidrOverlap (net_to_string lib net) (net_to_string lib e)), s2)
                 | None \<Rightarrow> (case insert_vpc c name cidr owner shared s2 of (v, s3) \<Rightarrow> (Inr v, s3)))"

definition get_vpc :: "string \<Rightarrow> org_store \<Rightarrow> vpc option" where
  "get_vpc name s =
     (case find (\<lambda>(key, _). ends_with key (''/'' @ name)) (db_list (idx_vpc_name s)) of
        Some (_, i) \<Rightarrow> db_get (tbl_vpcs s) i
      | None \<Rightarrow> None)"

definition get_vpc_by_id :: "string \<Rightarrow> org_store \<Rightarrow> vpc option" where
  "get_vpc_by_id i s = db_get (tbl_vpcs s) i"

definition list_peerings :: "org_store \<Rightarrow> vpc_peering list" where
  "list_peerings s = map snd (db_list (tbl_vpc_peerings s))"

definition list_peerings_by_vpc_id :: "string \<Rightarrow> org_store \<Rightarrow> vpc_peering list" where
  "list_peerings_by_vpc_id i s = filter (\<lambda>p. peer_vpc_a p = i \<or> peer_vpc_b p = i) (list_peerings s)"

definition list_peerings_by_vpc :: "string \<Rightarrow> org_store \<Rightarrow> vpc_peering list" where
  "list_peerings_by_vpc name s =
     (case get_vpc name s of Some v \<Rightarrow> list_peerings_by_vpc_id (vpc_id v) s | None \<Rightarrow> [])"

definition delete_vpc :: "string \<Rightarrow> org_store \<Rightarrow> unit org_result \<times> org_store" where
  "delete_vpc name s =
     (case get_vpc name s of
        None \<Rightarrow> (Inl (VpcNotFound name), s)
      | Some v \<Rightarrow>
          let peerings = list_peerings_by_vpc_id (vpc_id v) s
          in if peerings \<noteq> [] then (Inl (VpcHasPeerings name (length peerings)), s)
             else (Inr (), s\<lparr>idx_vpc_name := snd (db_delete (vpc_name_key (vpc_owner_of v) name) (idx_vpc_name s)),
                             tbl_vpcs := snd (db_delete (vpc_id v) (tbl_vpcs s))\<rparr>))"

section \<open>Attachments\<close>

definition attachment_key :: "string \<Rightarrow> string \<Rightarrow> string" where
  "attachment_key vpc pid = vpc @ ''/'' @ pid"

definition attach_vpc :: "node_ctx \<Rightarrow> string \<Rightarrow> string \<Rightarrow> org_store \<Rightarrow> unit org_result \<times> org_store" where
  "attach_vpc c name pid s =
     (case get_vpc name s of
        None \<Rightarrow> (Inl (VpcNotFound name), s)
      | Some v \<Rightarrow>
          if \<not> vpc_shared v then (Inl (VpcNotShared name), s)
          else
            let key = attachment_key (vpc_id v) pid
            in if db_exists (tbl_vpc_attachments s) key then (Inl (VpcAlreadyAttached name pid), s)
               else (Inr (), s\<lparr>tbl_vpc_attachments :=
                       db_set key \<lparr>att_vpc_id = vpc_id v, att_project_id = pid, att_attached_at = ctx_now c\<rparr>
                         (tbl_vpc_attachments s)\<rparr>))"

definition detach_vpc :: "string \<Rightarrow> string \<Rightarrow> org_store \<Rightarrow> unit org_result \<times> org_store" where
  "detach_vpc name pid s =
     (case get_vpc name s of
        None \<Rightarrow> (Inl (VpcNotFound name), s)
      | Some v \<Rightarrow>
          let key = attachment_key (vpc_id v) pid
          in if \<not> db_exists (tbl_vpc_attachments s) key then (Inl (VpcNotAttached name pid), s)
             else (Inr (), s\<lparr>tbl_vpc_attachments := snd (db_delete key (tbl_vpc_attachments s))\<rparr>))"

definition list_attachments :: "string \<Rightarrow> org_store \<Rightarrow> string list org_result" where
  "list_attachments name s =
     (case get_vpc name s of
        None \<Rightarrow> Inl (VpcNotFound name)
      | Some v \<Rightarrow> Inr (map (\<lambda>(_, a). att_project_id a)
                      (filter (\<lambda>(k, _). starts_with k (vpc_id v @ ''/'')) (db_list (tbl_vpc_attachments s)))))"

section \<open>Subnets\<close>

definition subnet_name_key :: "string \<Rightarrow> string \<Rightarrow> string" where
  "subnet_name_key vpc name = vpc @ ''/'' @ name"

definition get_route_table :: "string \<Rightarrow> string \<Rightarrow> org_store \<Rightarrow> route_table option" where
  "get_route_table vpc name s =
     (case db_get (idx_route_table_name s) (route_table_name_key vpc name) of
        Some i \<Rightarrow> db_get (tbl_route_tables s) i
      | None \<Rightarrow> None)"

definition get_default_route_table :: "string \<Rightarrow> org_store \<Rightarrow> route_table option" where
  "get_default_route_table vpc s = get_route_table vpc ''default'' s"

definition list_subnets_by_vpc_id :: "string \<Rightarrow> org_store \<Rightarrow> subnet list" where
  "list_subnets_by_vpc_id vpc s = map snd (filter (\<lambda>(_, x). sub_vpc_id x = vpc) (db_list (tbl_subnets s)))"

definition list_subnets :: "string \<Rightarrow> org_store \<Rightarrow> subnet list" where
  "list_subnets name s =
     (case get_vpc name s of Some v \<Rightarrow> list_subnets_by_vpc_id (vpc_id v) s | None \<Rightarrow> [])"

definition list_subnets_by_env :: "string \<Rightarrow> org_store \<Rightarrow> subnet list" where
  "list_subnets_by_env eid s = map snd (filter (\<lambda>(_, x). sub_env_id x = eid) (db_list (tbl_subnets s)))"

text \<open>The choice of the address block of a new subnet.\<close>

definition choose_subnet_cidr ::
    "ipnet_lib \<Rightarrow> ipv4net \<Rightarrow> ipv4net list \<Rightarrow> string option \<Rightarrow> ipv4net org_result" where
  "choose_subnet_cidr lib vpc_net existing cidr_opt =
     (case cidr_opt of
        None \<Rightarrow> auto_allocate_subnet_cidr lib vpc_net existing
      | Some cidr_str \<Rightarrow>
          case net_parse lib cidr_str of
            None \<Rightarrow> Inl (InvalidCidr (quoted cidr_str @ '': invalid CIDR format''))
          | Some net \<Rightarrow>
              if \<not> net_contains lib vpc_net (net_network lib net) \<or>
                 \<not> net_contains lib vpc_net (net_broadcast lib net)
              then Inl (SubnetCidrOutOfRange (net_to_string lib net) (net_to_string lib vpc_net))
              else case find (cidrs_overlap lib net) existing of
                Some e \<Rightarrow> Inl (SubnetCidrOverlap (net_to_string lib net) (net_to_string lib e))
              | None \<Rightarrow> Inr net)"

definition insert_subnet ::
    "node_ctx \<Rightarrow> vpc \<Rightarrow> string \<Rightarrow> string \<Rightarrow> ipv4net \<Rightarrow> org_store \<Rightarrow> subnet \<times> org_store" where
  "insert_subnet c v eid name net s =
     (let lib = ctx_net c;
          i = generate_id c 7 ''sub'';
          x = \<lparr>sub_id = i, sub_name = name, sub_vpc_id = vpc_id v, sub_env_id = eid,
               sub_cidr = net_to_string lib net,
               sub_gateway = ipv4_to_string (compute_gateway lib net),
               sub_created_at = ctx_now c\<rparr>;
          s1 = s\<lparr>tbl_subnets := db_set i x (tbl_subnets s),
                 idx_subnet_name := db_set (subnet_name_key (vpc_id v) name) i (idx_subnet_name s)\<rparr>
      in (x, case get_default_route_table (vpc_id v) s1 of
               Some t \<Rightarrow> add_system_route c 8 t (sub_cidr x) s1
             | None \<Rightarrow> s1))"

definition create_subnet ::
    "node_ctx \<Rightarrow> string \<Rightarrow> string \<Rightarrow> string \<Rightarrow> string option \<Rightarrow> org_store \<Rightarrow> subnet org_result \<times> org_store" where
  "create_subnet c vname eid name cidr_opt s =
     (let lib = ctx_net c
      in case validate_name name ''subnet'' of
           Inl e \<Rightarrow> (Inl e, s)
         | Inr _ \<Rightarrow>
         case get_vpc vname s of
           None \<Rightarrow> (Inl (VpcNotFound vname), s)
         | Some v \<Rightarrow>
             if \<not> db_exists (tbl_environments s) eid then (Inl (EnvNotFound eid), s)
             else if db_exists (idx_subnet_name s) (subnet_name_key (vpc_id v) name)
             then (Inl (SubnetAlreadyExists vname name), s)
             else case net_parse lib (vpc_cidr v) of
               None \<Rightarrow> (Inl (InvalidCidr (''VPC CIDR is invalid: '' @ vpc_cidr v)), s)
             | Some vpc_net \<Rightarrow>
                 let existing = List.map_filter (\<lambda>x. net_parse lib (sub_cidr x)) (list_subnets vname s)
                 in case choose_subnet_cidr lib vpc_net existing cidr_opt of
                      Inl e \<Rightarrow> (Inl e, s)
                    | Inr net \<Rightarrow> (case insert_subnet c v eid name net s of (x, s1) \<Rightarrow> (Inr x, s1)))"

definition get_subnet :: "string \<Rightarrow> string \<Rightarrow> org_store \<Rightarrow> subnet org_result" where
  "get_subnet vname name s =
     (case get_vpc vname s of
        None \<Rightarrow> Inl (VpcNotFound vname)
      | Some v \<Rightarrow>
          case db_get (idx_subnet_name s) (subnet_name_key (vpc_id v) name) of
            None \<Rightarrow> Inl (SubnetNotFound vname name)
          | Some i \<Rightarrow>
              case db_get (tbl_subnets s) i of
                None \<Rightarrow> Inl (SubnetNotFound vname name)
              | Some x \<Rightarrow> Inr x)"

definition get_subnet_by_id :: "string \<Rightarrow> org_store \<Rightarrow> subnet option" where
  "get_subnet_by_id i s = db_get (tbl_subnets s) i"

definition find_subnets_by_name :: "string \<Rightarrow> org_store \<Rightarrow> (string \<times> subnet) list" where
  "find_subnets_by_name name s =
     map (\<lambda>(_, x). (case get_vpc_by_id (sub_vpc_id x) s of Some v \<Rightarrow> vpc_name v | None \<Rightarrow> sub_vpc_id x, x))
       (filter (\<lambda>(_, x). sub_name x = name) (db_list (tbl_subnets s)))"

definition remove_route_force :: "string \<Rightarrow> string \<Rightarrow> org_store \<Rightarrow> org_store" where
  "remove_route_force table destination s =
     s\<lparr>tbl_routes := snd (db_delete (route_key table destination) (tbl_routes s))\<rparr>"

definition associate_subnet_route_table :: "string \<Rightarrow> string \<Rightarrow> org_store \<Rightarrow> org_store" where
  "associate_subnet_route_table subnet table s =
     s\<lparr>tbl_subnet_route_assoc := db_set subnet table (tbl_subnet_route_assoc s)\<rparr>"

definition disassociate_subnet_route_table :: "string \<Rightarrow> org_store \<Rightarrow> org_store" where
  "disassociate_subnet_route_table subnet s =
     s\<lparr>tbl_subnet_route_assoc := snd (db_delete subnet (tbl_subnet_route_assoc s))\<rparr>"

definition delete_subnet :: "string \<Rightarrow> string \<Rightarrow> org_store \<Rightarrow> unit org_result \<times> org_store" where
  "delete_subnet vname name s =
     (case get_vpc vname s of
        None \<Rightarrow> (Inl (VpcNotFound vname), s)
      | Some v \<Rightarrow>
          let name_key = subnet_name_key (vpc_id v) name
          in case db_get (idx_subnet_name s) name_key of
               None \<Rightarrow> (Inl (SubnetNotFound vname name), s)
             | Some i \<Rightarrow>
                 case db_get (tbl_subnets s) i of
                   None \<Rightarrow> (Inl (SubnetNotFound vname name), s)
                 | Some x \<Rightarrow>
                     let s1 = (case get_default_route_table (sub_vpc_id x) s of
                                 Some t \<Rightarrow> remove_route_force (rtb_id t) (sub_cidr x) s
                               | None \<Rightarrow> s);
                         s2 = disassociate_subnet_route_table (sub_id x) s1
                     in (Inr (), s2\<lparr>idx_subnet_name := snd (db_delete name_key (idx_subnet_name s2)),
                                    tbl_subnets := snd (db_delete i (tbl_subnets s2))\<rparr>))"

end
