(* ===== verification/Network_Resources.thy ===== *)
theory Network_Resources
  imports Network_Store
begin

text \<open>
  Peerings, security groups, route tables and routes, NAT gateways and network interfaces
  of \<^verbatim>\<open>layers/org/src/store.rs\<close>.
\<close>

section \<open>Peerings\<close>

definition peering_name_key :: "string \<Rightarrow> string \<Rightarrow> string \<times> string \<times> string" where
  "peering_name_key i j =
     (let (a, b) = (if i \<le> j then (i, j) else (j, i)) in (a @ ''/'' @ b, a, b))"

definition create_peering ::
    "node_ctx \<Rightarrow> string \<Rightarrow> string \<Rightarrow> org_store \<Rightarrow> vpc_peering org_result \<times> org_store" where
  "create_peering c vname_a vname_b s =
     (if vname_a = vname_b then (Inl (SelfPeeringRejected vname_a), s)
      else case get_vpc vname_a s of
        None \<Rightarrow> (Inl (VpcNotFound vname_a), s)
      | Some va \<Rightarrow>
      case get_vpc vname_b s of
        None \<Rightarrow> (Inl (VpcNotFound vname_b), s)
      | Some vb \<Rightarrow>
          let (name_key, a_id, b_id) = peering_name_key (vpc_id va) (vpc_id vb)
          in if list_ex (\<lambda>p. fst (peering_name_key (peer_vpc_a p) (peer_vpc_b p)) = name_key) (list_peerings s)
             then (Inl (PeeringAlreadyExists vname_a vname_b), s)
             else
               let i = generate_id c 9 ''peer'';
                   p = \<lparr>peer_id = i, peer_vpc_a = a_id, peer_vpc_b = b_id, peer_status = PeeringActive,
                        peer_created_at = ctx_now c\<rparr>
               in (Inr p, s\<lparr>tbl_vpc_peerings := db_set i p (tbl_vpc_peerings s)\<rparr>))"

definition delete_peering :: "string \<Rightarrow> string \<Rightarrow> org_store \<Rightarrow> unit org_result \<times> org_store" where
  "delete_peering vname_a vname_b s =
     (case get_vpc vname_a s of
        None \<Rightarrow> (Inl (VpcNotFound vname_a), s)
      | Some va \<Rightarrow>
      case get_vpc vname_b s of
        None \<Rightarrow> (Inl (VpcNotFound vname_b), s)
      | Some vb \<Rightarrow>
          let name_key = fst (peering_name_key (vpc_id va) (vpc_id vb))
          in case find (\<lambda>p. fst (peering_name_key (peer_vpc_a p) (peer_vpc_b p)) = name_key) (list_peerings s) of
               Some p \<Rightarrow> (Inr (), s\<lparr>tbl_vpc_peerings := snd (db_delete (peer_id p) (tbl_vpc_peerings s))\<rparr>)
             | None \<Rightarrow> (Inl (PeeringNotFound vname_a vname_b), s))"

definition get_peering :: "string \<Rightarrow> string \<Rightarrow> org_store \<Rightarrow> vpc_peering option" where
  "get_peering vname_a vname_b s =
     (case (get_vpc vname_a s, get_vpc vname_b s) of
        (Some va, Some vb) \<Rightarrow>
          find (\<lambda>p. fst (peering_name_key (peer_vpc_a p) (peer_vpc_b p)) =
                    fst (peering_name_key (vpc_id va) (vpc_id vb))) (list_peerings s)
      | _ \<Rightarrow> None)"

definition resolve_vpc_name :: "string \<Rightarrow> org_store \<Rightarrow> string" where
  "resolve_vpc_name i s = (case get_vpc_by_id i s of Some v \<Rightarrow> vpc_name v | None \<Rightarrow> i)"

section \<open>Security groups\<close>

definition create_sg ::
    "node_ctx \<Rightarrow> string \<Rightarrow> string \<Rightarrow> string option \<Rightarrow> org_store \<Rightarrow> security_group org_result \<times> org_store" where
  "create_sg c name vpc description s =
     (case validate_name name ''security group'' of
        Inl e \<Rightarrow> (Inl e, s)
      | Inr _ \<Rightarrow>
          let name_key = sg_name_key vpc name
          in if db_exists (idx_sg_name s) name_key then (Inl (SgAlreadyExists name), s)
             else
               let i = generate_id c 4 ''sg'';
                   sg = \<lparr>sg_id = i, sg_name = name, sg_vpc_id = vpc, sg_description = description,
                         sg_is_default = False, sg_state = Active, sg_created_at = ctx_now c\<rparr>
               in (Inr sg, s\<lparr>tbl_security_groups := db_set i sg (tbl_security_groups s),
                             idx_sg_name := db_set name_key i (idx_sg_name s)\<rparr>))"

definition get_sg :: "string \<Rightarrow> string \<Rightarrow> org_store \<Rightarrow> security_group option" where
  "get_sg vpc name s =
     (case db_get (idx_sg_name s) (sg_name_key vpc name) of
        Some i \<Rightarrow> db_get (tbl_security_groups s) i
      | None \<Rightarrow> None)"

definition list_sgs :: "org_store \<Rightarrow> security_group list" where
  "list_sgs s = map snd (db_list (tbl_security_groups s))"

definition list_sgs_by_vpc :: "string \<Rightarrow> org_store \<Rightarrow> security_group list" where
  "list_sgs_by_vpc vpc s = filter (\<lambda>sg. sg_vpc_id sg = vpc) (list_sgs s)"

definition delete_sg :: "string \<Rightarrow> string \<Rightarrow> org_store \<Rightarrow> unit org_result \<times> org_store" where
  "delete_sg vpc name s =
     (let name_key = sg_name_key vpc name
      in case db_get (idx_sg_name s) name_key of
           None \<Rightarrow> (Inl (SgNotFound name), s)
         | Some i \<Rightarrow>
             case db_get (tbl_security_groups s) i of
               None \<Rightarrow> (Inl (SgNotFound name), s)
             | Some sg \<Rightarrow>
                 if sg_is_default sg then (Inl (SgIsDefault name), s)
                 else (Inr (), s\<lparr>idx_sg_name := snd (db_delete name_key (idx_sg_name s)),
                                 tbl_security_groups := snd (db_delete i (tbl_security_groups s))\<rparr>))"

definition create_security_group ::
    "node_ctx \<Rightarrow> string \<Rightarrow> string \<Rightarrow> string \<Rightarrow> org_store \<Rightarrow> security_group org_result \<times> org_store" where
  "create_security_group c name vname description s =
     (case get_vpc vname s of
        None \<Rightarrow> (Inl (NotFound (''VPC '' @ quoted vname)), s)
      | Some v \<Rightarrow> create_sg c name (vpc_id v) (Some description) s)"

definition list_security_groups :: "string option \<Rightarrow> org_store \<Rightarrow> security_group list org_result" where
  "list_security_groups vname_opt s =
     (case vname_opt of
        None \<Rightarrow> Inr (list_sgs s)
      | Some vname \<Rightarrow>
          case get_vpc vname s of
            None \<Rightarrow> Inl (NotFound (''VPC '' @ quoted vname))
          | Some v \<Rightarrow> Inr (list_sgs_by_vpc (vpc_id v) s))"

text \<open>The messages of the source contain an em dash, three bytes in UTF-8.\<close>

definition em_dash :: string where
  "em_dash = [CHR 0xE2, CHR 0x80, CHR 0x94]"

definition get_security_group :: "string \<Rightarrow> string option \<Rightarrow> org_store \<Rightarrow> security_group option org_result" where
  "get_security_group name vname_opt s =
     (case vname_opt of
        Some vname \<Rightarrow>
          (case get_vpc vname s of
             None \<Rightarrow> Inl (NotFound (''VPC '' @ quoted vname))
           | Some v \<Rightarrow> Inr (get_sg (vpc_id v) name s))
      | None \<Rightarrow>
          case filter (\<lambda>sg. sg_name sg = name) (list_sgs s) of
            [] \<Rightarrow> Inr None
          | [sg] \<Rightarrow> Inr (Some sg)
          | _ \<Rightarrow> Inl (Ambiguous (''security group '' @ quoted name @ '' exists in multiple VPCs '' @
                     em_dash @ '' specify --vpc'')))"

definition delete_security_group :: "string \<Rightarrow> string option \<Rightarrow> org_store \<Rightarrow> unit org_result \<times> org_store" where
  "delete_security_group name vname_opt s =
     (case get_security_group name vname_opt s of
        Inl e \<Rightarrow> (Inl e, s)
      | Inr None \<Rightarrow> (Inl (NotFound (''security group '' @ quoted name)), s)
      | Inr (Some sg) \<Rightarrow>
          if sg_is_default sg then (Inl (CannotDelete ''cannot delete the default security group''), s)
          else delete_sg (sg_vpc_id sg) name s)"

definition find_sg_by_name :: "string \<Rightarrow> org_store \<Rightarrow> security_group option" where
  "find_sg_by_name name s = find (\<lambda>sg. sg_name sg = name) (list_sgs s)"

section \<open>Route tables\<close>

definition create_route_table ::
    "node_ctx \<Rightarrow> string \<Rightarrow> string \<Rightarrow> org_store \<Rightarrow> route_table org_result \<times> org_store" where
  "create_route_table c name vpc s =
     (case validate_name name ''route table'' of
        Inl e \<Rightarrow> (Inl e, s)
      | Inr _ \<Rightarrow>
          let name_key = route_table_name_key vpc name
          in if db_exists (idx_route_table_name s) name_key then (Inl (RouteTableAlreadyExists name), s)
             else
               let i = generate_id c 5 ''rtb'';
                   t = \<lparr>rtb_id = i, rtb_name = name, rtb_vpc_id = vpc, rtb_is_default = False,
                        rtb_state = Active, rtb_created_at = ctx_now c\<rparr>
               in (Inr t, s\<lparr>tbl_route_tables := db_set i t (tbl_route_tables s),
                            idx_route_table_name := db_set name_key i (idx_route_table_name s)\<rparr>))"

definition list_route_tables :: "org_store \<Rightarrow> route_table list" where
  "list_route_tables s = map snd (db_list (tbl_route_tables s))"

definition list_route_tables_by_vpc :: "string \<Rightarrow> org_store \<Rightarrow> route_table list" where
  "list_route_tables_by_vpc vpc s = filter (\<lambda>t. rtb_vpc_id t = vpc) (list_route_tables s)"

definition count_subnets_for_route_table :: "string \<Rightarrow> org_store \<Rightarrow> nat" where
  "count_subnets_for_route_table table s =
     length (filter (\<lambda>(_, t). t = table) (db_list (tbl_subnet_route_assoc s)))"

definition list_routes_by_table :: "string \<Rightarrow> org_store \<Rightarrow> route list" where
  "list_routes_by_table table s =
     map snd (filter (\<lambda>(k, _). starts_with k (table @ ''/'')) (db_list (tbl_routes s)))"

definition delete_route_table :: "string \<Rightarrow> string \<Rightarrow> org_store \<Rightarrow> unit org_result \<times> org_store" where
  "delete_route_table vpc name s =
     (let name_key = route_table_name_key vpc name
      in case db_get (idx_route_table_name s) name_key of
           None \<Rightarrow> (Inl (RouteTableNotFound name), s)
         | Some i \<Rightarrow>
             case db_get (tbl_route_tables s) i of
               None \<Rightarrow> (Inl (RouteTableNotFound name), s)
             | Some t \<Rightarrow>
                 let assoc_count = count_subnets_for_route_table (rtb_id t) s
                 in if rtb_is_default t then (Inl CannotDeleteDefaultRouteTable, s)
                    else if assoc_count > 0 then (Inl (RouteTableHasSubnets name assoc_count), s)
                    else
                      let routes' = fold (\<lambda>r rs. snd (db_delete (route_key (rtb_id t) (route_destination r)) rs))
                                      (list_routes_by_table (rtb_id t) s) (tbl_routes s)
                      in (Inr (), s\<lparr>tbl_routes := routes',
                                    idx_route_table_name := snd (db_delete name_key (idx_route_table_name s)),
                                    tbl_route_tables := snd (db_delete i (tbl_route_tables s))\<rparr>))"

definition delete_route_table_by_vpc_name ::
    "string \<Rightarrow> string \<Rightarrow> org_store \<Rightarrow> unit org_result \<times> org_store" where
  "delete_route_table_by_vpc_name vname name s =
     (case get_vpc vname s of
        None \<Rightarrow> (Inl (VpcNotFound vname), s)
      | Some v \<Rightarrow> delete_route_table (vpc_id v) name s)"

definition create_route_table_by_vpc_name ::
    "node_ctx \<Rightarrow> string \<Rightarrow> string \<Rightarrow> org_store \<Rightarrow> route_table org_result \<times> org_store" where
  "create_route_table_by_vpc_name c name vname s =
     (case get_vpc vname s of
        None \<Rightarrow> (Inl (VpcNotFound vname), s)
      | Some v \<Rightarrow> create_route_table c name (vpc_id v) s)"

definition list_route_tables_by_vpc_name :: "string option \<Rightarrow> org_store \<Rightarrow> route_table list org_result" where
  "list_route_tables_by_vpc_name vname_opt s =
     (case vname_opt of
        None \<Rightarrow> Inr (list_route_tables s)
      | Some vname \<Rightarrow>
          case get_vpc vname s of
            None \<Rightarrow> Inl (VpcNotFound vname)
          | Some v \<Rightarrow> Inr (list_route_tables_by_vpc (vpc_id v) s))"

section \<open>Routes\<close>

definition add_route ::
    "node_ctx \<Rightarrow> string \<Rightarrow> string \<Rightarrow> route_target \<Rightarrow> u32 option \<Rightarrow> org_store \<Rightarrow> route org_result \<times> org_store" where
  "add_route c table destination target priority s =
     (let key = route_key table destination
      in if db_exists (tbl_routes s) key then (Inl (RouteAlreadyExists destination), s)
         else
           let r = \<lparr>route_id = generate_id c 11 ''rt'', route_table_id = table,
                    route_destination = destination, route_target_of = target,
                    route_origin_of = OriginUser, route_status_of = RouteActive,
                    route_priority = (case priority of Some p \<Rightarrow> p | None \<Rightarrow> 100),
                    route_created_at = ctx_now c\<rparr>
           in (Inr r, s\<lparr>tbl_routes := db_set key r (tbl_routes s)\<rparr>))"

definition add_propagated_route ::
    "node_ctx \<Rightarrow> string \<Rightarrow> string \<Rightarrow> route_target \<Rightarrow> org_store \<Rightarrow> route \<times> org_store" where
  "add_propagated_route c table destination target s =
     (let r = \<lparr>route_id = generate_id c 11 ''rt'', route_table_id = table,
               route_destination = destination, route_target_of = target,
               route_origin_of = OriginPropagated, route_status_of = RouteActive,
               route_priority = 50, route_created_at = ctx_now c\<rparr>
      in (r, s\<lparr>tbl_routes := db_set (route_key table destination) r (tbl_routes s)\<rparr>))"

definition remove_route :: "string \<Rightarrow> string \<Rightarrow> org_store \<Rightarrow> unit org_result \<times> org_store" where
  "remove_route table destination s =
     (let key = route_key table destination
      in case db_get (tbl_routes s) key of
           None \<Rightarrow> (Inl (RouteNotFound destination), s)
         | Some r \<Rightarrow>
             case route_origin_of r of
               OriginSystem \<Rightarrow> (Inl CannotDeleteSystemRoute, s)
             | OriginPropagated \<Rightarrow> (Inl CannotDeletePropagatedRoute, s)
             | OriginUser \<Rightarrow> (Inr (), s\<lparr>tbl_routes := snd (db_delete key (tbl_routes s))\<rparr>))"

definition list_routes_by_vpc :: "string \<Rightarrow> org_store \<Rightarrow> route list" where
  "list_routes_by_vpc vpc s =
     concat (map (\<lambda>t. list_routes_by_table (rtb_id t) s) (list_route_tables_by_vpc vpc s))"

definition get_route :: "string \<Rightarrow> string \<Rightarrow> org_store \<Rightarrow> route option" where
  "get_route table destination s = db_get (tbl_routes s) (route_key table destination)"

definition update_route_status ::
    "string \<Rightarrow> string \<Rightarrow> route_status \<Rightarrow> org_store \<Rightarrow> unit org_result \<times> org_store" where
  "update_route_status table destination status s =
     (let key = route_key table destination
      in case db_get (tbl_routes s) key of
           None \<Rightarrow> (Inl (RouteNotFound destination), s)
         | Some r \<Rightarrow> (Inr (), s\<lparr>tbl_routes := db_set key (r\<lparr>route_status_of := status\<rparr>) (tbl_routes s)\<rparr>))"

definition get_subnet_route_table_id :: "string \<Rightarrow> org_store \<Rightarrow> string option" where
  "get_subnet_route_table_id i s = db_get (tbl_subnet_route_assoc s) i"

definition resolve_subnet_route_table :: "subnet \<Rightarrow> org_store \<Rightarrow> route_table org_result" where
  "resolve_subnet_route_table x s =
     (let explicit = (case get_subnet_route_table_id (sub_id x) s of
                        None \<Rightarrow> None
                      | Some table \<Rightarrow> find (\<lambda>t. rtb_id t = table) (list_route_tables_by_vpc (sub_vpc_id x) s))
      in case explicit of
           Some t \<Rightarrow> Inr t
         | None \<Rightarrow>
             case get_default_route_table (sub_vpc_id x) s of
               Some t \<Rightarrow> Inr t
             | None \<Rightarrow> Inl (RouteTableNotFound ''default''))"

section \<open>NAT gateways\<close>

definition nat_gw_name_key :: "string \<Rightarrow> string \<Rightarrow> string" where
  "nat_gw_name_key vpc name = vpc @ ''/'' @ name"

definition create_nat_gw ::
    "node_ctx \<Rightarrow> string \<Rightarrow> string \<Rightarrow> string \<Rightarrow> string \<Rightarrow> org_store \<Rightarrow> nat_gateway org_result \<times> org_store" where
  "create_nat_gw c name vpc subnet public_ip s =
     (case validate_name name ''nat-gw'' of
        Inl e \<Rightarrow> (Inl e, s)
      | Inr _ \<Rightarrow>
          let name_key = nat_gw_name_key vpc name
          in if db_exists (idx_nat_gw_name s) name_key then (Inl (NatGwAlreadyExists name), s)
             else
               let i = generate_id c 10 ''nat'';
                   gw = \<lparr>nat_id = i, nat_name = name, nat_vpc_id = vpc, nat_subnet_id = subnet,
                         nat_public_ip = public_ip, nat_state = Pending, nat_created_at = ctx_now c\<rparr>
               in (Inr gw, s\<lparr>tbl_nat_gateways := db_set i gw (tbl_nat_gateways s),
                             idx_nat_gw_name := db_set name_key i (idx_nat_gw_name s)\<rparr>))"

definition get_nat_gw :: "string \<Rightarrow> string \<Rightarrow> org_store \<Rightarrow> nat_gateway option" where
  "get_nat_gw vpc name s =
     (case db_get (idx_nat_gw_name s) (nat_gw_name_key vpc name) of
        Some i \<Rightarrow> db_get (tbl_nat_gateways s) i
      | None \<Rightarrow> None)"

definition list_nat_gws :: "org_store \<Rightarrow> nat_gateway list" where
  "list_nat_gws s = map snd (db_list (tbl_nat_gateways s))"

definition get_nat_gw_by_name :: "string \<Rightarrow> org_store \<Rightarrow> nat_gateway option org_result" where
  "get_nat_gw_by_name name s =
     (let matches = filter (\<lambda>g. nat_name g = name) (list_nat_gws s)
      in case matches of
           [] \<Rightarrow> Inr None
         | [g] \<Rightarrow> Inr (Some g)
         | _ \<Rightarrow> Inl (Ambiguous (''nat-gw name '' @ quoted name @ '' exists in '' @
                    show_nat (length matches) @ '' VPCs '' @ em_dash @ '' specify --vpc'')))"

definition list_nat_gws_by_vpc :: "string \<Rightarrow> org_store \<Rightarrow> nat_gateway list" where
  "list_nat_gws_by_vpc vpc s = filter (\<lambda>g. nat_vpc_id g = vpc) (list_nat_gws s)"

definition list_nat_gws_by_vpc_name :: "string option \<Rightarrow> org_store \<Rightarrow> nat_gateway list org_result" where
  "list_nat_gws_by_vpc_name vname_opt s =
     (case vname_opt of
        None \<Rightarrow> Inr (list_nat_gws s)
      | Some vname \<Rightarrow>
          case get_vpc vname s of
            None \<Rightarrow> Inl (VpcNotFound vname)
          | Some v \<Rightarrow> Inr (list_nat_gws_by_vpc (vpc_id v) s))"

definition update_nat_gw_state ::
    "string \<Rightarrow> string \<Rightarrow> resource_state \<Rightarrow> org_store \<Rightarrow> nat_gateway org_result \<times> org_store" where
  "update_nat_gw_state vpc name state s =
     (case db_get (idx_nat_gw_name s) (nat_gw_name_key vpc name) of
        None \<Rightarrow> (Inl (NatGwNotFound name), s)
      | Some i \<Rightarrow>
          case db_get (tbl_nat_gateways s) i of
            None \<Rightarrow> (Inl (NatGwNotFound name), s)
          | Some gw \<Rightarrow>
              let gw' = gw\<lparr>nat_state := state\<rparr>
              in (Inr gw', s\<lparr>tbl_nat_gateways := db_set i gw' (tbl_nat_gateways s)\<rparr>))"

definition delete_nat_gw :: "string \<Rightarrow> string \<Rightarrow> org_store \<Rightarrow> unit org_result \<times> org_store" where
  "delete_nat_gw vpc name s =
     (let name_key = nat_gw_name_key vpc name
      in case db_get (idx_nat_gw_name s) name_key of
           None \<Rightarrow> (Inl (NatGwNotFound name), s)
         | Some i \<Rightarrow> (Inr (), s\<lparr>idx_nat_gw_name := snd (db_delete name_key (idx_nat_gw_name s)),
                                tbl_nat_gateways := snd (db_delete i (tbl_nat_gateways s))\<rparr>))"

definition routes_referencing_nat_gw :: "string \<Rightarrow> string \<Rightarrow> org_store \<Rightarrow> route list" where
  "routes_referencing_nat_gw vpc name s =
     (case get_nat_gw vpc name s of
        None \<Rightarrow> []
      | Some g \<Rightarrow> filter (\<lambda>r. route_target_of r = TargetNatGateway (nat_id g)) (list_routes_by_vpc vpc s))"

section \<open>Network interfaces\<close>

definition list_nics_by_sg :: "string \<Rightarrow> org_store \<Rightarrow> network_interface list" where
  "list_nics_by_sg sg s =
     map snd (filter (\<lambda>(_, n). sg \<in> set (nic_security_groups n)) (db_list (tbl_nics s)))"

definition create_nic :: "network_interface \<Rightarrow> org_store \<Rightarrow> unit org_result \<times> org_store" where
  "create_nic nic s =
     (if db_exists (tbl_nics s) (nic_id nic) then (Inl (NicAlreadyExists (nic_id nic)), s)
      else (Inr (), s\<lparr>tbl_nics := db_set (nic_id nic) nic (tbl_nics s)\<rparr>))"

definition get_nic :: "string \<Rightarrow> org_store \<Rightarrow> network_interface option" where
  "get_nic i s = db_get (tbl_nics s) i"

definition delete_nic :: "string \<Rightarrow> org_store \<Rightarrow> unit org_result \<times> org_store" where
  "delete_nic i s =
     (case db_delete i (tbl_nics s) of
        (existed, t) \<Rightarrow> if \<not> existed then (Inl (NicNotFound i), s\<lparr>tbl_nics := t\<rparr>) else (Inr (), s\<lparr>tbl_nics := t\<rparr>))"

definition list_nics_by_vpc :: "string \<Rightarrow> org_store \<Rightarrow> network_interface list" where
  "list_nics_by_vpc vpc s =
     map snd (filter (\<lambda>(_, n). nic_vpc_id n = vpc \<and> nic_state n \<noteq> Deleted) (db_list (tbl_nics s)))"

definition find_nic_by_vm :: "string \<Rightarrow> org_store \<Rightarrow> network_interface option" where
  "find_nic_by_vm vm s = map_option snd (find (\<lambda>(_, n). nic_vm_id n = Some vm) (db_list (tbl_nics s)))"

definition resolve_sg_ref :: "string \<Rightarrow> org_store \<Rightarrow> security_group org_result" where
  "resolve_sg_ref sg_ref s =
     (case db_get (tbl_security_groups s) sg_ref of
        Some sg \<Rightarrow> Inr sg
      | None \<Rightarrow>
          case db_get (idx_sg_name s) sg_ref of
            None \<Rightarrow> Inl (SgNotFound sg_ref)
          | Some i \<Rightarrow>
              case db_get (tbl_security_groups s) i of
                Some sg \<Rightarrow> Inr sg
              | None \<Rightarrow> Inl (SgNotFound sg_ref))"

definition attach_sg_to_nic ::
    "string \<Rightarrow> string \<Rightarrow> org_store \<Rightarrow> network_interface org_result \<times> org_store" where
  "attach_sg_to_nic sg_ref i s =
     (case resolve_sg_ref sg_ref s of
        Inl e \<Rightarrow> (Inl e, s)
      | Inr sg \<Rightarrow>
          case db_get (tbl_nics s) i of
            None \<Rightarrow> (Inl (NicNotFound i), s)
          | Some nic \<Rightarrow>
              if sg_vpc_id sg \<noteq> nic_vpc_id nic
              then (Inl (SgVpcMismatch (sg_name sg) (sg_vpc_id sg) (nic_vpc_id nic)), s)
              else if sg_id sg \<in> set (nic_security_groups nic)
              then (Inl (SgAlreadyAttached (sg_name sg) (nic_name nic)), s)
              else
                let nic' = nic\<lparr>nic_security_groups := nic_security_groups nic @ [sg_id sg]\<rparr>
                in (Inr nic', s\<lparr>tbl_nics := db_set i nic' (tbl_nics s)\<rparr>))"

definition detach_sg_from_nic ::
    "string \<Rightarrow> string \<Rightarrow> org_store \<Rightarrow> network_interface org_result \<times> org_store" where
  "detach_sg_from_nic sg_ref i s =
     (case resolve_sg_ref sg_ref s of
        Inl e \<Rightarrow> (Inl e, s)
      | Inr sg \<Rightarrow>
          case db_get (tbl_nics s) i of
            None \<Rightarrow> (Inl (NicNotFound i), s)
          | Some nic \<Rightarrow>
              if sg_id sg \<notin> set (nic_security_groups nic)
              then (Inl (SgNotAttached (nic_name nic) (sg_name sg)), s)
              else if length (nic_security_groups nic) \<le> 1
              then (Inl (LastSgDetach (nic_name nic)), s)
              else
                let nic' = nic\<lparr>nic_security_groups := filter (\<lambda>j. j \<noteq> sg_id sg) (nic_security_groups nic)\<rparr>
                in (Inr nic', s\<lparr>tbl_nics := db_set i nic' (tbl_nics s)\<rparr>))"

definition list_sgs_for_nic :: "string \<Rightarrow> org_store \<Rightarrow> security_group list org_result" where
  "list_sgs_for_nic i s =
     (case db_get (tbl_nics s) i of
        None \<Rightarrow> Inl (NicNotFound i)
      | Some nic \<Rightarrow> Inr (filter (\<lambda>sg. sg_id sg \<in> set (nic_security_groups nic)) (list_sgs s)))"

end
