(* ===== verification/Ipam.thy ===== *)
theory Ipam
  imports Org_Types
begin

text \<open>
  Address management, \<^verbatim>\<open>layers/org/src/ipam.rs\<close>: a bitmap of 256 bits per subnet as the
  allocator and a table of allocation records as the audit trail.

  The first part shows that the bitmap is a set of host offsets: \<open>set_bit\<close>, \<open>clear_bit\<close>
  and \<open>is_set\<close> are insertion, removal and membership.  On top of that, \<open>allocate\<close> returns
  the lowest free offset between 3 and 254 and marks it, and fails only when all 252 are
  taken.  The second part states the invariant that ties bitmap and records together and
  shows that reserving and releasing keep it, so that no address is handed out twice.
\<close>

section \<open>The bitmap\<close>

type_synonym bitmap = "u8 list"

definition RESERVED_OFFSETS :: "nat list" where
  "RESERVED_OFFSETS = [0, 1, 2, 255]"

definition set_bit_at :: "bitmap \<Rightarrow> nat \<Rightarrow> bitmap" where
  "set_bit_at bits offset =
     (let byte_idx = offset div 8; bit_idx = offset mod 8
      in if byte_idx < length bits
         then bits[byte_idx := or (bits ! byte_idx) (push_bit bit_idx 1)] else bits)"

definition clear_bit_at :: "bitmap \<Rightarrow> nat \<Rightarrow> bitmap" where
  "clear_bit_at bits offset =
     (let byte_idx = offset div 8; bit_idx = offset mod 8
      in if byte_idx < length bits
         then bits[byte_idx := and (bits ! byte_idx) (not (push_bit bit_idx 1))] else bits)"

definition is_set :: "bitmap \<Rightarrow> nat \<Rightarrow> bool" where
  "is_set bits offset =
     (let byte_idx = offset div 8; bit_idx = offset mod 8
      in if byte_idx < length bits
         then and (drop_bit bit_idx (bits ! byte_idx)) 1 = 1 else False)"

definition new_bitmap :: bitmap where
  "new_bitmap = fold (\<lambda>offset bits. set_bit_at bits offset) RESERVED_OFFSETS (replicate 32 0)"

fun allocate_from :: "nat \<Rightarrow> nat \<Rightarrow> bitmap \<Rightarrow> (nat \<times> bitmap) option" where
  "allocate_from 0 offset bits = None"
| "allocate_from (Suc k) offset bits =
     (if \<not> is_set bits offset then Some (offset, set_bit_at bits offset)
      else allocate_from k (Suc offset) bits)"

text \<open>The loop \<^verbatim>\<open>for offset in 3..=254\<close>.\<close>

definition allocate :: "bitmap \<Rightarrow> (nat \<times> bitmap) option" where
  "allocate bits = allocate_from 252 3 bits"

definition release :: "bitmap \<Rightarrow> nat \<Rightarrow> bitmap" where
  "release bits offset = (if offset \<in> set RESERVED_OFFSETS then bits else clear_bit_at bits offset)"

definition HOST_OFFSETS :: "nat list" where
  "HOST_OFFSETS = [3..<255]"

definition available_count :: "bitmap \<Rightarrow> u32" where
  "available_count bits =
     fold (\<lambda>offset count. if \<not> is_set bits offset then count + 1 else count) HOST_OFFSETS 0"

subsection \<open>The bitmap as a set of offsets\<close>

lemma is_set_bit: "is_set bits n \<longleftrightarrow> n div 8 < length bits \<and> bit (bits ! (n div 8)) (n mod 8)"
  by (simp add: is_set_def Let_def and_one_eq bit_iff_odd_drop_bit odd_iff_mod_2_eq_one)

lemma length_set_bit_at [simp]: "length (set_bit_at bits n) = length bits"
  by (simp add: set_bit_at_def Let_def)

lemma length_clear_bit_at [simp]: "length (clear_bit_at bits n) = length bits"
  by (simp add: clear_bit_at_def Let_def)

lemma div_mod_8_eq: "(m :: nat) div 8 = n div 8 \<Longrightarrow> m mod 8 = n mod 8 \<longleftrightarrow> m = n"
  by (metis div_mult_mod_eq)

lemma is_set_set_bit_at:
  "is_set (set_bit_at bits n) m \<longleftrightarrow> (m = n \<and> n div 8 < length bits) \<or> is_set bits m"
proof (cases "m div 8 = n div 8 \<and> n div 8 < length bits")
  case True
  have "m mod 8 < 8" by simp
  with True show ?thesis
    using div_mod_8_eq [of m n]
    by (auto simp: is_set_bit set_bit_at_def Let_def bit_or_iff bit_exp_iff)
next
  case False
  then show ?thesis
    by (auto simp: is_set_bit set_bit_at_def Let_def)
qed

lemma is_set_clear_bit_at:
  "is_set (clear_bit_at bits n) m \<longleftrightarrow> m \<noteq> n \<and> is_set bits m"
proof (cases "m div 8 = n div 8 \<and> n div 8 < length bits")
  case True
  have "m mod 8 < 8" by simp
  with True show ?thesis
    using div_mod_8_eq [of m n]
    by (auto simp: is_set_bit clear_bit_at_def Let_def bit_and_iff bit_not_iff bit_exp_iff)
next
  case False
  then show ?thesis
    by (auto simp: is_set_bit clear_bit_at_def Let_def)
qed

definition bitmap_ok :: "bitmap \<Rightarrow> bool" where
  "bitmap_ok bits \<longleftrightarrow> length bits = 32 \<and> list_all (is_set bits) RESERVED_OFFSETS"

lemma in_range_byte: "n < 256 \<Longrightarrow> n div 8 < (32 :: nat)"
  by simp

lemma is_set_empty: "\<not> is_set (replicate 32 0) n"
  by (simp add: is_set_bit)

lemma new_bitmap_ok: "bitmap_ok new_bitmap" "is_set new_bitmap n \<longleftrightarrow> n \<in> set RESERVED_OFFSETS"
  by (auto simp: bitmap_ok_def new_bitmap_def RESERVED_OFFSETS_def is_set_set_bit_at is_set_empty)

lemma allocate_from_Some:
  assumes "allocate_from k offset bits = Some (n, bits')"
  shows "offset \<le> n \<and> n < offset + k \<and> \<not> is_set bits n \<and> bits' = set_bit_at bits n \<and>
         (\<forall>m. offset \<le> m \<and> m < n \<longrightarrow> is_set bits m)"
  using assms
proof (induction k arbitrary: offset)
  case (Suc k)
  show ?case
  proof (cases "is_set bits offset")
    case True
    with Suc.prems have "allocate_from k (Suc offset) bits = Some (n, bits')" by simp
    from Suc.IH [OF this] have ih: "Suc offset \<le> n" "n < offset + Suc k" "\<not> is_set bits n"
        "bits' = set_bit_at bits n" "\<forall>m. Suc offset \<le> m \<and> m < n \<longrightarrow> is_set bits m"
      by simp_all
    have "is_set bits m" if "offset \<le> m" "m < n" for m
      using ih(5) True that by (cases "m = offset") simp_all
    with ih show ?thesis by simp
  qed (use Suc.prems in auto)
qed simp

lemma allocate_from_None:
  "allocate_from k offset bits = None \<longleftrightarrow> (\<forall>m. offset \<le> m \<and> m < offset + k \<longrightarrow> is_set bits m)"
proof (induction k arbitrary: offset)
  case (Suc k)
  have "(\<forall>m. offset \<le> m \<and> m < offset + Suc k \<longrightarrow> is_set bits m) \<longleftrightarrow>
        is_set bits offset \<and> (\<forall>m. Suc offset \<le> m \<and> m < Suc offset + k \<longrightarrow> is_set bits m)"
    (is "?l \<longleftrightarrow> ?r")
  proof
    assume r: ?r
    show ?l
    proof (intro allI impI)
      fix m
      assume "offset \<le> m \<and> m < offset + Suc k"
      then show "is_set bits m" using r by (cases "m = offset") simp_all
    qed
  qed simp
  with Suc show ?case by simp
qed auto

lemma allocate_Some:
  assumes "allocate bits = Some (n, bits')"
  shows "3 \<le> n" "n \<le> 254" "\<not> is_set bits n" "bits' = set_bit_at bits n"
    "\<And>m. \<lbrakk>3 \<le> m; m < n\<rbrakk> \<Longrightarrow> is_set bits m"
  using allocate_from_Some [OF assms [unfolded allocate_def]] by auto

lemma allocate_None: "allocate bits = None \<longleftrightarrow> (\<forall>m. 3 \<le> m \<and> m \<le> 254 \<longrightarrow> is_set bits m)"
  by (auto simp: allocate_def allocate_from_None)

lemma bitmap_ok_allocate: "\<lbrakk>bitmap_ok bits; allocate bits = Some (n, bits')\<rbrakk> \<Longrightarrow> bitmap_ok bits'"
  by (drule allocate_Some(4)) (auto simp: bitmap_ok_def is_set_set_bit_at list_all_iff)

lemma bitmap_ok_release: "bitmap_ok bits \<Longrightarrow> bitmap_ok (release bits n)"
  by (auto simp: bitmap_ok_def release_def is_set_clear_bit_at list_all_iff)

text \<open>The counter of free addresses is their number.\<close>

lemma set_HOST_OFFSETS [simp]:
  "n \<in> set HOST_OFFSETS \<longleftrightarrow> 3 \<le> n \<and> n \<le> 254" "distinct HOST_OFFSETS" "length HOST_OFFSETS = 252"
proof -
  show "n \<in> set HOST_OFFSETS \<longleftrightarrow> 3 \<le> n \<and> n \<le> 254"
    unfolding HOST_OFFSETS_def set_upt by auto
  show "distinct HOST_OFFSETS" unfolding HOST_OFFSETS_def by (rule distinct_upt)
  show "length HOST_OFFSETS = 252" unfolding HOST_OFFSETS_def length_upt by simp
qed

lemma available_count_card:
  "unat (available_count bits) = card {n. 3 \<le> n \<and> n \<le> 254 \<and> \<not> is_set bits n}"
proof -
  have "fold (\<lambda>n count. if \<not> is_set bits n then count + 1 else count) xs (a :: u32)
          = a + of_nat (length (filter (\<lambda>n. \<not> is_set bits n) xs))" for xs a
    by (induction xs arbitrary: a) (simp_all add: algebra_simps)
  then have "available_count bits = of_nat (length (filter (\<lambda>n. \<not> is_set bits n) HOST_OFFSETS))"
    by (simp add: available_count_def)
  moreover have "length (filter (\<lambda>n. \<not> is_set bits n) HOST_OFFSETS)
      = card {n. 3 \<le> n \<and> n \<le> 254 \<and> \<not> is_set bits n}"
    using distinct_card [of "filter (\<lambda>n. \<not> is_set bits n) HOST_OFFSETS"] set_HOST_OFFSETS
    by (simp add: conj_assoc)
  moreover have "length (filter (\<lambda>n. \<not> is_set bits n) HOST_OFFSETS) \<le> length HOST_OFFSETS"
    by (rule length_filter_le)
  ultimately show ?thesis
    using set_HOST_OFFSETS(3) by (simp add: unat_of_nat take_bit_nat_eq_self_iff)
qed

section \<open>Allocation records\<close>

datatype allocation_state = AllocReserved | AllocAssigned | AllocOrphaned

record ip_allocation =
  al_ip :: string
  al_subnet_id :: string
  al_vm_id :: "string option"
  al_mac :: string
  al_state :: allocation_state
  al_allocated_at :: u64
  al_assigned_at :: "u64 option"

record ipam_store =
  tbl_bitmaps :: "(string, bitmap) table"
  tbl_allocations :: "(string, ip_allocation) table"

definition empty_ipam_store :: ipam_store where
  "empty_ipam_store = \<lparr>tbl_bitmaps = [], tbl_allocations = []\<rparr>"

fun mac_from_ip :: "ipv4 \<Rightarrow> string" where
  "mac_from_ip (Ipv4 a b c d) =
     ''02:00:'' @ pad_zero 2 (show_hex (unat a)) @ '':'' @ pad_zero 2 (show_hex (unat b)) @ '':'' @
     pad_zero 2 (show_hex (unat c)) @ '':'' @ pad_zero 2 (show_hex (unat d))"

definition parse_subnet_base :: "ipnet_lib \<Rightarrow> string \<Rightarrow> ipv4 org_result" where
  "parse_subnet_base lib cidr =
     (case net_parse lib cidr of
        None \<Rightarrow> Inl (InvalidCidr (''invalid subnet CIDR: '' @ cidr))
      | Some net \<Rightarrow> Inr (net_network lib net))"

fun ip_from_offset :: "ipv4 \<Rightarrow> nat \<Rightarrow> ipv4" where
  "ip_from_offset (Ipv4 a b c d) offset = Ipv4 a b c (of_nat offset)"

fun last_octet :: "ipv4 \<Rightarrow> nat" where
  "last_octet (Ipv4 a b c d) = unat d"

definition allocation_key :: "string \<Rightarrow> string \<Rightarrow> string" where
  "allocation_key sid ip = sid @ ''/'' @ ip"

definition load_bitmap :: "string \<Rightarrow> ipam_store \<Rightarrow> bitmap" where
  "load_bitmap sid s = (case db_get (tbl_bitmaps s) sid of Some bm \<Rightarrow> bm | None \<Rightarrow> new_bitmap)"

text \<open>\<^verbatim>\<open>reserve_ip\<close> is \<^verbatim>\<open>reserve_ip_at\<close> with the current time; the two writes are one
  transaction.\<close>

definition reserve_ip_at ::
    "ipnet_lib \<Rightarrow> u64 \<Rightarrow> string \<Rightarrow> string \<Rightarrow> ipam_store \<Rightarrow> (ip_allocation \<times> ipam_store) org_result" where
  "reserve_ip_at lib timestamp sid cidr s =
     (case parse_subnet_base lib cidr of
        Inl e \<Rightarrow> Inl e
      | Inr base \<Rightarrow>
          (case allocate (load_bitmap sid s) of
             None \<Rightarrow> Inl (IpExhausted sid)
           | Some (offset, bitmap) \<Rightarrow>
               let ip = ip_from_offset base offset;
                   allocation = \<lparr>al_ip = ipv4_to_string ip, al_subnet_id = sid, al_vm_id = None,
                                 al_mac = mac_from_ip ip, al_state = AllocReserved,
                                 al_allocated_at = timestamp, al_assigned_at = None\<rparr>;
                   key = allocation_key sid (al_ip allocation)
               in Inr (allocation,
                       s\<lparr>tbl_bitmaps := db_set sid bitmap (tbl_bitmaps s),
                         tbl_allocations := db_set key allocation (tbl_allocations s)\<rparr>)))"

definition reserve_ip ::
    "node_ctx \<Rightarrow> string \<Rightarrow> string \<Rightarrow> ipam_store \<Rightarrow> (ip_allocation \<times> ipam_store) org_result" where
  "reserve_ip c sid cidr s = reserve_ip_at (ctx_net c) (ctx_now c) sid cidr s"

definition assign_ip ::
    "node_ctx \<Rightarrow> string \<Rightarrow> string \<Rightarrow> string \<Rightarrow> ipam_store \<Rightarrow> (ip_allocation \<times> ipam_store) org_result" where
  "assign_ip c sid ip vm s =
     (case db_get (tbl_allocations s) (allocation_key sid ip) of
        None \<Rightarrow> Inl (IpNotFound sid ip)
      | Some allocation \<Rightarrow>
          if al_state allocation = AllocAssigned then Inl (IpAlreadyAssigned sid ip)
          else
            let allocation' = allocation\<lparr>al_state := AllocAssigned, al_vm_id := Some vm,
                                         al_assigned_at := Some (ctx_now c)\<rparr>
            in Inr (allocation', s\<lparr>tbl_allocations :=
                  db_set (allocation_key sid ip) allocation' (tbl_allocations s)\<rparr>))"

definition release_ip ::
    "ipnet_lib \<Rightarrow> string \<Rightarrow> string \<Rightarrow> string \<Rightarrow> ipam_store \<Rightarrow> ipam_store org_result" where
  "release_ip lib sid cidr ip s =
     (case parse_subnet_base lib cidr of
        Inl e \<Rightarrow> Inl e
      | Inr _ \<Rightarrow>
          (case parse_ipv4 ip of
             None \<Rightarrow> Inl (InvalidCidr (''invalid IP address: '' @ ip))
           | Some addr \<Rightarrow>
               let offset = last_octet addr
               in if \<not> (3 \<le> offset \<and> offset \<le> 254)
                  then Inl (InvalidCidr (''cannot release reserved address: '' @ ip))
                  else
                    let bitmap = release (load_bitmap sid s) offset;
                        key = allocation_key sid ip
                    in if \<not> db_exists (tbl_allocations s) key then Inl (IpNotFound sid ip)
                       else Inr (s\<lparr>tbl_bitmaps := db_set sid bitmap (tbl_bitmaps s),
                                   tbl_allocations := snd (db_delete key (tbl_allocations s))\<rparr>)))"

definition list_allocations :: "string \<Rightarrow> ipam_store \<Rightarrow> ip_allocation list" where
  "list_allocations sid s =
     map snd (filter (\<lambda>(k, _). starts_with k (sid @ ''/'')) (db_list (tbl_allocations s)))"

definition find_orphans_at :: "u64 \<Rightarrow> u64 \<Rightarrow> ipam_store \<Rightarrow> ip_allocation list" where
  "find_orphans_at max_age_secs now s =
     map snd (filter (\<lambda>(_, a). al_state a = AllocReserved \<and>
         saturating_sub now (al_allocated_at a) > max_age_secs) (db_list (tbl_allocations s)))"

definition find_orphans :: "node_ctx \<Rightarrow> u64 \<Rightarrow> ipam_store \<Rightarrow> ip_allocation list" where
  "find_orphans c max_age_secs s = find_orphans_at max_age_secs (ctx_now c) s"

definition mark_orphaned :: "string \<Rightarrow> string \<Rightarrow> ipam_store \<Rightarrow> (ip_allocation \<times> ipam_store) org_result" where
  "mark_orphaned sid ip s =
     (case db_get (tbl_allocations s) (allocation_key sid ip) of
        None \<Rightarrow> Inl (IpNotFound sid ip)
      | Some allocation \<Rightarrow>
          let allocation' = allocation\<lparr>al_state := AllocOrphaned\<rparr>
          in Inr (allocation', s\<lparr>tbl_allocations :=
                db_set (allocation_key sid ip) allocation' (tbl_allocations s)\<rparr>))"

definition get_allocation :: "string \<Rightarrow> string \<Rightarrow> ipam_store \<Rightarrow> ip_allocation option" where
  "get_allocation sid ip s = db_get (tbl_allocations s) (allocation_key sid ip)"

subsection \<open>Addresses as strings\<close>

lemma allocation_key_inject:
  assumes "CHR ''/'' \<notin> set ip" "CHR ''/'' \<notin> set ip'"
  shows "allocation_key sid ip = allocation_key sid' ip' \<longleftrightarrow> sid = sid' \<and> ip = ip'"
proof -
  have "allocation_key sid ip = allocation_key sid' ip' \<longleftrightarrow>
        rev ip @ CHR ''/'' # rev sid = rev ip' @ CHR ''/'' # rev sid'"
    unfolding allocation_key_def by (metis append_Cons append_Nil append_assoc rev.simps(2) rev_append rev_rev_ident)
  also have "\<dots> \<longleftrightarrow> rev ip = rev ip' \<and> rev sid = rev sid'"
    using assms by (intro joined_key_inject) simp_all
  finally show ?thesis by auto
qed

section \<open>Bitmap and records agree\<close>

definition host :: "nat \<Rightarrow> bool" where
  "host n \<longleftrightarrow> 3 \<le> n \<and> n \<le> 254"

text \<open>What the store relies on of its allocator; \<open>tracks\<close>: the taken offsets are a given set.\<close>

definition tracks :: "('b \<Rightarrow> bool) \<Rightarrow> ('b \<Rightarrow> nat \<Rightarrow> bool) \<Rightarrow> 'b \<Rightarrow> nat set \<Rightarrow> bool" where
  "tracks invar taken b R \<longleftrightarrow> invar b \<and> (\<forall>n. host n \<longrightarrow> taken b n \<longleftrightarrow> n \<in> R)"

locale offset_allocator =
  fixes invar :: "'b \<Rightarrow> bool"
    and taken :: "'b \<Rightarrow> nat \<Rightarrow> bool"
    and alloc :: "'b \<Rightarrow> (nat \<times> 'b) option"
    and free :: "'b \<Rightarrow> nat \<Rightarrow> 'b"
  assumes alloc_Some: "\<lbrakk>invar b; alloc b = Some (n, b')\<rbrakk> \<Longrightarrow>
      host n \<and> \<not> taken b n \<and> invar b' \<and> (\<forall>m. host m \<longrightarrow> taken b' m \<longleftrightarrow> m = n \<or> taken b m)"
    and alloc_None: "invar b \<Longrightarrow> alloc b = None \<longleftrightarrow> (\<forall>n. host n \<longrightarrow> taken b n)"
    and free_taken: "\<lbrakk>invar b; host n\<rbrakk> \<Longrightarrow>
      invar (free b n) \<and> (\<forall>m. host m \<longrightarrow> taken (free b n) m \<longleftrightarrow> m \<noteq> n \<and> taken b m)"
begin

lemma tracks_alloc:
  "\<lbrakk>tracks invar taken b R; alloc b = Some (n, b')\<rbrakk>
   \<Longrightarrow> host n \<and> n \<notin> R \<and> tracks invar taken b' (insert n R)"
  unfolding tracks_def using alloc_Some by blast

lemma tracks_free:
  "\<lbrakk>tracks invar taken b R; host n\<rbrakk> \<Longrightarrow> tracks invar taken (free b n) (R - {n})"
  unfolding tracks_def using free_taken by blast

lemma tracks_full: "tracks invar taken b R \<Longrightarrow> alloc b = None \<longleftrightarrow> (\<forall>n. host n \<longrightarrow> n \<in> R)"
  unfolding tracks_def using alloc_None by blast

end

interpretation bm: offset_allocator bitmap_ok is_set allocate release
proof
  show "host n \<and> \<not> is_set b n \<and> bitmap_ok b' \<and> (\<forall>m. host m \<longrightarrow> is_set b' m \<longleftrightarrow> m = n \<or> is_set b m)"
    if "bitmap_ok b" "allocate b = Some (n, b')" for b n b'
  proof -
    have "n div 8 < length b"
      using that(1) allocate_Some(2) [OF that(2)] by (simp add: bitmap_ok_def)
    then show ?thesis
      using allocate_Some(1-4) [OF that(2)] bitmap_ok_allocate [OF that]
      by (simp add: host_def is_set_set_bit_at)
  qed
  show "allocate b = None \<longleftrightarrow> (\<forall>n. host n \<longrightarrow> is_set b n)" if "bitmap_ok b" for b
    by (simp add: allocate_None host_def)
  show "bitmap_ok (release b n) \<and> (\<forall>m. host m \<longrightarrow> is_set (release b n) m \<longleftrightarrow> m \<noteq> n \<and> is_set b m)"
    if "bitmap_ok b" "host n" for b n
    using bitmap_ok_release [OF that(1), of n] that(2)
    by (auto simp: release_def host_def RESERVED_OFFSETS_def is_set_clear_bit_at)
qed

definition host_ip :: "ipv4 \<Rightarrow> nat \<Rightarrow> string" where
  "host_ip base n = ipv4_to_string (ip_from_offset base n)"

definition allocated :: "ipv4 \<Rightarrow> string \<Rightarrow> ipam_store \<Rightarrow> nat set" where
  "allocated base sid s = {n. host n \<and> get_allocation sid (host_ip base n) s \<noteq> None}"

definition subnet_ok :: "ipv4 \<Rightarrow> string \<Rightarrow> ipam_store \<Rightarrow> bool" where
  "subnet_ok base sid s \<longleftrightarrow>
     tracks bitmap_ok is_set (load_bitmap sid s) (allocated base sid s) \<and>
     (\<forall>ip a. parse_ipv4 ip = Some a \<and> get_allocation sid ip s \<noteq> None \<longrightarrow> (\<exists>n. host n \<and> ip = host_ip base n))"

lemma last_octet_from_offset [simp]: "host n \<Longrightarrow> last_octet (ip_from_offset base n) = n"
  by (cases base) (simp add: host_def unat_of_nat take_bit_nat_eq_self_iff)

lemma parse_host_ip [simp]: "parse_ipv4 (host_ip base n) = Some (ip_from_offset base n)"
  by (simp add: host_ip_def)

lemma host_ip_inject: "\<lbrakk>host m; host n\<rbrakk> \<Longrightarrow> host_ip base m = host_ip base n \<longleftrightarrow> m = n"
  by (metis last_octet_from_offset option.inject parse_host_ip)

lemma host_ip_no_slash: "CHR ''/'' \<notin> set (host_ip base n)"
  by (rule parse_ipv4_no_slash [OF parse_host_ip])

lemma subnet_ok_empty: "subnet_ok base sid empty_ipam_store"
  using new_bitmap_ok(1) new_bitmap_ok(2) [of n for n]
  by (auto simp: subnet_ok_def tracks_def allocated_def load_bitmap_def get_allocation_def
        empty_ipam_store_def host_def RESERVED_OFFSETS_def)

lemma reserve_ip_at_Inr:
  assumes "reserve_ip_at lib ts sid cidr s = Inr (a, s')"
  obtains base n bits where "parse_subnet_base lib cidr = Inr base"
    "allocate (load_bitmap sid s) = Some (n, bits)" "al_ip a = host_ip base n" "al_subnet_id a = sid"
    "al_state a = AllocReserved" "al_mac a = mac_from_ip (ip_from_offset base n)"
    "load_bitmap sid s' = bits" "\<And>sid'. sid' \<noteq> sid \<Longrightarrow> load_bitmap sid' s' = load_bitmap sid' s"
    "\<And>sid' ip. CHR ''/'' \<notin> set ip \<Longrightarrow>
       get_allocation sid' ip s' = (if sid' = sid \<and> ip = host_ip base n then Some a else get_allocation sid' ip s)"
proof -
  obtain base n bits where r: "parse_subnet_base lib cidr = Inr base"
      "allocate (load_bitmap sid s) = Some (n, bits)"
    using assms by (auto simp: reserve_ip_at_def Let_def split: sum.splits option.splits)
  let ?a = "\<lparr>al_ip = host_ip base n, al_subnet_id = sid, al_vm_id = None,
      al_mac = mac_from_ip (ip_from_offset base n), al_state = AllocReserved,
      al_allocated_at = ts, al_assigned_at = None\<rparr>"
  have eq: "a = ?a" "s' = s\<lparr>tbl_bitmaps := db_set sid bits (tbl_bitmaps s),
      tbl_allocations := db_set (allocation_key sid (host_ip base n)) ?a (tbl_allocations s)\<rparr>"
    using assms r by (auto simp: reserve_ip_at_def Let_def host_ip_def)
  show thesis
    by (rule that [OF r])
       (simp_all add: eq load_bitmap_def get_allocation_def allocation_key_inject host_ip_no_slash)
qed

lemma allocated_insert:
  assumes "host n" "\<And>ip. CHR ''/'' \<notin> set ip \<Longrightarrow>
      get_allocation sid ip s' = (if ip = host_ip base n then Some a else get_allocation sid ip s)"
  shows "allocated base sid s' = insert n (allocated base sid s)"
  using assms by (auto simp: allocated_def host_ip_no_slash host_ip_inject split: if_splits)

lemma reserve_subnet_ok:
  assumes ok: "subnet_ok base sid s" and base: "parse_subnet_base lib cidr = Inr base"
    and res: "reserve_ip_at lib ts sid cidr s = Inr (a, s')"
  shows "subnet_ok base sid s'" "get_allocation sid (al_ip a) s = None"
    "get_allocation sid (al_ip a) s' = Some a"
    "\<exists>n. host n \<and> al_ip a = host_ip base n \<and> allocated base sid s' = insert n (allocated base sid s) \<and>
         (\<forall>m. host m \<and> m < n \<longrightarrow> m \<in> allocated base sid s)"
proof -
  from res base obtain n bits where r: "allocate (load_bitmap sid s) = Some (n, bits)"
      "al_ip a = host_ip base n" "load_bitmap sid s' = bits"
    and get: "\<And>ip. CHR ''/'' \<notin> set ip \<Longrightarrow>
      get_allocation sid ip s' = (if ip = host_ip base n then Some a else get_allocation sid ip s)"
    by (elim reserve_ip_at_Inr) simp_all
  have tr: "tracks bitmap_ok is_set (load_bitmap sid s) (allocated base sid s)"
    using ok by (simp add: subnet_ok_def)
  note al = bm.tracks_alloc [OF tr r(1)]
  have ins: "allocated base sid s' = insert n (allocated base sid s)"
    using al get by (intro allocated_insert) auto
  show "get_allocation sid (al_ip a) s = None"
    using al r(2) by (auto simp: allocated_def)
  show "get_allocation sid (al_ip a) s' = Some a"
    using get [OF host_ip_no_slash] r(2) by simp
  have "\<exists>m. host m \<and> ip = host_ip base m"
    if "parse_ipv4 ip = Some b" "get_allocation sid ip s' \<noteq> None" for ip b
    using that ok al get [OF parse_ipv4_no_slash [OF that(1)]]
    by (cases "ip = host_ip base n") (auto simp: subnet_ok_def)
  then show "subnet_ok base sid s'"
    using al ins r(3) by (auto simp: subnet_ok_def)
  have "m \<in> allocated base sid s" if "host m" "m < n" for m
    using tr allocate_Some(5) [OF r(1), of m] that by (simp add: tracks_def host_def)
  then show "\<exists>n. host n \<and> al_ip a = host_ip base n \<and> allocated base sid s' = insert n (allocated base sid s) \<and>
      (\<forall>m. host m \<and> m < n \<longrightarrow> m \<in> allocated base sid s)"
    using al ins r(2) by blast
qed

lemma reserve_exhausted:
  assumes ok: "subnet_ok base sid s" and base: "parse_subnet_base lib cidr = Inr base"
  shows "reserve_ip_at lib ts sid cidr s = Inl (IpExhausted sid) \<longleftrightarrow> (\<forall>n. host n \<longrightarrow> n \<in> allocated base sid s)"
proof -
  have "reserve_ip_at lib ts sid cidr s = Inl (IpExhausted sid) \<longleftrightarrow> allocate (load_bitmap sid s) = None"
    using base by (auto simp: reserve_ip_at_def Let_def split: option.splits)
  then show ?thesis
    using bm.tracks_full ok by (simp add: subnet_ok_def)
qed

lemma release_subnet_ok:
  assumes ok: "subnet_ok base sid s" and rel: "release_ip lib sid cidr ip s = Inr s'"
  shows "subnet_ok base sid s'" "get_allocation sid ip s \<noteq> None" "get_allocation sid ip s' = None"
proof -
  obtain addr where addr: "parse_ipv4 ip = Some addr" "host (last_octet addr)"
      "get_allocation sid ip s \<noteq> None"
    and s': "s' = s\<lparr>tbl_bitmaps := db_set sid (release (load_bitmap sid s) (last_octet addr)) (tbl_bitmaps s),
        tbl_allocations := snd (db_delete (allocation_key sid ip) (tbl_allocations s))\<rparr>"
    using rel by (auto simp: release_ip_def Let_def host_def get_allocation_def
        split: sum.splits option.splits if_splits)
  from addr ok obtain n where n: "host n" "ip = host_ip base n"
    unfolding subnet_ok_def by blast
  then have oct: "last_octet addr = n" using addr(1) last_octet_from_offset [of n base] by auto
  have get: "get_allocation sid ip' s' = (if ip' = ip then None else get_allocation sid ip' s)"
    if "CHR ''/'' \<notin> set ip'" for ip'
    using that n(2) by (auto simp: s' get_allocation_def allocation_key_inject host_ip_no_slash)
  have "allocated base sid s' = allocated base sid s - {n}"
    using n get by (auto simp: allocated_def host_ip_no_slash host_ip_inject)
  moreover have "load_bitmap sid s' = release (load_bitmap sid s) n"
    by (simp add: s' load_bitmap_def oct)
  ultimately have "tracks bitmap_ok is_set (load_bitmap sid s') (allocated base sid s')"
    using ok n(1) bm.tracks_free by (simp add: subnet_ok_def)
  moreover have "\<exists>m. host m \<and> ip' = host_ip base m"
    if "parse_ipv4 ip' = Some b" "get_allocation sid ip' s' \<noteq> None" for ip' b
    using that ok get [OF parse_ipv4_no_slash [OF that(1)]]
    by (cases "ip' = ip") (auto simp: subnet_ok_def)
  ultimately show "subnet_ok base sid s'" by (auto simp: subnet_ok_def)
  show "get_allocation sid ip s \<noteq> None" by (rule addr(3))
  show "get_allocation sid ip s' = None" using get [of ip] n(2) host_ip_no_slash by simp
qed

end
