(* ===== verification/Hypervisor_Store.thy ===== *)
theory Hypervisor_Store
  imports Org_Types
begin

text \<open>
  The hypervisor registry, \<^verbatim>\<open>layers/org/src/hypervisor.rs\<close>: records by identifier, an index
  from names to identifiers, and the state transitions of a compute host.

  \<open>hv_store_ok\<close> says that index and records agree, so that a name denotes at most one
  host; every operation of the store keeps it.  \<open>transition_allowed\<close> is the relation the
  code checks; its consequences for the states a host can be in are at the end.
\<close>

record hypervisor_store =
  tbl_hypervisors :: "(string, hypervisor) table"
  tbl_hypervisor_names :: "(string, string) table"

definition empty_hypervisor_store :: hypervisor_store where
  "empty_hypervisor_store = \<lparr>tbl_hypervisors = [], tbl_hypervisor_names = []\<rparr>"

fun transition_allowed :: "hypervisor_state \<Rightarrow> hypervisor_state \<Rightarrow> bool" where
  "transition_allowed HvRegistering HvNotReady = True"
| "transition_allowed HvNotReady HvAvailable = True"
| "transition_allowed HvAvailable HvDraining = True"
| "transition_allowed HvAvailable HvMaintenance = True"
| "transition_allowed HvAvailable HvDecommissioned = True"
| "transition_allowed HvDraining HvAvailable = True"
| "transition_allowed HvDraining HvMaintenance = True"
| "transition_allowed HvMaintenance HvAvailable = True"
| "transition_allowed HvMaintenance HvDecommissioned = True"
| "transition_allowed _ _ = False"

definition validate_state_transition :: "hypervisor_state \<Rightarrow> hypervisor_state \<Rightarrow> unit org_result" where
  "validate_state_transition a b =
     (if \<not> transition_allowed a b
      then Inl (InvalidStateTransition (hypervisor_state_to_string a) (hypervisor_state_to_string b))
      else Inr ())"

definition hypervisor_create :: "hypervisor \<Rightarrow> hypervisor_store \<Rightarrow> hypervisor_store org_result" where
  "hypervisor_create hv s =
     (if db_exists (tbl_hypervisor_names s) (hv_name hv) then Inl (AlreadyExists (hv_name hv))
      else if db_exists (tbl_hypervisors s) (hv_id hv) then Inl (AlreadyExists (hv_id hv))
      else Inr (s\<lparr>tbl_hypervisors := db_set (hv_id hv) hv (tbl_hypervisors s),
                  tbl_hypervisor_names := db_set (hv_name hv) (hv_id hv) (tbl_hypervisor_names s)\<rparr>))"

definition hypervisor_get_by_id :: "string \<Rightarrow> hypervisor_store \<Rightarrow> hypervisor option" where
  "hypervisor_get_by_id i s = db_get (tbl_hypervisors s) i"

definition hypervisor_get :: "string \<Rightarrow> hypervisor_store \<Rightarrow> hypervisor option" where
  "hypervisor_get name s =
     (case db_get (tbl_hypervisor_names s) name of
        None \<Rightarrow> None
      | Some i \<Rightarrow> hypervisor_get_by_id i s)"

definition hypervisor_list :: "hypervisor_store \<Rightarrow> hypervisor list" where
  "hypervisor_list s = map snd (db_list (tbl_hypervisors s))"

definition get_by_fabric_node_id :: "string \<Rightarrow> hypervisor_store \<Rightarrow> hypervisor option" where
  "get_by_fabric_node_id n s = find (\<lambda>h. hv_fabric_node_id h = n) (hypervisor_list s)"

definition list_by_region :: "string \<Rightarrow> hypervisor_store \<Rightarrow> hypervisor list" where
  "list_by_region r s = filter (\<lambda>h. hv_region h = r) (hypervisor_list s)"

definition list_by_zone :: "string \<Rightarrow> hypervisor_store \<Rightarrow> hypervisor list" where
  "list_by_zone z s = filter (\<lambda>h. hv_zone h = z) (hypervisor_list s)"

definition hypervisor_delete :: "string \<Rightarrow> hypervisor_store \<Rightarrow> hypervisor_store org_result" where
  "hypervisor_delete name s =
     (case db_get (tbl_hypervisor_names s) name of
        None \<Rightarrow> Inl (NotFound (''hypervisor '' @ quoted name))
      | Some i \<Rightarrow> Inr (s\<lparr>tbl_hypervisors := snd (db_delete i (tbl_hypervisors s)),
                         tbl_hypervisor_names := snd (db_delete name (tbl_hypervisor_names s))\<rparr>))"

definition hypervisor_delete_by_id :: "string \<Rightarrow> hypervisor_store \<Rightarrow> hypervisor_store org_result" where
  "hypervisor_delete_by_id i s =
     (case hypervisor_get_by_id i s of
        None \<Rightarrow> Inl (NotFound (''hypervisor '' @ quoted i))
      | Some hv \<Rightarrow> Inr (s\<lparr>tbl_hypervisors := snd (db_delete i (tbl_hypervisors s)),
                          tbl_hypervisor_names := snd (db_delete (hv_name hv) (tbl_hypervisor_names s))\<rparr>))"

definition hypervisor_update_state ::
    "string \<Rightarrow> hypervisor_state \<Rightarrow> hypervisor_store \<Rightarrow> hypervisor_store org_result" where
  "hypervisor_update_state name new_state s =
     (case hypervisor_get name s of
        None \<Rightarrow> Inl (NotFound (''hypervisor '' @ quoted name))
      | Some hv \<Rightarrow>
          (case validate_state_transition (hv_state hv) new_state of
             Inl e \<Rightarrow> Inl e
           | Inr _ \<Rightarrow> Inr (s\<lparr>tbl_hypervisors :=
               db_set (hv_id hv) (hv\<lparr>hv_state := new_state\<rparr>) (tbl_hypervisors s)\<rparr>)))"

definition hypervisor_update_capacity ::
    "string \<Rightarrow> allocatable_capacity \<Rightarrow> hypervisor_store \<Rightarrow> hypervisor_store org_result" where
  "hypervisor_update_capacity name capacity s =
     (case hypervisor_get name s of
        None \<Rightarrow> Inl (NotFound (''hypervisor '' @ quoted name))
      | Some hv \<Rightarrow> Inr (s\<lparr>tbl_hypervisors :=
          db_set (hv_id hv) (hv\<lparr>hv_capacity := capacity\<rparr>) (tbl_hypervisors s)\<rparr>))"

definition hypervisor_update :: "hypervisor \<Rightarrow> hypervisor_store \<Rightarrow> hypervisor_store org_result" where
  "hypervisor_update hv s =
     (if \<not> db_exists (tbl_hypervisors s) (hv_id hv)
      then Inl (NotFound (''hypervisor '' @ quoted (hv_name hv)))
      else Inr (s\<lparr>tbl_hypervisors := db_set (hv_id hv) hv (tbl_hypervisors s),
                  tbl_hypervisor_names := db_set (hv_name hv) (hv_id hv) (tbl_hypervisor_names s)\<rparr>))"

text \<open>The upgrade of a record keyed by name, called at start-up.\<close>

definition migrate_legacy_record :: "string \<Rightarrow> hypervisor_store \<Rightarrow> hypervisor_store" where
  "migrate_legacy_record name s =
     (if db_exists (tbl_hypervisor_names s) name then s
      else case db_get (tbl_hypervisors s) name of
        None \<Rightarrow> s
      | Some hv \<Rightarrow>
          s\<lparr>tbl_hypervisors := db_set (hv_id hv) hv (snd (db_delete name (tbl_hypervisors s))),
            tbl_hypervisor_names := db_set (hv_name hv) (hv_id hv) (tbl_hypervisor_names s)\<rparr>)"

section \<open>Index and records agree\<close>

definition hv_store_ok :: "hypervisor_store \<Rightarrow> bool" where
  "hv_store_ok s \<longleftrightarrow>
     (\<forall>i hv. hypervisor_get_by_id i s = Some hv \<longrightarrow>
        hv_id hv = i \<and> db_get (tbl_hypervisor_names s) (hv_name hv) = Some i) \<and>
     (\<forall>n i. db_get (tbl_hypervisor_names s) n = Some i \<longrightarrow>
        (\<exists>hv. hypervisor_get_by_id i s = Some hv \<and> hv_name hv = n))"

lemma hv_store_okD:
  assumes "hv_store_ok s"
  shows "hypervisor_get_by_id i s = Some hv \<Longrightarrow> hv_id hv = i"
    and "hypervisor_get_by_id i s = Some hv \<Longrightarrow> db_get (tbl_hypervisor_names s) (hv_name hv) = Some i"
    and "db_get (tbl_hypervisor_names s) n = Some i \<Longrightarrow>
         \<exists>hv. hypervisor_get_by_id i s = Some hv \<and> hv_name hv = n"
  using assms unfolding hv_store_ok_def by blast+

lemma hv_store_okI:
  assumes "\<And>i hv. hypervisor_get_by_id i s = Some hv \<Longrightarrow>
      hv_id hv = i \<and> db_get (tbl_hypervisor_names s) (hv_name hv) = Some i"
    and "\<And>n i. db_get (tbl_hypervisor_names s) n = Some i \<Longrightarrow>
      \<exists>hv. hypervisor_get_by_id i s = Some hv \<and> hv_name hv = n"
  shows "hv_store_ok s"
  using assms unfolding hv_store_ok_def by blast

lemma hypervisor_get_by_id_set [simp]:
  "hypervisor_get_by_id i (s\<lparr>tbl_hypervisors := db_set k hv t\<rparr>) =
     (if i = k then Some hv else db_get t i)"
  "hypervisor_get_by_id i (s\<lparr>tbl_hypervisors := snd (db_delete k t)\<rparr>) =
     (if i = k then None else db_get t i)"
  "hypervisor_get_by_id i (s\<lparr>tbl_hypervisor_names := u\<rparr>) = hypervisor_get_by_id i s"
  by (simp_all add: hypervisor_get_by_id_def)

lemma hv_store_ok_get:
  assumes ok: "hv_store_ok s" and g: "hypervisor_get name s = Some hv"
  shows "hv_name hv = name" "hypervisor_get_by_id (hv_id hv) s = Some hv"
    "db_get (tbl_hypervisor_names s) name = Some (hv_id hv)"
proof -
  obtain i where i: "db_get (tbl_hypervisor_names s) name = Some i" "hypervisor_get_by_id i s = Some hv"
    using g by (auto simp: hypervisor_get_def split: option.splits)
  with hv_store_okD(3) [OF ok i(1)] hv_store_okD(1) [OF ok i(2)]
  show "hv_name hv = name" "hypervisor_get_by_id (hv_id hv) s = Some hv"
    "db_get (tbl_hypervisor_names s) name = Some (hv_id hv)" by auto
qed

lemma hv_store_ok_empty: "hv_store_ok empty_hypervisor_store"
  by (simp add: hv_store_ok_def empty_hypervisor_store_def hypervisor_get_by_id_def)

lemma hv_store_ok_create:
  assumes ok: "hv_store_ok s" and cr: "hypervisor_create hv s = Inr s'"
  shows "hv_store_ok s'"
proof -
  have new: "db_get (tbl_hypervisor_names s) (hv_name hv) = None" "db_get (tbl_hypervisors s) (hv_id hv) = None"
    and s': "s' = s\<lparr>tbl_hypervisors := db_set (hv_id hv) hv (tbl_hypervisors s),
                   tbl_hypervisor_names := db_set (hv_name hv) (hv_id hv) (tbl_hypervisor_names s)\<rparr>"
    using cr by (auto simp: hypervisor_create_def split: if_splits)
  note d = hv_store_okD [OF ok, unfolded hypervisor_get_by_id_def]
  show ?thesis
  proof (rule hv_store_okI)
    show "hv_id w = i \<and> db_get (tbl_hypervisor_names s') (hv_name w) = Some i"
      if "hypervisor_get_by_id i s' = Some w" for i w
      using that new d(1) [of i w] d(2) [of i w] unfolding s' by (auto split: if_splits)
    show "\<exists>w. hypervisor_get_by_id i s' = Some w \<and> hv_name w = n"
      if "db_get (tbl_hypervisor_names s') n = Some i" for n i
      using that new d(3) [of n i] unfolding s' by (auto split: if_splits)
  qed
qed

lemma hv_store_ok_replace:
  assumes ok: "hv_store_ok s" and old: "hypervisor_get_by_id (hv_id hv) s = Some w" "hv_name w = hv_name hv"
  shows "hv_store_ok (s\<lparr>tbl_hypervisors := db_set (hv_id hv) hv (tbl_hypervisors s)\<rparr>)"
proof -
  note d = hv_store_okD [OF ok, unfolded hypervisor_get_by_id_def]
  note o = old [unfolded hypervisor_get_by_id_def]
  show ?thesis
  proof (rule hv_store_okI, goal_cases)
    case (1 i v) then show ?case using o d(1) [of i v] d(2) [of i v] d(2) [OF o(1)] by (auto split: if_splits)
  next
    case (2 n i) then show ?case using o d(3) [of n i] by (auto split: if_splits)
  qed
qed

lemma hv_store_ok_update_state:
  assumes ok: "hv_store_ok s" and u: "hypervisor_update_state n st s = Inr s'"
  shows "hv_store_ok s'"
proof -
  obtain hv where hv: "hypervisor_get n s = Some hv"
    "s' = s\<lparr>tbl_hypervisors := db_set (hv_id hv) (hv\<lparr>hv_state := st\<rparr>) (tbl_hypervisors s)\<rparr>"
    using u by (auto simp: hypervisor_update_state_def split: option.splits sum.splits)
  show ?thesis
    using hv_store_ok_replace [OF ok, of "hv\<lparr>hv_state := st\<rparr>" hv] hv_store_ok_get(2) [OF ok hv(1)]
    by (simp add: hv(2))
qed

lemma hv_store_ok_update:
  assumes ok: "hv_store_ok s" and old: "hypervisor_get_by_id (hv_id hv) s = Some w" "hv_name w = hv_name hv"
    and upd: "hypervisor_update hv s = Inr s'"
  shows "hv_store_ok s'"
proof -
  let ?s = "s\<lparr>tbl_hypervisors := db_set (hv_id hv) hv (tbl_hypervisors s)\<rparr>"
  have ok': "hv_store_ok ?s" by (rule hv_store_ok_replace [OF ok old])
  have idx: "db_get (tbl_hypervisor_names s) (hv_name hv) = Some (hv_id hv)"
    using hv_store_okD(2) [OF ok old(1)] old(2) by simp
  have "s' = ?s\<lparr>tbl_hypervisor_names := db_set (hv_name hv) (hv_id hv) (tbl_hypervisor_names s)\<rparr>"
    using upd by (auto simp: hypervisor_update_def split: if_splits)
  moreover have "db_get (db_set (hv_name hv) (hv_id hv) (tbl_hypervisor_names s)) k =
      db_get (tbl_hypervisor_names s) k" for k
    using idx by simp
  ultimately have "hypervisor_get_by_id i s' = hypervisor_get_by_id i ?s"
    "db_get (tbl_hypervisor_names s') n = db_get (tbl_hypervisor_names ?s) n" for i n
    by simp_all
  then show ?thesis using ok' unfolding hv_store_ok_def by presburger
qed

lemma hv_store_ok_delete:
  assumes ok: "hv_store_ok s" and del: "hypervisor_delete n s = Inr s'"
  shows "hv_store_ok s'"
proof -
  obtain k where k: "db_get (tbl_hypervisor_names s) n = Some k"
    and s': "s' = s\<lparr>tbl_hypervisors := snd (db_delete k (tbl_hypervisors s)),
                   tbl_hypervisor_names := snd (db_delete n (tbl_hypervisor_names s))\<rparr>"
    using del by (auto simp: hypervisor_delete_def split: option.splits)
  note d = hv_store_okD [OF ok, unfolded hypervisor_get_by_id_def]
  show ?thesis
  proof (rule hv_store_okI)
    show "hv_id w = i \<and> db_get (tbl_hypervisor_names s') (hv_name w) = Some i"
      if "hypervisor_get_by_id i s' = Some w" for i w
      using that k d(1) [of i w] d(2) [of i w] unfolding s' by (auto split: if_splits)
    show "\<exists>w. hypervisor_get_by_id i s' = Some w \<and> hv_name w = m"
      if "db_get (tbl_hypervisor_names s') m = Some i" for m i
      using that d(3) [of m i] d(3) [OF k] unfolding s' by (auto split: if_splits)
  qed
qed

section \<open>Host states\<close>

lemma decommissioned_final: "\<not> transition_allowed HvDecommissioned st"
  by (cases st) simp_all

lemma update_state_effect:
  assumes "hypervisor_update_state n st s = Inr s'"
  obtains hv where "hypervisor_get n s = Some hv" "transition_allowed (hv_state hv) st"
    "s' = s\<lparr>tbl_hypervisors := db_set (hv_id hv) (hv\<lparr>hv_state := st\<rparr>) (tbl_hypervisors s)\<rparr>"
  using assms
  by (auto simp: hypervisor_update_state_def validate_state_transition_def
           split: option.splits sum.splits if_splits)

end
