(* ===== verification/Placement_Store.thy ===== *)
theory Placement_Store
  imports Org_Types
begin

text \<open>
  VM placements, \<^verbatim>\<open>layers/org/src/placement.rs\<close>, keyed by \<^verbatim>\<open>"{vpc_id}/{vm_id}"\<close>; and the
  security-group rules of \<^verbatim>\<open>layers/org/src/sg_rules.rs\<close>, keyed by rule identifier.
\<close>

section \<open>Placements\<close>

record placement_store =
  tbl_placements :: "(string, vm_placement) table"

definition empty_placement_store :: placement_store where
  "empty_placement_store = \<lparr>tbl_placements = []\<rparr>"

definition placement_key :: "string \<Rightarrow> string \<Rightarrow> string" where
  "placement_key vpc vm = vpc @ ''/'' @ vm"

definition add_placement :: "vm_placement \<Rightarrow> placement_store \<Rightarrow> placement_store" where
  "add_placement p s =
     s\<lparr>tbl_placements := db_set (placement_key (pl_vpc_id p) (pl_vm_id p)) p (tbl_placements s)\<rparr>"

definition remove_placement :: "string \<Rightarrow> string \<Rightarrow> placement_store \<Rightarrow> placement_store org_result" where
  "remove_placement vpc vm s =
     (case db_delete (placement_key vpc vm) (tbl_placements s) of
        (existed, t) \<Rightarrow>
          if \<not> existed then Inl (NotFound (''placement '' @ vpc @ ''/'' @ vm))
          else Inr (s\<lparr>tbl_placements := t\<rparr>))"

definition get_placement :: "string \<Rightarrow> string \<Rightarrow> placement_store \<Rightarrow> vm_placement option" where
  "get_placement vpc vm s = db_get (tbl_placements s) (placement_key vpc vm)"

definition list_by_vpc :: "string \<Rightarrow> placement_store \<Rightarrow> vm_placement list" where
  "list_by_vpc vpc s =
     map snd (filter (\<lambda>(k, _). starts_with k (vpc @ ''/'')) (db_list (tbl_placements s)))"

definition list_all_placements :: "placement_store \<Rightarrow> vm_placement list" where
  "list_all_placements s = map snd (db_list (tbl_placements s))"

definition list_by_node :: "string \<Rightarrow> placement_store \<Rightarrow> vm_placement list" where
  "list_by_node h s =
     map snd (filter (\<lambda>(_, p). pl_hypervisor_id p = h) (db_list (tbl_placements s)))"

text \<open>Every record is filed under the key built from its own fields.\<close>

definition placements_keyed :: "placement_store \<Rightarrow> bool" where
  "placements_keyed s \<longleftrightarrow>
     tbl_wf (tbl_placements s) \<and>
     (\<forall>k p. db_get (tbl_placements s) k = Some p \<longrightarrow> k = placement_key (pl_vpc_id p) (pl_vm_id p))"

lemma placements_keyed_add: "placements_keyed s \<Longrightarrow> placements_keyed (add_placement p s)"
  by (auto simp: placements_keyed_def add_placement_def)

lemma placements_keyed_remove:
  "\<lbrakk>placements_keyed s; remove_placement v m s = Inr s'\<rbrakk> \<Longrightarrow> placements_keyed s'"
  by (auto simp: placements_keyed_def remove_placement_def db_delete_def db_get_def split: if_splits)

lemma in_list_all_placements:
  "placements_keyed s \<Longrightarrow>
   p \<in> set (list_all_placements s) \<longleftrightarrow> get_placement (pl_vpc_id p) (pl_vm_id p) s = Some p"
  by (force simp: list_all_placements_def get_placement_def placements_keyed_def
        in_db_list_iff [symmetric] image_iff)

lemma remove_listed:
  assumes "placements_keyed s" "p \<in> set (list_all_placements s)"
  obtains s' where "remove_placement (pl_vpc_id p) (pl_vm_id p) s = Inr s'"
    "\<And>k. db_get (tbl_placements s') k =
       (if k = placement_key (pl_vpc_id p) (pl_vm_id p) then None else db_get (tbl_placements s) k)"
  using assms in_list_all_placements [OF assms(1), of p]
  by (auto simp: remove_placement_def get_placement_def db_delete_def db_get_def)

section \<open>Security-group rules\<close>

record sg_rule_store =
  tbl_sg_rules :: "(string, sg_rule) table"

definition empty_sg_rule_store :: sg_rule_store where
  "empty_sg_rule_store = \<lparr>tbl_sg_rules = []\<rparr>"

definition validate_rule :: "sg_rule \<Rightarrow> unit org_result" where
  "validate_rule rule =
     (case rule_port_range rule of
        None \<Rightarrow> Inr ()
      | Some pr \<Rightarrow>
          if pr_from pr = 0 \<or> pr_to pr = 0
          then Inl (InvalidPortRange ''port must be between 1 and 65535'')
          else if pr_from pr > pr_to pr
          then Inl (InvalidPortRange (''from port ('' @ show_nat (unat (pr_from pr)) @
                 '') must be <= to port ('' @ show_nat (unat (pr_to pr)) @ '')''))
          else Inr ())"

definition add_rule :: "sg_rule \<Rightarrow> sg_rule_store \<Rightarrow> sg_rule_store org_result" where
  "add_rule rule s =
     (case validate_rule rule of
        Inl e \<Rightarrow> Inl e
      | Inr _ \<Rightarrow>
          if db_exists (tbl_sg_rules s) (rule_id rule) then Inl (RuleAlreadyExists (rule_id rule))
          else Inr (s\<lparr>tbl_sg_rules := db_set (rule_id rule) rule (tbl_sg_rules s)\<rparr>))"

definition remove_rule :: "string \<Rightarrow> sg_rule_store \<Rightarrow> sg_rule_store org_result" where
  "remove_rule i s =
     (case db_delete i (tbl_sg_rules s) of
        (existed, t) \<Rightarrow> if \<not> existed then Inl (RuleNotFound i) else Inr (s\<lparr>tbl_sg_rules := t\<rparr>))"

definition list_rules :: "sg_rule_store \<Rightarrow> sg_rule list" where
  "list_rules s = map snd (db_list (tbl_sg_rules s))"

definition list_rules_by_sg :: "string \<Rightarrow> sg_rule_store \<Rightarrow> sg_rule list" where
  "list_rules_by_sg sg s =
     map snd (filter (\<lambda>(_, r). rule_sg_id r = sg) (db_list (tbl_sg_rules s)))"

definition create_default_rules ::
    "string \<Rightarrow> string \<Rightarrow> sg_rule_store \<Rightarrow> sg_rule list org_result \<times> sg_rule_store" where
  "create_default_rules sg cidr s =
     (let ssh_rule = \<lparr>rule_id = sg @ ''-default-ssh'', rule_sg_id = sg, rule_direction = Ingress,
                      rule_protocol = Tcp, rule_port_range = Some \<lparr>pr_from = 22, pr_to = 22\<rparr>,
                      rule_source_of = SourceCidr cidr, rule_priority = 100,
                      rule_description = Some ''Allow SSH from VPC CIDR''\<rparr>;
          icmp_rule = \<lparr>rule_id = sg @ ''-default-icmp'', rule_sg_id = sg, rule_direction = Ingress,
                      rule_protocol = Icmp, rule_port_range = None,
                      rule_source_of = SourceCidr cidr, rule_priority = 100,
                      rule_description = Some ''Allow ICMP from VPC CIDR''\<rparr>
      in case add_rule ssh_rule s of
           Inl e \<Rightarrow> (Inl e, s)
         | Inr s1 \<Rightarrow>
             (case add_rule icmp_rule s1 of
                Inl e \<Rightarrow> (Inl e, s1)
              | Inr s2 \<Rightarrow> (Inr [ssh_rule, icmp_rule], s2)))"

definition rules_ok :: "sg_rule_store \<Rightarrow> bool" where
  "rules_ok s \<longleftrightarrow>
     (\<forall>k r. db_get (tbl_sg_rules s) k = Some r \<longrightarrow>
        rule_id r = k \<and>
        (\<forall>pr. rule_port_range r = Some pr \<longrightarrow> 0 < pr_from pr \<and> pr_from pr \<le> pr_to pr))"

lemma rules_ok_add: "\<lbrakk>rules_ok s; add_rule r s = Inr s'\<rbrakk> \<Longrightarrow> rules_ok s'"
  by (auto simp: rules_ok_def add_rule_def validate_rule_def word_neq_0_conv not_less
           split: option.splits if_splits)

lemma rules_ok_remove: "\<lbrakk>rules_ok s; remove_rule i s = Inr s'\<rbrakk> \<Longrightarrow> rules_ok s'"
  by (auto simp: rules_ok_def remove_rule_def db_delete_def db_get_def split: if_splits)

end
