(* ===== verification/Org_Commands.thy ===== *)
theory Org_Commands
  imports Network_Resources Storage_Replica Ipam Hypervisor_Store Placement_Store
begin

text \<open>
  The replica (\<^verbatim>\<open>RedbStateMachine\<close> in \<^verbatim>\<open>layers/controlplane/src/state_machine.rs\<close>) and the
  commands on organizations and networks: the arms of \<^verbatim>\<open>apply_command\<close> that dispatch to the
  org store, the address store and the rule store.

  \<open>replica\<close> extends the storage part with the other stores.  The address, placement, rule
  and hypervisor stores are optional, as in the source: a replica without one refuses the
  commands that need it.  \<open>sm_events\<close> collects the placement events sent to the broadcast
  channel, the latest last.
\<close>

section \<open>The replica\<close>

datatype placement_event =
    PlacementAdded string string string string string string
  | PlacementRemoved string string string string string

record replica = storage_sm +
  sm_org :: org_store
  sm_ipam :: "ipam_store option"
  sm_placement :: "placement_store option"
  sm_sg_rules :: "sg_rule_store option"
  sm_hypervisors :: "hypervisor_store option"
  sm_events :: "placement_event list"

definition new_replica :: replica where
  "new_replica =
     \<lparr>sm_storage = empty_storage_state, sm_storage_store = None, sm_org = empty_org_store,
      sm_ipam = None, sm_placement = None, sm_sg_rules = None, sm_hypervisors = None, sm_events = []\<rparr>"

section \<open>Commands\<close>

datatype (plugins only: code size) org_command =
    CreateOrg string
  | DeleteOrg string
  | CreateProject string string
  | DeleteProject string string
  | CreateEnv string string string "u64 option" bool "(string, string) hmap"
  | DeleteEnv string string string
  | ExtendEnv string string string u64
  | UpdateEnv string string string "bool option"
  | CreateVpc string string string bool
  | DeleteVpc string
  | AttachVpc string string
  | DetachVpc string string
  | PeerVpc string string
  | UnpeerVpc string string
  | CreateSubnet string string string "string option"
  | DeleteSubnet string string

datatype (plugins only: code size) network_command =
    CreateSg string string
  | DeleteSg string
  | AddSgRule string string string "string option" string
  | RemoveSgRule string string
  | AttachSg string string
  | DetachSg string string
  | CreateNatGw string string string
  | DeleteNatGw string
  | CreateRouteTable string string
  | DeleteRouteTable string "string option"
  | AssociateRouteTable string string
  | DisassociateRouteTable string
  | AddRoute string "string option" string string "u32 option"
  | DeleteRoute string "string option" string
  | AllocateIp string
  | ReleaseIp string string
  | CreateNic string string string string
  | DeleteNic string

section \<open>Answers\<close>

text \<open>The outcome of an operation of the org store becomes the new store and the answer.\<close>

definition answer :: "('a \<Rightarrow> response) \<Rightarrow> 'a org_result \<times> org_store \<Rightarrow> replica \<Rightarrow> replica \<times> response" where
  "answer f outcome sm =
     (case outcome of
        (Inl e, s) \<Rightarrow> (sm\<lparr>sm_org := s\<rparr>, Error (OrgError e))
      | (Inr x, s) \<Rightarrow> (sm\<lparr>sm_org := s\<rparr>, f x))"

abbreviation refuse :: "replica \<Rightarrow> string \<Rightarrow> replica \<times> response" where
  "refuse sm msg \<equiv> (sm, Error (OtherError msg))"

section \<open>Organizations, projects, environments, VPCs, subnets\<close>

definition vpc_owner_of_string :: "string \<Rightarrow> vpc_owner" where
  "vpc_owner_of_string owner = (if CHR ''/'' \<in> set owner then OwnerProject owner else OwnerOrg owner)"

text \<open>A subnet in a VPC whose name ends in \<^verbatim>\<open>-default\<close> creates the VPC when it is missing.\<close>

definition ensure_default_vpc :: "node_ctx \<Rightarrow> string \<Rightarrow> org_store \<Rightarrow> unit org_result \<times> org_store" where
  "ensure_default_vpc c vname s =
     (if ends_with vname ''-default'' \<and> get_vpc vname s = None
      then case split_once CHR ''-'' (case strip_suffix ''-default'' vname of Some p \<Rightarrow> p | None \<Rightarrow> vname) of
             None \<Rightarrow> (Inr (), s)
           | Some (oname, pname) \<Rightarrow>
               case create_vpc c vname ''10.1.0.0/16'' (OwnerProject (oname @ ''/'' @ pname)) False s of
                 (Inl e, s1) \<Rightarrow> (Inl e, s1)
               | (Inr _, s1) \<Rightarrow> (Inr (), s1)
      else (Inr (), s))"

definition apply_CreateSubnet ::
    "node_ctx \<Rightarrow> string \<Rightarrow> string \<Rightarrow> string \<Rightarrow> string option \<Rightarrow> replica \<Rightarrow> replica \<times> response" where
  "apply_CreateSubnet c name vname eid cidr sm =
     (case ensure_default_vpc c vname (sm_org sm) of
        (Inl e, s) \<Rightarrow> (sm\<lparr>sm_org := s\<rparr>, Error (AutoVpcFailed vname e))
      | (Inr _, s) \<Rightarrow> answer (\<lambda>x. Created (sub_id x)) (create_subnet c vname eid name cidr s) sm)"

definition apply_UpdateEnv ::
    "node_ctx \<Rightarrow> string \<Rightarrow> string \<Rightarrow> string \<Rightarrow> bool option \<Rightarrow> replica \<Rightarrow> replica \<times> response" where
  "apply_UpdateEnv c name pname oname protection sm =
     (case protection of
        Some dp \<Rightarrow> answer (\<lambda>_. Ok) (update_env_protection c oname pname name dp (sm_org sm)) sm
      | None \<Rightarrow> refuse sm ''no update specified'')"

fun apply_org :: "node_ctx \<Rightarrow> org_command \<Rightarrow> replica \<Rightarrow> replica \<times> response" where
  "apply_org c (CreateOrg name) sm = answer (\<lambda>x. Created (org_id x)) (org_create c name (sm_org sm)) sm"
| "apply_org c (DeleteOrg name) sm = answer (\<lambda>_. Ok) (org_delete c name (sm_org sm)) sm"
| "apply_org c (CreateProject name oname) sm =
     answer (\<lambda>x. Created (proj_id x)) (create_project c oname name (sm_org sm)) sm"
| "apply_org c (DeleteProject name oname) sm = answer (\<lambda>_. Ok) (delete_project c oname name (sm_org sm)) sm"
| "apply_org c (CreateEnv name pname oname ttl dp labels) sm =
     answer (\<lambda>x. Created (env_id x)) (create_env c oname pname name ttl dp labels (sm_org sm)) sm"
| "apply_org c (DeleteEnv name pname oname) sm = answer (\<lambda>_. Ok) (delete_env c oname pname name (sm_org sm)) sm"
| "apply_org c (ExtendEnv name pname oname ttl) sm =
     answer (\<lambda>_. Ok) (extend_env c oname pname name ttl (sm_org sm)) sm"
| "apply_org c (UpdateEnv name pname oname dp) sm = apply_UpdateEnv c name pname oname dp sm"
| "apply_org c (CreateVpc name cidr owner shared) sm =
     answer (\<lambda>x. Created (vpc_id x)) (create_vpc c name cidr (vpc_owner_of_string owner) shared (sm_org sm)) sm"
| "apply_org c (DeleteVpc name) sm = answer (\<lambda>_. Ok) (delete_vpc name (sm_org sm)) sm"
| "apply_org c (AttachVpc vname pid) sm = answer (\<lambda>_. Ok) (attach_vpc c vname pid (sm_org sm)) sm"
| "apply_org c (DetachVpc vname pid) sm = answer (\<lambda>_. Ok) (detach_vpc vname pid (sm_org sm)) sm"
| "apply_org c (PeerVpc a b) sm = answer (\<lambda>_. Ok) (create_peering c a b (sm_org sm)) sm"
| "apply_org c (UnpeerVpc a b) sm = answer (\<lambda>_. Ok) (delete_peering a b (sm_org sm)) sm"
| "apply_org c (CreateSubnet name vname eid cidr) sm = apply_CreateSubnet c name vname eid cidr sm"
| "apply_org c (DeleteSubnet name vname) sm = answer (\<lambda>_. Ok) (delete_subnet vname name (sm_org sm)) sm"

section \<open>Security groups, gateways, routes\<close>

definition parse_direction :: "string \<Rightarrow> direction option" where
  "parse_direction s = (if s = ''ingress'' then Some Ingress else if s = ''egress'' then Some Egress else None)"

definition parse_protocol :: "string \<Rightarrow> protocol option" where
  "parse_protocol s =
     (if s = ''tcp'' then Some Tcp else if s = ''udp'' then Some Udp
      else if s = ''icmp'' then Some Icmp else if s = ''all'' then Some AllProtocols else None)"

definition parse_u16 :: "string \<Rightarrow> u16 option" where
  "parse_u16 s = map_option of_nat (parse_nat 65535 s)"

definition parse_ports :: "string \<Rightarrow> port_range option" where
  "parse_ports p =
     (case split_once CHR ''-'' p of
        Some (from, to) \<Rightarrow>
          Some \<lparr>pr_from = (case parse_u16 from of Some n \<Rightarrow> n | None \<Rightarrow> 0),
                pr_to = (case parse_u16 to of Some n \<Rightarrow> n | None \<Rightarrow> 0)\<rparr>
      | None \<Rightarrow> map_option (\<lambda>n. \<lparr>pr_from = n, pr_to = n\<rparr>) (parse_u16 p))"

definition apply_AddSgRule ::
    "node_ctx \<Rightarrow> string \<Rightarrow> string \<Rightarrow> string \<Rightarrow> string option \<Rightarrow> string \<Rightarrow> replica \<Rightarrow> replica \<times> response" where
  "apply_AddSgRule c sg direction protocol port source sm =
     (case sm_sg_rules sm of
        None \<Rightarrow> (sm, Error (StoreMissing ''SG rule store not available in state machine''))
      | Some rules \<Rightarrow>
      case find_sg_by_name sg (sm_org sm) of
        None \<Rightarrow> refuse sm (''security group not found: '' @ sg)
      | Some sg_record \<Rightarrow>
      case parse_direction direction of
        None \<Rightarrow> refuse sm (''invalid direction: '' @ quoted direction)
      | Some dir \<Rightarrow>
      case parse_protocol protocol of
        None \<Rightarrow> refuse sm (''invalid protocol: '' @ quoted protocol)
      | Some proto \<Rightarrow>
          let ports = Option.bind port parse_ports;
              src = SourceCidr source;
              i = ''rule-'' @ pad_zero 16 (show_hex (unat (ctx_rule_hash c (sg_id sg_record, dir, proto, ports, src))));
              rule = \<lparr>rule_id = i, rule_sg_id = sg_id sg_record, rule_direction = dir, rule_protocol = proto,
                      rule_port_range = ports, rule_source_of = src, rule_priority = 100,
                      rule_description = None\<rparr>
          in case add_rule rule rules of
               Inl e \<Rightarrow> (sm, Error (OrgError e))
             | Inr rules' \<Rightarrow> (sm\<lparr>sm_sg_rules := Some rules'\<rparr>, Ok))"

text \<open>The \<^verbatim>\<open>sg\<close> of \<^verbatim>\<open>RemoveSgRule\<close> is ignored by the source.\<close>

definition apply_RemoveSgRule :: "string \<Rightarrow> string \<Rightarrow> replica \<Rightarrow> replica \<times> response" where
  "apply_RemoveSgRule sg i sm =
     (case sm_sg_rules sm of
        None \<Rightarrow> (sm, Error (StoreMissing ''SG rule store not available in state machine''))
      | Some rules \<Rightarrow>
          case remove_rule i rules of
            Inl e \<Rightarrow> (sm, Error (OrgError e))
          | Inr rules' \<Rightarrow> (sm\<lparr>sm_sg_rules := Some rules'\<rparr>, Ok))"

definition apply_CreateNatGw ::
    "node_ctx \<Rightarrow> string \<Rightarrow> string \<Rightarrow> string \<Rightarrow> replica \<Rightarrow> replica \<times> response" where
  "apply_CreateNatGw c name vname subnet sm =
     (case get_vpc vname (sm_org sm) of
        None \<Rightarrow> refuse sm (''VPC not found: '' @ vname)
      | Some v \<Rightarrow>
          case filter (\<lambda>(_, x). sub_vpc_id x = vpc_id v) (find_subnets_by_name subnet (sm_org sm)) of
            [] \<Rightarrow> refuse sm (''subnet '' @ quoted subnet @ '' not found in VPC '' @ quoted vname)
          | [(_, x)] \<Rightarrow>
              answer (\<lambda>gw. Created (nat_id gw))
                (create_nat_gw c name (vpc_id v) (sub_id x) ''0.0.0.0'' (sm_org sm)) sm
          | _ \<Rightarrow> refuse sm (''ambiguous subnet '' @ quoted subnet @ '' in VPC '' @ quoted vname))"

definition apply_DeleteNatGw :: "string \<Rightarrow> replica \<Rightarrow> replica \<times> response" where
  "apply_DeleteNatGw name sm =
     (case get_nat_gw_by_name name (sm_org sm) of
        Inl e \<Rightarrow> (sm, Error (OrgError e))
      | Inr None \<Rightarrow> refuse sm (''nat-gw not found: '' @ name)
      | Inr (Some gw) \<Rightarrow> answer (\<lambda>_. Ok) (delete_nat_gw (nat_vpc_id gw) name (sm_org sm)) sm)"

definition apply_DeleteRouteTable :: "string \<Rightarrow> string option \<Rightarrow> replica \<Rightarrow> replica \<times> response" where
  "apply_DeleteRouteTable name vname_opt sm =
     answer (\<lambda>_. Ok)
       (case vname_opt of
          Some vname \<Rightarrow> delete_route_table_by_vpc_name vname name (sm_org sm)
        | None \<Rightarrow>
            case filter (\<lambda>t. rtb_name t = name) (list_route_tables (sm_org sm)) of
              [] \<Rightarrow> (Inl (RouteTableNotFound name), sm_org sm)
            | [t] \<Rightarrow> delete_route_table (rtb_vpc_id t) name (sm_org sm)
            | _ \<Rightarrow> (Inl (Ambiguous (''route table '' @ quoted name @ '' exists in multiple VPCs'')), sm_org sm)) sm"

definition the_subnet_named :: "string \<Rightarrow> replica \<Rightarrow> string + subnet" where
  "the_subnet_named subnet sm =
     (case find_subnets_by_name subnet (sm_org sm) of
        [] \<Rightarrow> Inl (''subnet not found: '' @ subnet)
      | [(_, x)] \<Rightarrow> Inr x
      | _ \<Rightarrow> Inl (''subnet '' @ quoted subnet @ '' exists in multiple VPCs''))"

definition apply_AssociateRouteTable :: "string \<Rightarrow> string \<Rightarrow> replica \<Rightarrow> replica \<times> response" where
  "apply_AssociateRouteTable table subnet sm =
     (case the_subnet_named subnet sm of
        Inl msg \<Rightarrow> refuse sm msg
      | Inr x \<Rightarrow>
          case get_route_table (sub_vpc_id x) table (sm_org sm) of
            None \<Rightarrow> refuse sm (''route table not found: '' @ table)
          | Some t \<Rightarrow> (sm\<lparr>sm_org := associate_subnet_route_table (sub_id x) (rtb_id t) (sm_org sm)\<rparr>, Ok))"

definition apply_DisassociateRouteTable :: "string \<Rightarrow> replica \<Rightarrow> replica \<times> response" where
  "apply_DisassociateRouteTable subnet sm =
     (case the_subnet_named subnet sm of
        Inl msg \<Rightarrow> refuse sm msg
      | Inr x \<Rightarrow> (sm\<lparr>sm_org := disassociate_subnet_route_table (sub_id x) (sm_org sm)\<rparr>, Ok))"

definition the_route_table :: "string \<Rightarrow> string option \<Rightarrow> replica \<Rightarrow> string + route_table" where
  "the_route_table vname table sm =
     (case get_vpc vname (sm_org sm) of
        None \<Rightarrow> Inl (''VPC not found: '' @ vname)
      | Some v \<Rightarrow>
          let table_name = (case table of Some t \<Rightarrow> t | None \<Rightarrow> ''default'')
          in case get_route_table (vpc_id v) table_name (sm_org sm) of
               None \<Rightarrow> Inl (''route table not found: '' @ table_name)
             | Some t \<Rightarrow> Inr t)"

definition parse_route_target :: "string \<Rightarrow> route_target option" where
  "parse_route_target target =
     (if eq_ignore_ascii_case target ''local'' then Some TargetLocal
      else if eq_ignore_ascii_case target ''blackhole'' then Some TargetBlackhole
      else case strip_prefix ''nat-gw:'' target of
             Some name \<Rightarrow> Some (TargetNatGateway name)
           | None \<Rightarrow> map_option TargetVpcPeering (strip_prefix ''peering:'' target))"

definition apply_AddRoute ::
    "node_ctx \<Rightarrow> string \<Rightarrow> string option \<Rightarrow> string \<Rightarrow> string \<Rightarrow> u32 option \<Rightarrow> replica \<Rightarrow> replica \<times> response" where
  "apply_AddRoute c vname table destination target priority sm =
     (case the_route_table vname table sm of
        Inl msg \<Rightarrow> refuse sm msg
      | Inr t \<Rightarrow>
          case parse_route_target target of
            None \<Rightarrow> refuse sm (''invalid route target: '' @ quoted target)
          | Some route_target \<Rightarrow>
              answer (\<lambda>_. Ok) (add_route c (rtb_id t) destination route_target priority (sm_org sm)) sm)"

definition apply_DeleteRoute :: "string \<Rightarrow> string option \<Rightarrow> string \<Rightarrow> replica \<Rightarrow> replica \<times> response" where
  "apply_DeleteRoute vname table destination sm =
     (case the_route_table vname table sm of
        Inl msg \<Rightarrow> refuse sm msg
      | Inr t \<Rightarrow> answer (\<lambda>_. Ok) (remove_route (rtb_id t) destination (sm_org sm)) sm)"

section \<open>Addresses and interfaces\<close>

definition apply_AllocateIp :: "node_ctx \<Rightarrow> string \<Rightarrow> replica \<Rightarrow> replica \<times> response" where
  "apply_AllocateIp c sid sm =
     (case sm_ipam sm of
        None \<Rightarrow> (sm, Error (StoreMissing ''IPAM store not available in state machine''))
      | Some ipam \<Rightarrow>
      case get_subnet_by_id sid (sm_org sm) of
        None \<Rightarrow> refuse sm (''subnet not found: '' @ sid)
      | Some x \<Rightarrow>
          case reserve_ip c sid (sub_cidr x) ipam of
            Inl e \<Rightarrow> (sm, Error (OrgError e))
          | Inr (alloc, ipam') \<Rightarrow> (sm\<lparr>sm_ipam := Some ipam'\<rparr>, AllocatedIp (al_ip alloc) (al_mac alloc)))"

definition apply_ReleaseIp :: "node_ctx \<Rightarrow> string \<Rightarrow> string \<Rightarrow> replica \<Rightarrow> replica \<times> response" where
  "apply_ReleaseIp c sid ip sm =
     (case sm_ipam sm of
        None \<Rightarrow> (sm, Error (StoreMissing ''IPAM store not available in state machine''))
      | Some ipam \<Rightarrow>
      case get_subnet_by_id sid (sm_org sm) of
        None \<Rightarrow> refuse sm (''subnet not found: '' @ sid)
      | Some x \<Rightarrow>
          case release_ip (ctx_net c) sid (sub_cidr x) ip ipam of
            Inl e \<Rightarrow> (sm, Error (OrgError e))
          | Inr ipam' \<Rightarrow> (sm\<lparr>sm_ipam := Some ipam'\<rparr>, Ok))"

text \<open>An existing interface is answered like a new one, for idempotent retries.\<close>

definition apply_CreateNic ::
    "node_ctx \<Rightarrow> string \<Rightarrow> string \<Rightarrow> string \<Rightarrow> string \<Rightarrow> replica \<Rightarrow> replica \<times> response" where
  "apply_CreateNic c vm sid ip mac sm =
     (let vpc = (case get_subnet_by_id sid (sm_org sm) of Some x \<Rightarrow> sub_vpc_id x | None \<Rightarrow> []);
          i = ''nic-'' @ vm @ ''-'' @ replace_char CHR ''/'' CHR ''-'' sid;
          nic = \<lparr>nic_id = i, nic_name = vm @ ''-eth0'', nic_vm_id = Some vm, nic_subnet_id = sid,
                 nic_vpc_id = vpc, nic_private_ip = ip, nic_mac = mac, nic_security_groups = [],
                 nic_state = Active, nic_created_at = ctx_now c\<rparr>
      in case create_nic nic (sm_org sm) of
           (Inr _, s) \<Rightarrow> (sm\<lparr>sm_org := s\<rparr>, Created i)
         | (Inl (NicAlreadyExists _), s) \<Rightarrow> (sm\<lparr>sm_org := s\<rparr>, Created i)
         | (Inl e, s) \<Rightarrow> (sm\<lparr>sm_org := s\<rparr>, Error (OrgError e)))"

fun apply_network :: "node_ctx \<Rightarrow> network_command \<Rightarrow> replica \<Rightarrow> replica \<times> response" where
  "apply_network c (CreateSg name vname) sm =
     answer (\<lambda>sg. Created (sg_id sg)) (create_security_group c name vname [] (sm_org sm)) sm"
| "apply_network c (DeleteSg name) sm = answer (\<lambda>_. Ok) (delete_security_group name None (sm_org sm)) sm"
| "apply_network c (AddSgRule sg dir proto port src) sm = apply_AddSgRule c sg dir proto port src sm"
| "apply_network c (RemoveSgRule sg i) sm = apply_RemoveSgRule sg i sm"
| "apply_network c (AttachSg sg nic) sm = answer (\<lambda>_. Ok) (attach_sg_to_nic sg nic (sm_org sm)) sm"
| "apply_network c (DetachSg sg nic) sm = answer (\<lambda>_. Ok) (detach_sg_from_nic sg nic (sm_org sm)) sm"
| "apply_network c (CreateNatGw name vname subnet) sm = apply_CreateNatGw c name vname subnet sm"
| "apply_network c (DeleteNatGw name) sm = apply_DeleteNatGw name sm"
| "apply_network c (CreateRouteTable name vname) sm =
     answer (\<lambda>t. Created (rtb_id t)) (create_route_table_by_vpc_name c name vname (sm_org sm)) sm"
| "apply_network c (DeleteRouteTable name vname) sm = apply_DeleteRouteTable name vname sm"
| "apply_network c (AssociateRouteTable table subnet) sm = apply_AssociateRouteTable table subnet sm"
| "apply_network c (DisassociateRouteTable subnet) sm = apply_DisassociateRouteTable subnet sm"
| "apply_network c (AddRoute vname table dest target prio) sm = apply_AddRoute c vname table dest target prio sm"
| "apply_network c (DeleteRoute vname table dest) sm = apply_DeleteRoute vname table dest sm"
| "apply_network c (AllocateIp sid) sm = apply_AllocateIp c sid sm"
| "apply_network c (ReleaseIp sid ip) sm = apply_ReleaseIp c sid ip sm"
| "apply_network c (CreateNic vm sid ip mac) sm = apply_CreateNic c vm sid ip mac sm"
| "apply_network c (DeleteNic i) sm = answer (\<lambda>_. Ok) (delete_nic i (sm_org sm)) sm"

end
