(* ===== verification/Vm_Commands.thy ===== *)
theory Vm_Commands
  imports Org_Commands
begin

text \<open>
  The commands on hypervisors, VM records and VM placements: the corresponding arms of
  \<^verbatim>\<open>apply_command\<close> in \<^verbatim>\<open>layers/controlplane/src/state_machine.rs\<close>.
\<close>

section \<open>Commands\<close>

datatype (plugins only: code size) hypervisor_command =
    RegisterHypervisor string string string string
  | EnableHypervisor string
  | DrainHypervisor string
  | DecommissionHypervisor string
  | UpdateHypervisorLabels string "(string, string) hmap"
  | UpdateHypervisorTaints string "string list"
  | UpdateHypervisorCapacity string u32 u64 u32 u64

text \<open>\<^verbatim>\<open>CreateVmIntent\<close> carries further fields that the state machine ignores
  (\<^verbatim>\<open>env\<close>, \<^verbatim>\<open>project\<close>, \<^verbatim>\<open>org\<close>, \<^verbatim>\<open>ssh_key_path\<close>, \<^verbatim>\<open>disk_size_gb\<close>).\<close>

datatype (plugins only: code size) vm_command =
    CreateVmIntent string string u32 u32 "string option" "string option"
  | UpdateVmPhase string string "string option" "string option" "string option"
  | DeleteVmIntent string
  | PlaceVm string string string string string u64
  | RemoveVm string
  | RescheduleVm string string string u64

section \<open>Hypervisors\<close>

definition hv_missing :: "replica \<Rightarrow> replica \<times> response" where
  "hv_missing sm = (sm, Error (StoreMissing ''hypervisor store not available in state machine''))"

text \<open>The outcome of an operation of the hypervisor store.\<close>

definition hv_answer :: "hypervisor_store org_result \<Rightarrow> replica \<Rightarrow> replica \<times> response" where
  "hv_answer outcome sm =
     (case outcome of
        Inl e \<Rightarrow> (sm, Error (OrgError e))
      | Inr s \<Rightarrow> (sm\<lparr>sm_hypervisors := Some s\<rparr>, Ok))"

definition new_hypervisor :: "node_ctx \<Rightarrow> string \<Rightarrow> string \<Rightarrow> string \<Rightarrow> string \<Rightarrow> hypervisor" where
  "new_hypervisor c name region zone fabric_ipv6 =
     \<lparr>hv_id = generate_hypervisor_id c, hv_name = name, hv_region = region, hv_zone = zone,
      hv_state = HvNotReady, hv_fabric_node_id = name, hv_public_ip = [], hv_fabric_ipv6 = fabric_ipv6,
      hv_hardware = \<lparr>hw_cpu_model = [], hw_cpu_cores_physical = 0, hw_cpu_threads_logical = 0,
                     hw_memory_gb = 0, hw_local_disk_type = SSD, hw_local_disk_gb = 0, hw_gpu = None,
                     hw_network_bandwidth_gbps = 0, hw_architecture = X86_64\<rparr>,
      hv_capacity = default_capacity, hv_labels = [], hv_taints = [], hv_created_at = ctx_now c\<rparr>"

definition apply_RegisterHypervisor ::
    "node_ctx \<Rightarrow> string \<Rightarrow> string \<Rightarrow> string \<Rightarrow> string \<Rightarrow> replica \<Rightarrow> replica \<times> response" where
  "apply_RegisterHypervisor c name region zone fabric_ipv6 sm =
     (case sm_hypervisors sm of
        None \<Rightarrow> hv_missing sm
      | Some store \<Rightarrow>
          case hypervisor_get name store of
            Some hv \<Rightarrow>
              let hv1 = hv\<lparr>hv_region := region, hv_zone := zone\<rparr>;
                  hv2 = (if fabric_ipv6 \<noteq> [] then hv1\<lparr>hv_fabric_ipv6 := fabric_ipv6\<rparr> else hv1)
              in hv_answer (hypervisor_update hv2 store) sm
          | None \<Rightarrow> hv_answer (hypervisor_create (new_hypervisor c name region zone fabric_ipv6) store) sm)"

definition enable_refused :: "string \<Rightarrow> string \<Rightarrow> string" where
  "enable_refused name zone =
     ''cannot enable hypervisor '' @ name @ '' '' @ em_dash @ '' storage is not configured for zone '' @ zone @
     ''.'' @ [CHR 0x0A] @ ''VMs on this hypervisor would fail to pull images or manage volumes.'' @ [CHR 0x0A] @
     ''Run: syfrah storage configure --zone '' @ zone @
     '' --s3-endpoint <url> --s3-bucket <bucket> --s3-access-key <key> --s3-secret-key <secret>''"

definition apply_EnableHypervisor :: "string \<Rightarrow> replica \<Rightarrow> replica \<times> response" where
  "apply_EnableHypervisor name sm =
     (case sm_hypervisors sm of
        None \<Rightarrow> hv_missing sm
      | Some store \<Rightarrow>
          case hypervisor_get name store of
            Some hv \<Rightarrow>
              if \<not> hcontains (st_storage_configs (sm_storage sm)) (hv_zone hv)
              then refuse sm (enable_refused name (hv_zone hv))
              else hv_answer (hypervisor_update_state name HvAvailable store) sm
          | None \<Rightarrow> hv_answer (hypervisor_update_state name HvAvailable store) sm)"

definition apply_hv_state :: "string \<Rightarrow> hypervisor_state \<Rightarrow> replica \<Rightarrow> replica \<times> response" where
  "apply_hv_state name state sm =
     (case sm_hypervisors sm of
        None \<Rightarrow> hv_missing sm
      | Some store \<Rightarrow> hv_answer (hypervisor_update_state name state store) sm)"

text \<open>The shape shared by the label and taint updates: an unknown name is an error.\<close>

definition apply_hv_change :: "string \<Rightarrow> (hypervisor \<Rightarrow> hypervisor) \<Rightarrow> replica \<Rightarrow> replica \<times> response" where
  "apply_hv_change name f sm =
     (case sm_hypervisors sm of
        None \<Rightarrow> hv_missing sm
      | Some store \<Rightarrow>
          case hypervisor_get name store of
            Some hv \<Rightarrow> hv_answer (hypervisor_update (f hv) store) sm
          | None \<Rightarrow> refuse sm (''hypervisor '' @ quoted name @ '' not found''))"

definition parse_taint :: "string \<Rightarrow> taint" where
  "parse_taint t =
     (let (kv, effect_str) = (case rsplit_once CHR '':'' t of Some p \<Rightarrow> p | None \<Rightarrow> (t, ''NoSchedule''));
          effect = (if effect_str = ''NoExecute'' then NoExecute else NoSchedule);
          (key, v) = (case split_once CHR ''='' kv of Some (k, v) \<Rightarrow> (k, Some v) | None \<Rightarrow> (kv, None))
      in \<lparr>taint_key = key, taint_value = v, taint_effect_of = effect\<rparr>)"

definition set_usage :: "u32 \<Rightarrow> u64 \<Rightarrow> u32 \<Rightarrow> u64 \<Rightarrow> allocatable_capacity \<Rightarrow> allocatable_capacity" where
  "set_usage allocatable_vcpus allocatable_memory_mb used_vcpus used_memory_mb cap =
     cap\<lparr>cap_allocatable_vcpus := allocatable_vcpus, cap_allocatable_memory_mb := allocatable_memory_mb,
         cap_used_vcpus := used_vcpus, cap_used_memory_mb := used_memory_mb,
         cap_available_vcpus := saturating_sub allocatable_vcpus used_vcpus,
         cap_available_memory_mb := saturating_sub allocatable_memory_mb used_memory_mb\<rparr>"

text \<open>Unlike the other updates, an unknown name is skipped.\<close>

definition apply_UpdateHypervisorCapacity ::
    "string \<Rightarrow> u32 \<Rightarrow> u64 \<Rightarrow> u32 \<Rightarrow> u64 \<Rightarrow> replica \<Rightarrow> replica \<times> response" where
  "apply_UpdateHypervisorCapacity name av am uv um sm =
     (case sm_hypervisors sm of
        None \<Rightarrow> hv_missing sm
      | Some store \<Rightarrow>
          case hypervisor_get name store of
            Some hv \<Rightarrow>
              hv_answer (hypervisor_update (hv\<lparr>hv_capacity := set_usage av am uv um (hv_capacity hv)\<rparr>) store) sm
          | None \<Rightarrow> (sm, Ok))"

fun apply_hypervisor :: "node_ctx \<Rightarrow> hypervisor_command \<Rightarrow> replica \<Rightarrow> replica \<times> response" where
  "apply_hypervisor c (RegisterHypervisor name region zone ip6) sm =
     apply_RegisterHypervisor c name region zone ip6 sm"
| "apply_hypervisor c (EnableHypervisor name) sm = apply_EnableHypervisor name sm"
| "apply_hypervisor c (DrainHypervisor name) sm = apply_hv_state name HvDraining sm"
| "apply_hypervisor c (DecommissionHypervisor name) sm = apply_hv_state name HvDecommissioned sm"
| "apply_hypervisor c (UpdateHypervisorLabels name labels) sm =
     apply_hv_change name (\<lambda>hv. hv\<lparr>hv_labels := labels\<rparr>) sm"
| "apply_hypervisor c (UpdateHypervisorTaints name taints) sm =
     apply_hv_change name (\<lambda>hv. hv\<lparr>hv_taints := map parse_taint taints\<rparr>) sm"
| "apply_hypervisor c (UpdateHypervisorCapacity name av am uv um) sm =
     apply_UpdateHypervisorCapacity name av am uv um sm"

section \<open>VM records\<close>

definition put_vm :: "string \<Rightarrow> vm_record \<Rightarrow> 'a storage_sm_scheme \<Rightarrow> 'a storage_sm_scheme" where
  "put_vm vm r sm = sm_storage_update (\<lambda>st. st\<lparr>st_vm_records := hinsert vm r (st_vm_records st)\<rparr>) sm"

definition apply_CreateVmIntent ::
    "node_ctx \<Rightarrow> string \<Rightarrow> string \<Rightarrow> u32 \<Rightarrow> u32 \<Rightarrow> string option \<Rightarrow> string option \<Rightarrow> replica \<Rightarrow> replica \<times> response" where
  "apply_CreateVmIntent c name img vcpus memory_mb zone sid sm =
     (if hcontains (st_vm_records (sm_storage sm)) name then (sm, Error (VmRecordExists name))
      else (put_vm name
              \<lparr>vmr_id = name, vmr_name = name, vmr_phase = PhPending, vmr_image = img, vmr_vcpus = vcpus,
               vmr_memory_mb = memory_mb, vmr_zone = zone, vmr_subnet_id = sid, vmr_hypervisor_id = None,
               vmr_ip = None, vmr_error = None, vmr_created_at = ctx_now c, vmr_updated_at = ctx_now c\<rparr> sm,
            Created name))"

definition or_else :: "'a option \<Rightarrow> 'a option \<Rightarrow> 'a option" where
  "or_else new old = (case new of Some x \<Rightarrow> Some x | None \<Rightarrow> old)"

definition apply_UpdateVmPhase ::
    "node_ctx \<Rightarrow> string \<Rightarrow> string \<Rightarrow> string option \<Rightarrow> string option \<Rightarrow> string option \<Rightarrow> replica \<Rightarrow> replica \<times> response" where
  "apply_UpdateVmPhase c vm phase hid ip err sm =
     (case from_str_loose phase of
        None \<Rightarrow> (sm, Error (UnknownPhase phase))
      | Some new_phase \<Rightarrow>
          case hget (st_vm_records (sm_storage sm)) vm of
            None \<Rightarrow> (sm, Error (VmRecordNotFound vm))
          | Some r \<Rightarrow>
              (put_vm vm
                 (r\<lparr>vmr_phase := new_phase, vmr_hypervisor_id := or_else hid (vmr_hypervisor_id r),
                    vmr_ip := or_else ip (vmr_ip r), vmr_error := or_else err (vmr_error r),
                    vmr_updated_at := ctx_now c\<rparr>) sm, Ok))"

definition apply_DeleteVmIntent :: "node_ctx \<Rightarrow> string \<Rightarrow> replica \<Rightarrow> replica \<times> response" where
  "apply_DeleteVmIntent c vm sm =
     (case hget (st_vm_records (sm_storage sm)) vm of
        None \<Rightarrow> (sm, Error (VmRecordNotFound vm))
      | Some r \<Rightarrow> (put_vm vm (r\<lparr>vmr_phase := PhDeleting, vmr_updated_at := ctx_now c\<rparr>) sm, Ok))"

section \<open>Placements\<close>

definition placement_missing :: "replica \<Rightarrow> replica \<times> response" where
  "placement_missing sm = (sm, Error (StoreMissing ''placement store not available in state machine''))"

definition apply_PlaceVm ::
    "node_ctx \<Rightarrow> string \<Rightarrow> string \<Rightarrow> string \<Rightarrow> string \<Rightarrow> string \<Rightarrow> u64 \<Rightarrow> replica \<Rightarrow> replica \<times> response" where
  "apply_PlaceVm c vm hypervisor_id sid ip mac generation sm =
     (case sm_placement sm of
        None \<Rightarrow> placement_missing sm
      | Some store \<Rightarrow>
          let vpc = (case get_subnet_by_id sid (sm_org sm) of
                       Some x \<Rightarrow> sub_vpc_id x
                     | None \<Rightarrow> split_first CHR ''/'' sid);
              p = \<lparr>pl_vpc_id = vpc, pl_vm_id = vm, pl_vm_mac = mac, pl_vm_ip = ip, pl_subnet_id = sid,
                   pl_hypervisor_id = hypervisor_id, pl_action = PlacementAdd, pl_created_at = ctx_now c,
                   pl_generation = generation\<rparr>
          in (sm\<lparr>sm_placement := Some (add_placement p store),
                 sm_events := sm_events sm @ [PlacementAdded vpc vm mac ip sid hypervisor_id]\<rparr>, Ok))"

definition apply_RemoveVm :: "string \<Rightarrow> replica \<Rightarrow> replica \<times> response" where
  "apply_RemoveVm vm sm =
     (case sm_placement sm of
        None \<Rightarrow> placement_missing sm
      | Some store \<Rightarrow>
          case find (\<lambda>p. pl_vm_id p = vm) (list_all_placements store) of
            None \<Rightarrow> refuse sm (''placement not found for VM: '' @ vm)
          | Some p \<Rightarrow>
              let store' = (case remove_placement (pl_vpc_id p) vm store of Inr s \<Rightarrow> s | Inl _ \<Rightarrow> store)
              in (sm\<lparr>sm_placement := Some store',
                     sm_events := sm_events sm @
                       [PlacementRemoved (pl_vpc_id p) (pl_vm_id p) (pl_vm_mac p) (pl_vm_ip p) (pl_hypervisor_id p)]\<rparr>,
                  Ok))"

definition volumes_of_vm :: "string \<Rightarrow> string \<Rightarrow> storage_state \<Rightarrow> string list" where
  "volumes_of_vm vm from_hv st =
     map fst (filter (\<lambda>(_, v). vol_state v = VolAttached \<and> vol_attached_vm_id v = Some vm \<and>
                               vol_attached_hypervisor_id v = Some from_hv) (st_volumes st))"

definition move_volume :: "node_ctx \<Rightarrow> string \<Rightarrow> string \<Rightarrow> 'a storage_sm_scheme \<Rightarrow> 'a storage_sm_scheme" where
  "move_volume c to_hv i sm =
     (case hget (st_volumes (sm_storage sm)) i of
        None \<Rightarrow> sm
      | Some v \<Rightarrow>
          commit_volume c i (v\<lparr>vol_placement_generation := vol_placement_generation v + 1,
                               vol_attached_hypervisor_id := Some to_hv\<rparr>) sm)"

definition apply_RescheduleVm ::
    "node_ctx \<Rightarrow> string \<Rightarrow> string \<Rightarrow> string \<Rightarrow> u64 \<Rightarrow> replica \<Rightarrow> replica \<times> response" where
  "apply_RescheduleVm c vm from_hv to_hv generation sm =
     (case sm_placement sm of
        None \<Rightarrow> placement_missing sm
      | Some store \<Rightarrow>
          case find (\<lambda>p. pl_vm_id p = vm) (list_all_placements store) of
            None \<Rightarrow> refuse sm (''placement not found for VM: '' @ vm)
          | Some p \<Rightarrow>
              let store' = add_placement (p\<lparr>pl_hypervisor_id := to_hv, pl_generation := generation\<rparr>) store;
                  sm1 = sm\<lparr>sm_placement := Some store'\<rparr>
              in (fold (move_volume c to_hv) (volumes_of_vm vm from_hv (sm_storage sm1)) sm1, Ok))"

fun apply_vm :: "node_ctx \<Rightarrow> vm_command \<Rightarrow> replica \<Rightarrow> replica \<times> response" where
  "apply_vm c (CreateVmIntent name img vcpus mem zone subnet) sm =
     apply_CreateVmIntent c name img vcpus mem zone subnet sm"
| "apply_vm c (UpdateVmPhase vm phase hv ip err) sm = apply_UpdateVmPhase c vm phase hv ip err sm"
| "apply_vm c (DeleteVmIntent vm) sm = apply_DeleteVmIntent c vm sm"
| "apply_vm c (PlaceVm vm hv sid ip mac gen) sm = apply_PlaceVm c vm hv sid ip mac gen sm"
| "apply_vm c (RemoveVm vm) sm = apply_RemoveVm vm sm"
| "apply_vm c (RescheduleVm vm a b gen) sm = apply_RescheduleVm c vm a b gen sm"

end
