(* ===== verification/Apply_Command.thy ===== *)
theory Apply_Command
  imports Vm_Commands "HOL-Library.Sublist"
begin

text \<open>
  The command language of the replicated state machine and its interpreter:
  \<^verbatim>\<open>StateMachineCommand\<close> of \<^verbatim>\<open>layers/controlplane/src/commands.rs\<close> and
  \<^verbatim>\<open>RedbStateMachine::apply_command\<close>, with the \<^verbatim>\<open>Composite\<close> arm.

  The handlers read the clock and draw random identifiers; these reads are inputs of the
  model.  A composite reads them afresh for each of its parts, so the interpreter takes a
  function from positions in the command tree to contexts.

  The reference semantics is \<open>run\<close>: the basic commands of the tree from left to right,
  up to and including the first one that fails.  The locale \<open>machine_invariant\<close> is the
  contract under which an invariant of the basic commands holds along whole logs.
\<close>

section \<open>Commands and their interpreter\<close>

datatype (plugins only: code size) basic_command =
    OrgCommand org_command
  | NetworkCommand network_command
  | HypervisorCommand hypervisor_command
  | VmCommand vm_command
  | StorageCommand storage_command

datatype (plugins only: code size) command =
    Basic basic_command
  | Composite "command list"

fun apply_basic :: "node_ctx \<Rightarrow> basic_command \<Rightarrow> replica \<Rightarrow> replica \<times> response" where
  "apply_basic c (OrgCommand cmd) sm = apply_org c cmd sm"
| "apply_basic c (NetworkCommand cmd) sm = apply_network c cmd sm"
| "apply_basic c (HypervisorCommand cmd) sm = apply_hypervisor c cmd sm"
| "apply_basic c (VmCommand cmd) sm = apply_vm c cmd sm"
| "apply_basic c (StorageCommand cmd) sm = apply_storage c cmd sm"

type_synonym contexts = "nat list \<Rightarrow> node_ctx"

definition composite_outcome :: "response list \<Rightarrow> response" where
  "composite_outcome results =
     (if list_ex is_error results
      then (case find is_error results of Some (Error e) \<Rightarrow> Error (CompositeFailed e)
            | _ \<Rightarrow> CompositeResponse results)
      else CompositeResponse results)"

fun apply_command :: "contexts \<Rightarrow> command \<Rightarrow> replica \<Rightarrow> replica \<times> response"
  and apply_all :: "contexts \<Rightarrow> nat \<Rightarrow> command list \<Rightarrow> replica \<Rightarrow> replica \<times> response list"
where
  "apply_command ctxs (Basic cmd) sm = apply_basic (ctxs []) cmd sm"
| "apply_command ctxs (Composite cmds) sm =
     (let (sm', results) = apply_all ctxs 0 cmds sm in (sm', composite_outcome results))"
| "apply_all ctxs k [] sm = (sm, [])"
| "apply_all ctxs k (cmd # cmds) sm =
     (let (sm', resp) = apply_command (\<lambda>p. ctxs (k # p)) cmd sm
      in if is_error resp then (sm', [resp])
         else let (sm'', results) = apply_all ctxs (Suc k) cmds sm' in (sm'', resp # results))"

section \<open>Reference semantics\<close>

type_synonym step = "node_ctx \<times> basic_command"

abbreviation exec :: "step \<Rightarrow> replica \<Rightarrow> replica" where
  "exec x sm \<equiv> fst (apply_basic (fst x) (snd x) sm)"

fun leaves :: "contexts \<Rightarrow> command \<Rightarrow> step list"
  and leaves_all :: "contexts \<Rightarrow> nat \<Rightarrow> command list \<Rightarrow> step list"
where
  "leaves ctxs (Basic cmd) = [(ctxs [], cmd)]"
| "leaves ctxs (Composite cmds) = leaves_all ctxs 0 cmds"
| "leaves_all ctxs k [] = []"
| "leaves_all ctxs k (cmd # cmds) = leaves (\<lambda>p. ctxs (k # p)) cmd @ leaves_all ctxs (Suc k) cmds"

fun run :: "step list \<Rightarrow> replica \<Rightarrow> replica \<times> bool" where
  "run [] sm = (sm, True)"
| "run (x # xs) sm =
     (let (sm', resp) = apply_basic (fst x) (snd x) sm
      in if is_error resp then (sm', False) else run xs sm')"

lemma run_append:
  "run (xs @ ys) sm = (let (sm', ok) = run xs sm in if ok then run ys sm' else (sm', False))"
  by (induction xs arbitrary: sm) (auto simp: Let_def split: prod.splits)

lemma is_error_composite [simp]: "is_error (composite_outcome rs) \<longleftrightarrow> list_ex is_error rs"
proof (cases "find is_error rs")
  case None
  then show ?thesis by (simp add: composite_outcome_def find_None_iff list_ex_iff)
next
  case (Some r)
  then have "is_error r" "r \<in> set rs" by (auto simp: find_Some_iff)
  with Some show ?thesis
    by (auto simp: composite_outcome_def is_error_def list_ex_iff split: response.splits)
qed

lemma run_command:
  "run (leaves ctxs cmd) sm =
     (fst (apply_command ctxs cmd sm), \<not> is_error (snd (apply_command ctxs cmd sm)))"
  and run_commands:
  "run (leaves_all ctxs k cmds) sm =
     (fst (apply_all ctxs k cmds sm), \<not> list_ex is_error (snd (apply_all ctxs k cmds sm)))"
  by (induction ctxs cmd sm and ctxs k cmds sm rule: apply_command_apply_all.induct)
     (auto simp: run_append Let_def split: prod.splits)

section \<open>Invariants of whole logs\<close>

text \<open>
  A log is a list of commands with their contexts.  \<open>admits\<close> restricts the basic commands
  under which an invariant is promised; the restriction may depend on the state in which
  the command is applied.
\<close>

type_synonym log = "(contexts \<times> command) list"

abbreviation exec_command :: "contexts \<times> command \<Rightarrow> replica \<Rightarrow> replica" where
  "exec_command x sm \<equiv> fst (apply_command (fst x) (snd x) sm)"

definition apply_log :: "log \<Rightarrow> replica \<Rightarrow> replica" where
  "apply_log l sm = fold exec_command l sm"

definition log_steps :: "log \<Rightarrow> step list" where
  "log_steps l = concat (map (\<lambda>x. leaves (fst x) (snd x)) l)"

lemma log_simps [simp]:
  "apply_log [] sm = sm" "apply_log (x # l) sm = apply_log l (exec_command x sm)"
  "apply_log (l @ l') sm = apply_log l' (apply_log l sm)"
  "log_steps [] = []" "log_steps (x # l) = leaves (fst x) (snd x) @ log_steps l"
  "log_steps (l @ l') = log_steps l @ log_steps l'"
  by (simp_all add: apply_log_def log_steps_def)

lemma exec_command_run: "exec_command x sm = fst (run (leaves (fst x) (snd x)) sm)"
  by (simp add: run_command)

fun run_admits :: "(step \<Rightarrow> replica \<Rightarrow> bool) \<Rightarrow> step list \<Rightarrow> replica \<Rightarrow> bool" where
  "run_admits P [] sm \<longleftrightarrow> True"
| "run_admits P (x # xs) sm \<longleftrightarrow>
     P x sm \<and> (let (sm', resp) = apply_basic (fst x) (snd x) sm in is_error resp \<or> run_admits P xs sm')"

fun log_admits :: "(step \<Rightarrow> replica \<Rightarrow> bool) \<Rightarrow> log \<Rightarrow> replica \<Rightarrow> bool" where
  "log_admits P [] sm \<longleftrightarrow> True"
| "log_admits P (x # l) sm \<longleftrightarrow> run_admits P (leaves (fst x) (snd x)) sm \<and> log_admits P l (exec_command x sm)"

lemma run_admits_static: "list_all Q xs \<Longrightarrow> run_admits (\<lambda>x _. Q x) xs sm"
  by (induction xs arbitrary: sm) (simp_all add: Let_def case_prod_unfold)

lemma log_admits_static: "list_all Q (log_steps l) \<Longrightarrow> log_admits (\<lambda>x _. Q x) l sm"
  by (induction l arbitrary: sm) (simp_all add: run_admits_static)

locale machine_invariant =
  fixes I :: "replica \<Rightarrow> bool" and admits :: "step \<Rightarrow> replica \<Rightarrow> bool"
  assumes step: "\<lbrakk>I sm; admits x sm\<rbrakk> \<Longrightarrow> I (exec x sm)"
begin

lemma run_inv: "\<lbrakk>I sm; run_admits admits xs sm\<rbrakk> \<Longrightarrow> I (fst (run xs sm))"
proof (induction xs arbitrary: sm)
  case (Cons x xs)
  then show ?case using step [of sm x] by (auto simp: Let_def case_prod_unfold)
qed simp

lemma command_inv: "\<lbrakk>I sm; run_admits admits (leaves (fst x) (snd x)) sm\<rbrakk> \<Longrightarrow> I (exec_command x sm)"
  unfolding exec_command_run by (rule run_inv)

lemma log_inv: "\<lbrakk>I sm; log_admits admits l sm\<rbrakk> \<Longrightarrow> I (apply_log l sm)"
  by (induction l arbitrary: sm) (simp_all add: command_inv)

end

section \<open>The steps that a log executes\<close>

lemma run_executed: "\<exists>ys. fst (run xs sm) = fold exec ys sm \<and> subseq ys xs"
proof (induction xs arbitrary: sm)
  case Nil
  show ?case by (rule exI [of _ "[]"]) simp
next
  case (Cons x xs)
  show ?case
  proof (cases "is_error (snd (apply_basic (fst x) (snd x) sm))")
    case True
    then show ?thesis by (intro exI [of _ "[x]"]) (simp add: Let_def case_prod_unfold)
  next
    case False
    obtain ys where "fst (run xs (exec x sm)) = fold exec ys (exec x sm)" "subseq ys xs"
      using Cons.IH by blast
    with False show ?thesis by (intro exI [of _ "x # ys"]) (simp add: Let_def case_prod_unfold)
  qed
qed

lemma log_executed:
  obtains ys where "apply_log l sm = fold exec ys sm" "subseq ys (log_steps l)"
proof -
  have "\<exists>ys. apply_log l sm = fold exec ys sm \<and> subseq ys (log_steps l)"
  proof (induction l arbitrary: sm)
    case (Cons x l)
    obtain zs where "exec_command x sm = fold exec zs sm" "subseq zs (leaves (fst x) (snd x))"
      using run_executed [of "leaves (fst x) (snd x)" sm] by (auto simp: exec_command_run)
    moreover obtain ys where "apply_log l (exec_command x sm) = fold exec ys (exec_command x sm)"
        "subseq ys (log_steps l)"
      using Cons.IH by blast
    ultimately show ?case
      by (intro exI [of _ "zs @ ys"]) (simp add: list_emb_append_mono)
  qed (intro exI [of _ "[]"], simp)
  then show thesis using that by blast
qed

lemma executed_subset:
  assumes "subseq ys xs"
  shows "set ys \<subseteq> set xs" "length ys \<le> length xs"
  using assms by (auto dest: list_emb_length elim: list_emb_set)

section \<open>What the commands leave alone\<close>

lemma answer_frame [simp]:
  "sm_storage (fst (answer f r sm)) = sm_storage sm"
  "sm_storage_store (fst (answer f r sm)) = sm_storage_store sm"
  "sm_hypervisors (fst (answer f r sm)) = sm_hypervisors sm"
  "sm_placement (fst (answer f r sm)) = sm_placement sm"
  "sm_sg_rules (fst (answer f r sm)) = sm_sg_rules sm"
  "sm_ipam (fst (answer f r sm)) = sm_ipam sm"
  "sm_events (fst (answer f r sm)) = sm_events sm"
  by (auto simp: answer_def split: prod.splits sum.splits)

lemma CreateNic_shape: "\<exists>s r. apply_CreateNic c vm sid ip mac sm = (sm\<lparr>sm_org := s\<rparr>, r)"
  by (auto simp: apply_CreateNic_def Let_def split: prod.splits sum.splits org_error.splits)

lemma CreateNic_frame [simp]:
  "sm_storage (fst (apply_CreateNic c vm sid ip mac sm)) = sm_storage sm"
  "sm_storage_store (fst (apply_CreateNic c vm sid ip mac sm)) = sm_storage_store sm"
  "sm_hypervisors (fst (apply_CreateNic c vm sid ip mac sm)) = sm_hypervisors sm"
  "sm_placement (fst (apply_CreateNic c vm sid ip mac sm)) = sm_placement sm"
  "sm_sg_rules (fst (apply_CreateNic c vm sid ip mac sm)) = sm_sg_rules sm"
  "sm_ipam (fst (apply_CreateNic c vm sid ip mac sm)) = sm_ipam sm"
  "sm_events (fst (apply_CreateNic c vm sid ip mac sm)) = sm_events sm"
  using CreateNic_shape [of c vm sid ip mac sm] by auto

lemmas org_handler_defs = apply_CreateSubnet_def apply_UpdateEnv_def

lemmas network_handler_defs = apply_AddSgRule_def apply_RemoveSgRule_def apply_CreateNatGw_def
  apply_DeleteNatGw_def apply_DeleteRouteTable_def apply_AssociateRouteTable_def
  apply_DisassociateRouteTable_def apply_AddRoute_def apply_DeleteRoute_def
  apply_AllocateIp_def apply_ReleaseIp_def

lemmas hypervisor_handler_defs = apply_RegisterHypervisor_def apply_EnableHypervisor_def
  apply_hv_state_def apply_hv_change_def apply_UpdateHypervisorCapacity_def hv_missing_def hv_answer_def

lemmas vm_handler_defs = apply_CreateVmIntent_def apply_UpdateVmPhase_def apply_DeleteVmIntent_def
  put_vm_def apply_PlaceVm_def apply_RemoveVm_def placement_missing_def

lemmas handler_splits = option.splits sum.splits prod.splits list.splits

lemma org_frame [simp]:
  "sm_storage (fst (apply_org c cmd sm)) = sm_storage sm"
  "sm_storage_store (fst (apply_org c cmd sm)) = sm_storage_store sm"
  "sm_hypervisors (fst (apply_org c cmd sm)) = sm_hypervisors sm"
  "sm_placement (fst (apply_org c cmd sm)) = sm_placement sm"
  "sm_sg_rules (fst (apply_org c cmd sm)) = sm_sg_rules sm"
  "sm_ipam (fst (apply_org c cmd sm)) = sm_ipam sm"
  "sm_events (fst (apply_org c cmd sm)) = sm_events sm"
  by (cases cmd; simp add: org_handler_defs split: handler_splits)+

lemma network_frame [simp]:
  "sm_storage (fst (apply_network c cmd sm)) = sm_storage sm"
  "sm_storage_store (fst (apply_network c cmd sm)) = sm_storage_store sm"
  "sm_hypervisors (fst (apply_network c cmd sm)) = sm_hypervisors sm"
  "sm_placement (fst (apply_network c cmd sm)) = sm_placement sm"
  "sm_events (fst (apply_network c cmd sm)) = sm_events sm"
  by (cases cmd; simp add: network_handler_defs Let_def split: handler_splits)+

lemma hypervisor_frame [simp]:
  "sm_storage (fst (apply_hypervisor c cmd sm)) = sm_storage sm"
  "sm_storage_store (fst (apply_hypervisor c cmd sm)) = sm_storage_store sm"
  "sm_org (fst (apply_hypervisor c cmd sm)) = sm_org sm"
  "sm_placement (fst (apply_hypervisor c cmd sm)) = sm_placement sm"
  "sm_sg_rules (fst (apply_hypervisor c cmd sm)) = sm_sg_rules sm"
  "sm_ipam (fst (apply_hypervisor c cmd sm)) = sm_ipam sm"
  "sm_events (fst (apply_hypervisor c cmd sm)) = sm_events sm"
  by (cases cmd; simp add: hypervisor_handler_defs Let_def split: handler_splits)+

lemma commit_volume_frame [simp]:
  "sm_org (commit_volume c i v sm) = sm_org sm"
  "sm_hypervisors (commit_volume c i v sm) = sm_hypervisors sm"
  "sm_placement (commit_volume c i v sm) = sm_placement sm"
  "sm_sg_rules (commit_volume c i v sm) = sm_sg_rules sm"
  "sm_ipam (commit_volume c i v sm) = sm_ipam sm"
  "sm_events (commit_volume c i v sm) = sm_events sm"
  by (simp_all add: commit_volume_def sync_volume_to_store_def split: option.splits)

lemma more_fold [simp]: "storage_sm.more (fold sync_volume_delete_from_store ids sm) = storage_sm.more sm"
  by (induction ids arbitrary: sm) simp_all

lemma more_commit [simp]: "storage_sm.more (commit_volume c i v sm) = storage_sm.more sm"
  by (simp add: commit_volume_def)

lemma storage_more: "storage_sm.more (fst (apply_storage c cmd sm)) = storage_sm.more sm"
  by (cases cmd; simp add: handler_defs Let_def split: option.split sum.split)

lemma more_frame:
  assumes "storage_sm.more (sm' :: 'a replica_scheme) = storage_sm.more sm"
  shows "sm_org sm' = sm_org sm" "sm_hypervisors sm' = sm_hypervisors sm" "sm_placement sm' = sm_placement sm"
    "sm_sg_rules sm' = sm_sg_rules sm" "sm_ipam sm' = sm_ipam sm" "sm_events sm' = sm_events sm"
  using assms by (cases sm; cases sm'; simp)+

lemma storage_frame [simp]:
  "sm_org (fst (apply_storage c cmd sm)) = sm_org sm"
  "sm_hypervisors (fst (apply_storage c cmd sm)) = sm_hypervisors sm"
  "sm_placement (fst (apply_storage c cmd sm)) = sm_placement sm"
  "sm_sg_rules (fst (apply_storage c cmd sm)) = sm_sg_rules sm"
  "sm_ipam (fst (apply_storage c cmd sm)) = sm_ipam sm"
  "sm_events (fst (apply_storage c cmd sm)) = sm_events sm"
  by (simp_all add: more_frame [OF storage_more])

end
