(* ===== verification/Machine_Invariants.thy ===== *)
theory Machine_Invariants
  imports Apply_Command
begin

text \<open>
  The invariants of the storage part, of the hypervisor store, of the placements and of the
  rules, for every basic command and, through \<open>machine_invariant\<close>, for every log.

  The one command outside the storage group that writes volumes is \<^verbatim>\<open>RescheduleVm\<close>, which
  moves every attached volume of the VM; \<open>reschedule_rule\<close> is the induction rule for its
  loop.
\<close>

section \<open>Rescheduling a VM\<close>

definition moved :: "string \<Rightarrow> volume_record \<Rightarrow> volume_record" where
  "moved to_hv v =
     v\<lparr>vol_placement_generation := vol_placement_generation v + 1, vol_attached_hypervisor_id := Some to_hv\<rparr>"

lemma volumes_of_vm_iff:
  "hm_wf (st_volumes st) \<Longrightarrow>
   i \<in> set (volumes_of_vm vm a st) \<longleftrightarrow>
     (\<exists>v. hget (st_volumes st) i = Some v \<and> vol_state v = VolAttached \<and>
          vol_attached_vm_id v = Some vm \<and> vol_attached_hypervisor_id v = Some a)"
  by (force simp: volumes_of_vm_def image_iff hm.in_entries_iff [symmetric])

lemma distinct_volumes_of_vm: "hm_wf (st_volumes st) \<Longrightarrow> distinct (volumes_of_vm vm a st)"
  using hm.distinct_entries [of "st_volumes st"] by (simp add: volumes_of_vm_def distinct_map_filter)

lemma move_volume_at:
  "volume_at (move_volume c b i sm) j = (if j = i then map_option (moved b) (volume_at sm i) else volume_at sm j)"
  by (auto simp: move_volume_def moved_def split: option.splits)

lemma fold_move_at:
  "distinct is \<Longrightarrow> volume_at (fold (move_volume c b) is sm) j =
     (if j \<in> set is then map_option (moved b) (volume_at sm j) else volume_at sm j)"
  by (induction "is" arbitrary: sm) (auto simp: move_volume_at)

lemma fold_move_rule:
  assumes "distinct is"
    and "\<And>i. i \<in> set is \<Longrightarrow> \<exists>v. volume_at sm i = Some v \<and> vol_state v = VolAttached \<and> vol_attached_hypervisor_id v = Some a"
    and "P sm"
    and step: "\<And>i v sm. \<lbrakk>P sm; volume_at sm i = Some v; vol_state v = VolAttached; vol_attached_hypervisor_id v = Some a\<rbrakk>
      \<Longrightarrow> P (commit_volume c i (moved b v) sm)"
  shows "P (fold (move_volume c b) is sm)"
  using assms(1-3)
proof (induction "is" arbitrary: sm)
  case (Cons i "is")
  then obtain v where v: "volume_at sm i = Some v" "vol_state v = VolAttached" "vol_attached_hypervisor_id v = Some a"
    by auto
  have "P (move_volume c b i sm)"
    using step [OF Cons.prems(3) v] v(1) by (simp add: move_volume_def moved_def)
  moreover have "\<exists>v. volume_at (move_volume c b i sm) j = Some v \<and> vol_state v = VolAttached \<and> vol_attached_hypervisor_id v = Some a"
    if "j \<in> set is" for j
    using Cons.prems(1,2) that by (auto simp: move_volume_at)
  ultimately show ?case using Cons.IH Cons.prems(1) by simp
qed simp

lemma reschedule_rule:
  assumes wf: "hm_wf (st_volumes (sm_storage sm))" and P: "P sm"
    and place: "\<And>sm p. P sm \<Longrightarrow> P (sm\<lparr>sm_placement := p\<rparr>)"
    and step: "\<And>i v sm. \<lbrakk>P sm; volume_at sm i = Some v; vol_state v = VolAttached; vol_attached_hypervisor_id v = Some a\<rbrakk>
      \<Longrightarrow> P (commit_volume c i (moved b v) sm)"
  shows "P (fst (apply_RescheduleVm c vm a b gen sm))"
proof -
  let ?is = "volumes_of_vm vm a (sm_storage sm)"
  have "P (fold (move_volume c b) ?is (sm\<lparr>sm_placement := p\<rparr>))" for p
  proof (rule fold_move_rule [where a = a and P = P])
    show "\<exists>v. volume_at (sm\<lparr>sm_placement := p\<rparr>) i = Some v \<and> vol_state v = VolAttached \<and>
        vol_attached_hypervisor_id v = Some a" if "i \<in> set ?is" for i
      using that wf by (auto simp: volumes_of_vm_iff)
  qed (use distinct_volumes_of_vm [OF wf] place [OF P] step in blast)+
  then show ?thesis
    using P by (simp add: apply_RescheduleVm_def placement_missing_def Let_def split: option.split)
qed

lemma moved_step: "\<lbrakk>vol_state v = VolAttached; vol_attached_hypervisor_id v = Some a\<rbrakk> \<Longrightarrow> volume_step v (moved b v)"
  unfolding moved_def by (rule volume_step.follow_vm)

lemma moved_sel [simp]:
  "vol_id (moved b v) = vol_id v" "vol_env_id (moved b v) = vol_env_id v" "vol_size_gb (moved b v) = vol_size_gb v"
  "vol_state (moved b v) = vol_state v"
  by (simp_all add: moved_def)

lemma move_volume_frame [simp]:
  "sm_org (move_volume c b i sm) = sm_org sm"
  "sm_hypervisors (move_volume c b i sm) = sm_hypervisors sm"
  "sm_placement (move_volume c b i sm) = sm_placement sm"
  "sm_sg_rules (move_volume c b i sm) = sm_sg_rules sm"
  "sm_ipam (move_volume c b i sm) = sm_ipam sm"
  "sm_events (move_volume c b i sm) = sm_events sm"
  by (simp_all add: move_volume_def split: option.splits)

lemmas fold_move_frame [simp] = move_volume_frame [THEN fold_frame [where g = "move_volume c b" for c b]]

lemma vm_frame [simp]:
  "sm_org (fst (apply_vm c cmd sm)) = sm_org sm"
  "sm_hypervisors (fst (apply_vm c cmd sm)) = sm_hypervisors sm"
  "sm_sg_rules (fst (apply_vm c cmd sm)) = sm_sg_rules sm"
  "sm_ipam (fst (apply_vm c cmd sm)) = sm_ipam sm"
  by (cases cmd; simp add: vm_handler_defs apply_RescheduleVm_def Let_def split: handler_splits)+

text \<open>Every other VM command touches the storage part at most in its VM records.\<close>

definition reschedules :: "vm_command \<Rightarrow> bool" where
  "reschedules cmd \<longleftrightarrow> (case cmd of RescheduleVm _ _ _ _ \<Rightarrow> True | _ \<Rightarrow> False)"

lemma vm_storage:
  assumes "\<not> reschedules cmd"
  shows "sm_storage (fst (apply_vm c cmd sm)) =
           (sm_storage sm)\<lparr>st_vm_records := st_vm_records (sm_storage (fst (apply_vm c cmd sm)))\<rparr>"
    and "sm_storage_store (fst (apply_vm c cmd sm)) = sm_storage_store sm"
  using assms
  by (cases cmd; simp add: reschedules_def vm_handler_defs Let_def split: handler_splits)+

lemma vm_volumes [simp]:
  assumes "\<not> reschedules cmd"
  shows "st_volumes (sm_storage (fst (apply_vm c cmd sm))) = st_volumes (sm_storage sm)"
  by (subst vm_storage(1) [OF assms]) simp

text \<open>
  A predicate of the storage part is an invariant of every command when the storage
  commands keep it, the move of an attached volume keeps it, and it depends neither on the
  VM records nor on the other stores.
\<close>

lemma storage_invariantI:
  assumes I: "I sm" and wf: "hm_wf (st_volumes (sm_storage sm))"
    and storage: "\<And>c cmd sm. \<lbrakk>I sm; admits (c, StorageCommand cmd) sm\<rbrakk> \<Longrightarrow> I (fst (apply_storage c cmd sm))"
    and move: "\<And>c b i v a sm. \<lbrakk>I sm; volume_at sm i = Some v; vol_state v = VolAttached;
        vol_attached_hypervisor_id v = Some a\<rbrakk> \<Longrightarrow> I (commit_volume c i (moved b v) sm)"
    and local: "\<And>sm sm' recs. \<lbrakk>sm_storage sm' = (sm_storage sm)\<lparr>st_vm_records := recs\<rparr>;
        sm_storage_store sm' = sm_storage_store sm\<rbrakk> \<Longrightarrow> I sm' \<longleftrightarrow> I sm"
    and adm: "admits x sm"
  shows "I (exec x sm)"
proof -
  have same: "I sm'" if "sm_storage sm' = sm_storage sm" "sm_storage_store sm' = sm_storage_store sm" for sm'
    using local [where sm' = sm' and sm = sm and recs = "st_vm_records (sm_storage sm)"] that I by simp
  obtain c cmd where x: "x = (c, cmd)" by (cases x)
  show ?thesis
  proof (cases cmd)
    case (VmCommand vcmd)
    show ?thesis
    proof (cases "reschedules vcmd")
      case True
      then obtain vm a b gen where v: "vcmd = RescheduleVm vm a b gen"
        by (auto simp: reschedules_def split: vm_command.splits)
      have place: "I (s\<lparr>sm_placement := p\<rparr>)" if "I s" for s p
        using local [where sm' = "s\<lparr>sm_placement := p\<rparr>" and sm = s and recs = "st_vm_records (sm_storage s)"] that by simp
      have "I (fst (apply_RescheduleVm c vm a b gen sm))"
        by (rule reschedule_rule [where P = I, OF wf I]) (rule place move, assumption+)+
      then show ?thesis by (simp add: x VmCommand v)
    next
      case False
      then show ?thesis using local [OF vm_storage [OF False, of c sm]] I by (simp add: x VmCommand)
    qed
  next
    case (StorageCommand scmd)
    then show ?thesis using storage [OF I, of c scmd] adm by (simp add: x)
  qed (simp_all add: x same)
qed

section \<open>The volume map and its read copy\<close>

lemmas volumes_ok_apply = volumes_ok_step [where x = "(c, cmd)" for c cmd, simplified]
lemmas synced_storage = synced_apply [where x = "(c, cmd)" for c cmd, simplified]

lemma volumes_ok_records [simp]: "volumes_ok (st\<lparr>st_vm_records := r\<rparr>) \<longleftrightarrow> volumes_ok st"
  by (simp add: volumes_ok_def)

lemma volumes_ok_put:
  assumes ok: "volumes_ok st" and v: "hget (st_volumes st) i = Some v" and step: "volume_step v v'"
  shows "volumes_ok (put_volume i v' st)"
proof -
  have "volume_ok i v'" by (rule volume_step_ok [OF step volumes_okD(2) [OF ok v]])
  moreover have "names_unique (hget (hinsert i v' (st_volumes st)))"
    unfolding names_unique_def
  proof (intro allI impI)
    fix j w k u
    assume w: "hget (hinsert i v' (st_volumes st)) j = Some w" "hget (hinsert i v' (st_volumes st)) k = Some u"
      and same: "same_name w u"
    have old: "\<exists>a. hget (st_volumes st) j = Some a \<and> volume_step a w"
      if "hget (hinsert i v' (st_volumes st)) j = Some w" for j w
      using that v step by (auto split: if_splits intro: volume_step.stay)
    from old [OF w(1)] old [OF w(2)] obtain a b where
      "hget (st_volumes st) j = Some a" "volume_step a w" "hget (st_volumes st) k = Some b" "volume_step b u"
      by blast
    then show "j = k"
      by (blast intro: names_uniqueD [OF volumes_okD(3) [OF ok]] same_name_step [OF _ _ same])
  qed
  ultimately show ?thesis
    using ok by (auto simp: volumes_ok_def split: if_splits)
qed

interpretation mi_volumes: machine_invariant "\<lambda>sm. volumes_ok (sm_storage sm)" "\<lambda>_ _. True"
proof
  show "volumes_ok (sm_storage (exec x sm))" if "volumes_ok (sm_storage sm)" for x sm
  proof (rule storage_invariantI [where I = "\<lambda>sm. volumes_ok (sm_storage sm)" and admits = "\<lambda>_ _. True", OF that])
    show "hm_wf (st_volumes (sm_storage sm))" by (rule volumes_okD(1) [OF that])
    show "volumes_ok (sm_storage (commit_volume c i (moved b v) sm))"
      if "volumes_ok (sm_storage sm)" "volume_at sm i = Some v" "vol_state v = VolAttached"
        "vol_attached_hypervisor_id v = Some a" for c b i v a and sm :: replica
      using volumes_ok_put [OF that(1,2) moved_step [OF that(3,4)]] by simp
  qed (simp_all add: volumes_ok_apply)
qed

lemma synced_move:
  assumes "synced sm" "volumes_ok (sm_storage sm)" "volume_at sm i = Some v"
  shows "synced (commit_volume c i (moved b v) sm)"
proof (rule synced_commit [OF assms(1)])
  show "vol_id (moved b v) = i" using volumes_okD(2) [OF assms(2,3)] by (simp add: volume_ok_def)
qed (use assms(3) in simp)

lemma synced_frame:
  "\<lbrakk>st_volumes (sm_storage sm') = st_volumes (sm_storage sm); sm_storage_store sm' = sm_storage_store sm\<rbrakk>
   \<Longrightarrow> synced sm' \<longleftrightarrow> synced sm"
  by (simp add: synced_def split: option.split)

interpretation mi_synced: machine_invariant "\<lambda>sm. volumes_ok (sm_storage sm) \<and> synced sm" "\<lambda>_ _. True"
proof
  show "volumes_ok (sm_storage (exec x sm)) \<and> synced (exec x sm)"
    if inv: "volumes_ok (sm_storage sm) \<and> synced sm" for x sm
  proof (rule storage_invariantI [where I = "\<lambda>sm. volumes_ok (sm_storage sm) \<and> synced sm" and admits = "\<lambda>_ _. True", OF inv])
    show "hm_wf (st_volumes (sm_storage sm))" using inv volumes_okD(1) by blast
    show "volumes_ok (sm_storage (commit_volume c i (moved b v) sm)) \<and> synced (commit_volume c i (moved b v) sm)"
      if "volumes_ok (sm_storage sm) \<and> synced sm" "volume_at sm i = Some v" "vol_state v = VolAttached"
        "vol_attached_hypervisor_id v = Some a" for c b i v a and sm :: replica
      using that volumes_ok_put [OF _ that(2) moved_step [OF that(3,4)]] synced_move [OF _ _ that(2)] by simp
    show "(volumes_ok (sm_storage sm') \<and> synced sm') \<longleftrightarrow> (volumes_ok (sm_storage sm) \<and> synced sm)"
      if "sm_storage sm' = (sm_storage sm)\<lparr>st_vm_records := recs\<rparr>" "sm_storage_store sm' = sm_storage_store sm"
      for sm sm' :: replica and recs
      using that synced_frame [of sm' sm] by simp
  qed (simp_all add: volumes_ok_apply synced_storage)
qed

section \<open>Quotas, reference counts and log retention\<close>

definition quota_sets :: "step \<Rightarrow> bool" where
  "quota_sets x \<longleftrightarrow> (case snd x of StorageCommand cmd \<Rightarrow> sets_quota cmd | _ \<Rightarrow> False)"

definition quota_kept :: "quota_scope \<Rightarrow> storage_quota \<Rightarrow> storage_state \<Rightarrow> bool" where
  "quota_kept sc q st \<longleftrightarrow>
     hm_wf (st_volumes st) \<and> hm_wf (st_snapshots st) \<and> governs st sc q \<and> within_quota st sc q"

lemma governs_frame: "st_quotas st' = st_quotas st \<Longrightarrow> governs st' sc q \<longleftrightarrow> governs st sc q"
  by (simp add: governs_def split: quota_scope.split)

lemma quota_kept_records [simp]: "quota_kept sc q (st\<lparr>st_vm_records := r\<rparr>) \<longleftrightarrow> quota_kept sc q st"
  using governs_frame [of "st\<lparr>st_vm_records := r\<rparr>" st] by (simp add: quota_kept_def within_quota_def)

lemma quota_kept_put:
  assumes "quota_kept sc q st" "hget (st_volumes st) i = Some v" "volume_step v v'" "vol_size_gb v' = vol_size_gb v"
  shows "quota_kept sc q (put_volume i v' st)"
  using assms(1) volumes_change_within [OF volumes_change.update [OF assms(2-4)], of sc q]
    governs_frame [of "put_volume i v' st" st]
  by (simp add: quota_kept_def within_quota_def)

interpretation mi_quota: machine_invariant "\<lambda>sm. quota_kept sc q (sm_storage sm)" "\<lambda>x _. \<not> quota_sets x"
  for sc q
proof
  let ?I = "\<lambda>sm. quota_kept sc q (sm_storage sm)"
  show "?I (exec x sm)" if "?I sm" "\<not> quota_sets x" for x sm
  proof (rule storage_invariantI [where I = ?I and admits = "\<lambda>x _. \<not> quota_sets x", OF that(1)])
    show "hm_wf (st_volumes (sm_storage sm))" using that(1) by (simp add: quota_kept_def)
    show "?I (commit_volume c i (moved b v) sm)"
      if "?I sm" "volume_at sm i = Some v" "vol_state v = VolAttached"
        "vol_attached_hypervisor_id v = Some a" for c b i v a and sm :: replica
      using quota_kept_put [OF that(1,2) moved_step [OF that(3,4)]] by simp
    show "?I (fst (apply_storage c cmd sm))" if "?I sm" "\<not> quota_sets (c, StorageCommand cmd)" for c cmd and sm :: replica
      using that within_quota_apply [of cmd sm sc q c]
      by (simp add: quota_kept_def quota_sets_def governs_apply hm_wf_volumes_apply hm_wf_snapshots_apply)
  qed (simp_all add: that(2))
qed

text \<open>
  The counters cover the live references, and the retention position stays at or below
  every live snapshot, along logs whose counters have room and whose acknowledgements of
  deleted segments are below the live snapshots.
\<close>

definition gc_room :: "step \<Rightarrow> replica \<Rightarrow> bool" where
  "gc_room x sm \<longleftrightarrow> (case snd x of StorageCommand cmd \<Rightarrow> refs_room cmd (sm_storage sm) | _ \<Rightarrow> True)"

definition wal_acks :: "step \<Rightarrow> replica \<Rightarrow> bool" where
  "wal_acks x sm \<longleftrightarrow> (case snd x of StorageCommand cmd \<Rightarrow> wal_ack_ok cmd (sm_storage sm) | _ \<Rightarrow> True)"

definition gc_covered :: "storage_state \<Rightarrow> bool" where
  "gc_covered st \<longleftrightarrow> hm_wf (st_volumes st) \<and> hm_wf (st_snapshots st) \<and> refs_covered st"

definition wal_covered :: "storage_state \<Rightarrow> bool" where
  "wal_covered st \<longleftrightarrow> hm_wf (st_volumes st) \<and> hm_wf (st_snapshots st) \<and> wal_retained st"

lemma gc_records [simp]:
  "gc_covered (st\<lparr>st_vm_records := r\<rparr>) \<longleftrightarrow> gc_covered st"
  "wal_covered (st\<lparr>st_vm_records := r\<rparr>) \<longleftrightarrow> wal_covered st"
  using refs_frame [of "st\<lparr>st_vm_records := r\<rparr>" st] wal_retained_frame [of "st\<lparr>st_vm_records := r\<rparr>" st]
  by (simp_all add: gc_covered_def wal_covered_def)

lemma gc_put [simp]:
  "gc_covered st \<Longrightarrow> gc_covered (put_volume i v st)"
  "wal_covered st \<Longrightarrow> wal_covered (put_volume i v st)"
  using refs_frame [of "put_volume i v st" st] wal_retained_frame [of "put_volume i v st" st]
  by (simp_all add: gc_covered_def wal_covered_def)

interpretation mi_gc: machine_invariant "\<lambda>sm. gc_covered (sm_storage sm)" gc_room
proof
  let ?I = "\<lambda>sm. gc_covered (sm_storage sm)"
  show "?I (exec x sm)" if "?I sm" "gc_room x sm" for x sm
  proof (rule storage_invariantI [where I = ?I and admits = gc_room, OF that(1)])
    show "hm_wf (st_volumes (sm_storage sm))" using that(1) by (simp add: gc_covered_def)
    show "?I (fst (apply_storage c cmd sm))" if "?I sm" "gc_room (c, StorageCommand cmd) sm" for c cmd and sm :: replica
      using that gc_change_covered [OF apply_storage_gc_change [of sm cmd c]]
      by (simp add: gc_covered_def gc_room_def hm_wf_volumes_apply hm_wf_snapshots_apply)
  qed (simp_all add: that(2))
qed

interpretation mi_wal: machine_invariant "\<lambda>sm. wal_covered (sm_storage sm)" wal_acks
proof
  let ?I = "\<lambda>sm. wal_covered (sm_storage sm)"
  show "?I (exec x sm)" if "?I sm" "wal_acks x sm" for x sm
  proof (rule storage_invariantI [where I = ?I and admits = wal_acks, OF that(1)])
    show "hm_wf (st_volumes (sm_storage sm))" using that(1) by (simp add: wal_covered_def)
    show "?I (fst (apply_storage c cmd sm))" if "?I sm" "wal_acks (c, StorageCommand cmd) sm" for c cmd and sm :: replica
      using that wal_retained_apply [of sm cmd c]
      by (simp add: wal_covered_def wal_acks_def hm_wf_volumes_apply hm_wf_snapshots_apply)
  qed (simp_all add: that(2))
qed

end
