(* ===== verification/Machine_Stores.thy ===== *)
theory Machine_Stores
  imports Machine_Invariants
begin

text \<open>
  Invariants of the redb stores under the complete command language: the hypervisor
  records and their name index, the placements, the security-group rules; and the life of
  a hypervisor record, whose state changes along the allowed transitions only.
\<close>

section \<open>Hypervisors\<close>

text \<open>\<open>hv_change\<close> is the specification of what a command does to the hypervisor store.\<close>

inductive hv_change :: "hypervisor_store \<Rightarrow> hypervisor_store \<Rightarrow> bool" for s where
  same: "hv_change s s"
| create: "\<lbrakk>hypervisor_create hv s = Inr s'; hv_state hv = HvNotReady\<rbrakk> \<Longrightarrow> hv_change s s'"
| update: "\<lbrakk>hypervisor_get n s = Some hv; hypervisor_update hv' s = Inr s'; hv_id hv' = hv_id hv;
    hv_name hv' = hv_name hv; hv_state hv' = hv_state hv\<rbrakk> \<Longrightarrow> hv_change s s'"
| state: "hypervisor_update_state n st s = Inr s' \<Longrightarrow> hv_change s s'"

lemma hv_answer_store:
  "sm_hypervisors sm = Some s \<Longrightarrow>
   sm_hypervisors (fst (hv_answer r sm)) = Some (case r of Inl _ \<Rightarrow> s | Inr s' \<Rightarrow> s')"
  by (simp add: hv_answer_def split: sum.split)

lemma hv_change_result:
  "hv_change s s \<Longrightarrow> (\<And>s'. r = Inr s' \<Longrightarrow> hv_change s s') \<Longrightarrow> hv_change s (case r of Inl _ \<Rightarrow> s | Inr s' \<Rightarrow> s')"
  by (cases r) auto

lemma apply_hypervisor_change:
  assumes "sm_hypervisors sm = Some s"
  shows "\<exists>s'. sm_hypervisors (fst (apply_hypervisor c cmd sm)) = Some s' \<and> hv_change s s'"
proof -
  have upd: "hv_change s (case hypervisor_update hv' s of Inl _ \<Rightarrow> s | Inr s' \<Rightarrow> s')"
    if "hypervisor_get n s = Some hv" "hv_id hv' = hv_id hv" "hv_name hv' = hv_name hv" "hv_state hv' = hv_state hv"
    for n hv hv'
    by (rule hv_change_result [OF hv_change.same]) (rule hv_change.update [OF that(1) _ that(2-4)])
  have st: "hv_change s (case hypervisor_update_state n st s of Inl _ \<Rightarrow> s | Inr s' \<Rightarrow> s')" for n st
    by (rule hv_change_result [OF hv_change.same]) (rule hv_change.state)
  have cr: "hv_change s (case hypervisor_create (new_hypervisor c n r z ip) s of Inl _ \<Rightarrow> s | Inr s' \<Rightarrow> s')" for n r z ip
    by (rule hv_change_result [OF hv_change.same]) (erule hv_change.create, simp add: new_hypervisor_def)
  show ?thesis
    by (cases cmd)
       (auto simp: apply_RegisterHypervisor_def apply_EnableHypervisor_def apply_hv_state_def
         apply_hv_change_def apply_UpdateHypervisorCapacity_def Let_def assms hv_answer_store
         split: option.split intro: hv_change.same st cr upd)
qed

lemma hv_change_ok:
  assumes "hv_change s s'" "hv_store_ok s"
  shows "hv_store_ok s'"
  using assms(1)
proof cases
  case (update n hv hv')
  show ?thesis
    by (rule hv_store_ok_update [OF assms(2) _ _ update(2), of hv])
       (use update(3,4) hv_store_ok_get(2) [OF assms(2) update(1)] in simp_all)
qed (use assms(2) in \<open>auto dest: hv_store_ok_create hv_store_ok_update_state\<close>)

text \<open>The life of one record.\<close>

definition hv_step :: "hypervisor \<Rightarrow> hypervisor \<Rightarrow> bool" where
  "hv_step hv hv' \<longleftrightarrow>
     hv_id hv' = hv_id hv \<and> hv_name hv' = hv_name hv \<and>
     (hv_state hv' = hv_state hv \<or> transition_allowed (hv_state hv) (hv_state hv'))"

lemma hv_step_refl [simp]: "hv_step hv hv"
  by (simp add: hv_step_def)

lemma hv_change_step:
  assumes "hv_change s s'" "hv_store_ok s" "hypervisor_get_by_id i s = Some hv"
  shows "\<exists>hv'. hypervisor_get_by_id i s' = Some hv' \<and> hv_step hv hv'"
  using assms(1)
proof cases
  case (create w)
  then show ?thesis
    using assms(3) by (auto simp: hypervisor_create_def hypervisor_get_by_id_def split: if_splits)
next
  case (update n w w')
  then have s': "hypervisor_get_by_id j s' = (if j = hv_id w then Some w' else hypervisor_get_by_id j s)" for j
    by (auto simp: hypervisor_update_def hypervisor_get_by_id_def split: if_splits)
  show ?thesis
    using s' [of i] update assms(3) hv_store_ok_get(2) [OF assms(2) update(1)]
    by (cases "i = hv_id w") (auto simp: hv_step_def)
next
  case (state n st)
  then obtain w where w: "hypervisor_get n s = Some w" "transition_allowed (hv_state w) st"
    "s' = s\<lparr>tbl_hypervisors := db_set (hv_id w) (w\<lparr>hv_state := st\<rparr>) (tbl_hypervisors s)\<rparr>"
    by (rule update_state_effect)
  then have s': "hypervisor_get_by_id j s' = (if j = hv_id w then Some (w\<lparr>hv_state := st\<rparr>) else hypervisor_get_by_id j s)" for j
    by (auto simp: hypervisor_get_by_id_def)
  show ?thesis
    using s' [of i] w(2) assms(3) hv_store_ok_get(2) [OF assms(2) w(1)]
    by (cases "i = hv_id w") (auto simp: hv_step_def)
qed (use assms(3) in auto)

lemma exec_hypervisors:
  assumes "sm_hypervisors sm = Some s"
  shows "\<exists>s'. sm_hypervisors (exec x sm) = Some s' \<and> hv_change s s'"
  using assms apply_hypervisor_change [OF assms] by (cases "snd x") (simp_all add: hv_change.same)

interpretation mi_hypervisors: machine_invariant "\<lambda>sm. pred_option hv_store_ok (sm_hypervisors sm)" "\<lambda>_ _. True"
proof
  show "pred_option hv_store_ok (sm_hypervisors (exec x sm))"
    if "pred_option hv_store_ok (sm_hypervisors sm)" for x sm
  proof (cases "sm_hypervisors sm")
    case None
    then have "sm_hypervisors (exec x sm) = None"
      by (cases "snd x"; simp; rename_tac cmd; case_tac cmd; simp add: hypervisor_handler_defs)
    then show ?thesis by simp
  next
    case (Some s)
    then show ?thesis using exec_hypervisors [OF Some, of x] hv_change_ok that by auto
  qed
qed

definition decommissioned :: "string \<Rightarrow> replica \<Rightarrow> bool" where
  "decommissioned i sm \<longleftrightarrow>
     (case sm_hypervisors sm of
        None \<Rightarrow> False
      | Some s \<Rightarrow> hv_store_ok s \<and>
          (case hypervisor_get_by_id i s of None \<Rightarrow> False | Some hv \<Rightarrow> hv_state hv = HvDecommissioned))"

interpretation mi_decommissioned: machine_invariant "decommissioned i" "\<lambda>_ _. True" for i
proof
  show "decommissioned i (exec x sm)" if dec: "decommissioned i sm" for x sm
  proof -
    obtain s hv where s: "sm_hypervisors sm = Some s" "hv_store_ok s" "hypervisor_get_by_id i s = Some hv"
      "hv_state hv = HvDecommissioned"
      using dec by (auto simp: decommissioned_def split: option.splits)
    obtain s' where s': "sm_hypervisors (exec x sm) = Some s'" "hv_change s s'"
      using exec_hypervisors [OF s(1)] by blast
    obtain hv' where "hypervisor_get_by_id i s' = Some hv'" "hv_step hv hv'"
      using hv_change_step [OF s'(2) s(2,3)] by blast
    then show ?thesis
      using s(4) s'(1) hv_change_ok [OF s'(2) s(2)] decommissioned_final
      by (simp add: decommissioned_def hv_step_def)
  qed
qed

section \<open>Placements and rules\<close>

lemma vm_placements:
  assumes "pred_option placements_keyed (sm_placement sm)"
  shows "pred_option placements_keyed (sm_placement (fst (apply_vm c cmd sm)))"
  using assms
  by (cases cmd)
     (auto simp: vm_handler_defs apply_RescheduleVm_def Let_def placements_keyed_add
       split: option.splits sum.splits dest: placements_keyed_remove)

interpretation mi_placements: machine_invariant "\<lambda>sm. pred_option placements_keyed (sm_placement sm)" "\<lambda>_ _. True"
proof
  show "pred_option placements_keyed (sm_placement (exec x sm))"
    if "pred_option placements_keyed (sm_placement sm)" for x sm
    using that vm_placements [OF that] by (cases "snd x") simp_all
qed

lemma network_rules:
  assumes "pred_option rules_ok (sm_sg_rules sm)"
  shows "pred_option rules_ok (sm_sg_rules (fst (apply_network c cmd sm)))"
  using assms
  by (cases cmd)
     (auto simp: network_handler_defs Let_def split: handler_splits dest: rules_ok_add rules_ok_remove)

interpretation mi_rules: machine_invariant "\<lambda>sm. pred_option rules_ok (sm_sg_rules sm)" "\<lambda>_ _. True"
proof
  show "pred_option rules_ok (sm_sg_rules (exec x sm))"
    if "pred_option rules_ok (sm_sg_rules sm)" for x sm
    using that network_rules [OF that] by (cases "snd x") simp_all
qed

end
