(* ===== verification/Manifest_Fencing.thy ===== *)
theory Manifest_Fencing
  imports Machine_Invariants
begin

text \<open>
  Fencing for the complete command language.  A hypervisor that publishes a manifest
  presents the placement generation of the volume; the state machine accepts it only from
  the hypervisor the volume is assigned to.  Along any log a generation belongs to one
  hypervisor, and within a generation the manifest versions only grow.  Hence no two
  accepted manifests of a volume agree in generation and version, and two of the same
  generation have the same publisher.
\<close>

section \<open>One basic command\<close>

definition purges :: "step \<Rightarrow> bool" where
  "purges x \<longleftrightarrow> (case snd x of StorageCommand cmd \<Rightarrow> is_purge cmd | _ \<Rightarrow> False)"

lemma hm_wf_exec:
  assumes "hm_wf (st_volumes (sm_storage sm))"
  shows "hm_wf (st_volumes (sm_storage (exec x sm)))"
proof (rule storage_invariantI [where I = "\<lambda>sm. hm_wf (st_volumes (sm_storage sm))" and admits = "\<lambda>_ _. True"])
  show "hm_wf (st_volumes (sm_storage sm'))  \<longleftrightarrow> hm_wf (st_volumes (sm_storage sm))"
    if "sm_storage sm' = (sm_storage sm)\<lparr>st_vm_records := recs\<rparr>" for sm sm' :: replica and recs
    using that by simp
qed (use assms in \<open>simp_all add: hm_wf_volumes_apply\<close>)

lemma reschedule_evolves:
  assumes wf: "hm_wf (st_volumes (sm_storage sm))" and v: "volume_at sm i = Some v"
  obtains v' where "volume_at (fst (apply_RescheduleVm c vm a b gen sm)) i = Some v'" "volume_step v v'"
proof -
  let ?is = "volumes_of_vm vm a (sm_storage sm)"
  have "i \<in> set ?is \<Longrightarrow> volume_step v (moved b v)"
    using v by (auto simp: volumes_of_vm_iff [OF wf] intro: moved_step)
  moreover have "volume_at (fst (apply_RescheduleVm c vm a b gen sm)) i \<in>
      {Some v, if i \<in> set ?is then Some (moved b v) else Some v}"
    using v by (simp add: apply_RescheduleVm_def placement_missing_def Let_def
        fold_move_at [OF distinct_volumes_of_vm [OF wf]] split: option.splits)
  ultimately show thesis
    using that [of v] that [of "moved b v"] volume_step.stay by (auto split: if_splits)
qed

lemma exec_evolves:
  assumes wf: "hm_wf (st_volumes (sm_storage sm))" and "\<not> purges x" and v: "volume_at sm i = Some v"
  shows "\<exists>v'. volume_at (exec x sm) i = Some v' \<and> volume_step v v'"
proof -
  obtain c cmd where x: "x = (c, cmd)" by (cases x)
  have stay: "\<exists>v'. s = Some v' \<and> volume_step v v'" if "s = Some v" for s
    using that volume_step.stay by blast
  show ?thesis
  proof (cases cmd)
    case (VmCommand vcmd)
    show ?thesis
    proof (cases "reschedules vcmd")
      case True
      then obtain vm a b gen where "vcmd = RescheduleVm vm a b gen"
        by (auto simp: reschedules_def split: vm_command.splits)
      then show ?thesis
        using reschedule_evolves [OF wf v, of c vm a b gen] by (auto simp: x VmCommand)
    qed (use v stay in \<open>simp add: x VmCommand\<close>)
  next
    case (StorageCommand scmd)
    then show ?thesis
      using assms(2) apply_storage_evolves [OF _ v, of scmd c] by (auto simp: x purges_def)
  qed (use v stay in \<open>simp_all add: x\<close>)
qed

interpretation vmachine: volume_machine exec volume_at "\<lambda>sm. hm_wf (st_volumes (sm_storage sm))"
    "\<lambda>x. \<not> purges x" "\<lambda>_. 1"
proof
  have one: "volume_step ^^ 1 = volume_step" by (simp add: fun_eq_iff relcompp_apply)
  show "\<exists>v'. volume_at (exec x sm) i = Some v' \<and> (volume_step ^^ 1) v v'"
    if "hm_wf (st_volumes (sm_storage sm))" "\<not> purges x" "volume_at sm i = Some v" for x sm i v
    unfolding one by (rule exec_evolves [OF that])
qed (rule hm_wf_exec)

section \<open>Versions within a generation\<close>

abbreviation version_of :: "string \<Rightarrow> 'a storage_sm_scheme \<Rightarrow> u64" where
  "version_of i sm \<equiv> last_manifest_version i (sm_storage sm)"

definition supersedes :: "volume_record \<times> u64 \<Rightarrow> volume_record \<times> u64 \<Rightarrow> bool" where
  "supersedes p p' \<longleftrightarrow>
     fences (fst p) (fst p') \<and>
     (vol_placement_generation (fst p) = vol_placement_generation (fst p') \<and> vol_state (fst p') = VolAttached
        \<longrightarrow> snd p \<le> snd p')"

lemma supersedes_refl [simp]: "supersedes p p"
  by (simp add: supersedes_def)

lemma supersedes_trans: "\<lbrakk>supersedes p q; supersedes q r\<rbrakk> \<Longrightarrow> supersedes p r"
  unfolding supersedes_def fences_def by (auto intro: less_trans order_trans)

definition moves_pointers :: "storage_command \<Rightarrow> bool" where
  "moves_pointers cmd \<longleftrightarrow>
     (case cmd of CommitManifest _ _ _ _ _ \<Rightarrow> True | VolumeDetach _ \<Rightarrow> True | RestoreSnapshot _ _ _ \<Rightarrow> True | _ \<Rightarrow> False)"

lemma pointers_stay:
  "\<not> moves_pointers cmd \<Longrightarrow>
   st_manifest_pointers (sm_storage (fst (apply_storage c cmd sm))) = st_manifest_pointers (sm_storage sm)"
  by (cases cmd) (simp_all add: moves_pointers_def handler_defs Let_def split: option.split sum.split)

lemma version_frame:
  "st_manifest_pointers (sm_storage sm') = st_manifest_pointers (sm_storage sm) \<Longrightarrow> version_of i sm' = version_of i sm"
  by (simp add: last_manifest_version_def)

lemma commit_pointers:
  assumes "\<not> is_error (snd (apply_storage c (CommitManifest j g n k h) sm))"
  shows "n = last_manifest_version j (sm_storage sm) + 1 \<and>
    st_manifest_pointers (sm_storage (fst (apply_storage c (CommitManifest j g n k h) sm))) =
    hinsert j \<lparr>mp_volume_id = j, mp_generation = g, mp_manifest_version = n, mp_s3_key = k, mp_published_by = h\<rparr>
      (st_manifest_pointers (sm_storage sm))"
  using assms
  by (simp add: apply_CommitManifest_def Let_def last_manifest_version_def split: option.split_asm if_split_asm)

lemma commit_version:
  "version_of i (fst (apply_storage c (CommitManifest j g n k h) sm)) \<in> {version_of i sm, version_of i sm + 1}"
proof (cases "is_error (snd (apply_storage c (CommitManifest j g n k h) sm))")
  case True
  show ?thesis by (simp only: storage_refused [OF True]) simp
next
  case False
  note p = commit_pointers [OF False]
  have "version_of i (fst (apply_storage c (CommitManifest j g n k h) sm)) = (if i = j then n else version_of i sm)"
    by (simp only: last_manifest_version_def p [THEN conjunct2]) simp
  then show ?thesis using p by simp
qed

lemma storage_version:
  assumes "volume_at sm i = Some v"
  shows "version_of i (fst (apply_storage c cmd sm)) \<in> {version_of i sm, version_of i sm + 1} \<or>
    version_of i (fst (apply_storage c cmd sm)) = 0 \<and>
    (\<exists>v'. volume_at (fst (apply_storage c cmd sm)) i = Some v' \<and> vol_state v' \<noteq> VolAttached)"
proof (cases cmd)
  case (CommitManifest j g n k h)
  then show ?thesis using commit_version by blast
next
  case (VolumeDetach j)
  then show ?thesis
    by (auto simp: apply_VolumeDetach_def last_manifest_version_def split: option.splits)
next
  case (RestoreSnapshot j k n)
  have "version_of i (fst (apply_storage c (RestoreSnapshot j k n) sm)) = version_of i sm"
    using assms by (auto simp: apply_RestoreSnapshot_def last_manifest_version_def Let_def split: option.split sum.split)
  then show ?thesis by (simp add: RestoreSnapshot)
qed (use version_frame [OF pointers_stay, of cmd i c sm] in \<open>simp_all add: moves_pointers_def\<close>)

lemma move_volume_pointers [simp]:
  "st_manifest_pointers (sm_storage (move_volume c b i sm)) = st_manifest_pointers (sm_storage sm)"
  by (simp add: move_volume_def split: option.splits)

lemmas fold_move_pointers [simp] = move_volume_pointers [THEN fold_frame [where g = "move_volume c b" for c b]]

lemma vm_pointers [simp]:
  "st_manifest_pointers (sm_storage (fst (apply_vm c cmd sm))) = st_manifest_pointers (sm_storage sm)"
  by (cases cmd) (simp_all add: vm_handler_defs apply_RescheduleVm_def Let_def split: handler_splits)

lemma exec_version:
  assumes "volume_at sm i = Some v"
  shows "version_of i (exec x sm) \<in> {version_of i sm, version_of i sm + 1} \<or>
    version_of i (exec x sm) = 0 \<and> (\<exists>v'. volume_at (exec x sm) i = Some v' \<and> vol_state v' \<noteq> VolAttached)"
proof -
  obtain c cmd where x: "x = (c, cmd)" by (cases x)
  show ?thesis
  proof (cases cmd)
    case (StorageCommand scmd)
    then show ?thesis using storage_version [OF assms] by (simp add: x)
  qed (simp_all add: x version_frame [of "fst (apply_vm c cmd sm)" sm for c cmd])
qed

lemma exec_supersedes:
  assumes wf: "hm_wf (st_volumes (sm_storage sm))" and np: "\<not> purges x" and v: "volume_at sm i = Some v"
    and room: "unat (vol_placement_generation v) + 1 < 2 ^ 64" "unat (version_of i sm) + 1 < 2 ^ 64"
  obtains v' where "volume_at (exec x sm) i = Some v'"
    "supersedes (v, version_of i sm) (v', version_of i (exec x sm))"
    "unat (vol_placement_generation v') \<le> unat (vol_placement_generation v) + 1"
    "unat (version_of i (exec x sm)) \<le> unat (version_of i sm) + 1"
proof -
  obtain v' where v': "volume_at (exec x sm) i = Some v'" "volume_step v v'"
    using exec_evolves [OF wf np v] by blast
  note f = volume_step_fences [OF v'(2) room(1)]
  note n = less_Suc_u64 [OF room(2)]
  have "supersedes (v, version_of i sm) (v', version_of i (exec x sm))"
    "unat (version_of i (exec x sm)) \<le> unat (version_of i sm) + 1"
    using exec_version [OF v, of x] f n v'(1) by (auto simp: supersedes_def)
  then show thesis using that v'(1) f by blast
qed

lemma steps_supersede:
  assumes "hm_wf (st_volumes (sm_storage sm))" "list_all (\<lambda>x. \<not> purges x) xs" "volume_at sm i = Some v"
    "unat (vol_placement_generation v) + length xs < 2 ^ 64" "unat (version_of i sm) + length xs < 2 ^ 64"
  shows "\<exists>v'. volume_at (fold exec xs sm) i = Some v' \<and>
    supersedes (v, version_of i sm) (v', version_of i (fold exec xs sm)) \<and>
    unat (version_of i (fold exec xs sm)) \<le> unat (version_of i sm) + length xs"
  using assms
proof (induction xs arbitrary: sm v)
  case (Cons x xs)
  obtain u where u: "volume_at (exec x sm) i = Some u"
    "supersedes (v, version_of i sm) (u, version_of i (exec x sm))"
    "unat (vol_placement_generation u) \<le> unat (vol_placement_generation v) + 1"
    "unat (version_of i (exec x sm)) \<le> unat (version_of i sm) + 1"
    by (rule exec_supersedes [OF Cons.prems(1) _ Cons.prems(3)]) (use Cons.prems in auto)
  have "\<exists>v'. volume_at (fold exec xs (exec x sm)) i = Some v' \<and>
      supersedes (u, version_of i (exec x sm)) (v', version_of i (fold exec xs (exec x sm))) \<and>
      unat (version_of i (fold exec xs (exec x sm))) \<le> unat (version_of i (exec x sm)) + length xs"
    by (rule Cons.IH [OF hm_wf_exec [OF Cons.prems(1)] _ u(1)]) (use Cons.prems u(3,4) in auto)
  then obtain v' where v': "volume_at (fold exec xs (exec x sm)) i = Some v'"
    "supersedes (u, version_of i (exec x sm)) (v', version_of i (fold exec xs (exec x sm)))"
    "unat (version_of i (fold exec xs (exec x sm))) \<le> unat (version_of i (exec x sm)) + length xs"
    by blast
  have "unat (version_of i (fold exec xs (exec x sm))) \<le> unat (version_of i sm) + length (x # xs)"
    using v'(3) u(4) by simp
  with v'(1) supersedes_trans [OF u(2) v'(2)] show ?case by simp
qed simp

text \<open>The same for a log, whose composite commands may execute in part.\<close>

lemma log_supersedes:
  assumes wf: "hm_wf (st_volumes (sm_storage sm))" and np: "list_all (\<lambda>x. \<not> purges x) (log_steps l)"
    and v: "volume_at sm i = Some v"
    and room: "unat (vol_placement_generation v) + length (log_steps l) < 2 ^ 64"
      "unat (version_of i sm) + length (log_steps l) < 2 ^ 64"
  obtains v' where "volume_at (apply_log l sm) i = Some v'"
    "supersedes (v, version_of i sm) (v', version_of i (apply_log l sm))"
    "unat (version_of i (apply_log l sm)) \<le> unat (version_of i sm) + length (log_steps l)"
proof -
  obtain ys where ys: "apply_log l sm = fold exec ys sm" "subseq ys (log_steps l)"
    by (rule log_executed)
  note sub = executed_subset [OF ys(2)]
  from sub have "\<exists>v'. volume_at (fold exec ys sm) i = Some v' \<and>
      supersedes (v, version_of i sm) (v', version_of i (fold exec ys sm)) \<and>
      unat (version_of i (fold exec ys sm)) \<le> unat (version_of i sm) + length ys"
    using np room by (intro steps_supersede [OF wf _ v]) (auto simp: list_all_iff)
  then obtain v' where v': "volume_at (fold exec ys sm) i = Some v'"
    "supersedes (v, version_of i sm) (v', version_of i (fold exec ys sm))"
    "unat (version_of i (fold exec ys sm)) \<le> unat (version_of i sm) + length ys"
    by blast
  show thesis by (rule that [of v']) (use v' ys(1) sub(2) in simp_all)
qed

end
