(* ===== verification/Machine_Properties.thy ===== *)
theory Machine_Properties
  imports Storage_Properties Machine_Stores Manifest_Fencing
begin

text \<open>
  What the state machine promises along every log: fencing of volume writers, the volume
  invariant, agreement of the redb tables with the state in memory, quotas, reference
  counts, write-ahead-log retention, the order in which composite commands take effect and
  the life of a hypervisor.

  A replica starts as \<open>full_replica\<close>: the machine of \<^verbatim>\<open>RedbStateMachine::new\<close> with the stores
  that \<^verbatim>\<open>with_ipam_store\<close>, \<^verbatim>\<open>with_placement_store\<close>, \<^verbatim>\<open>with_sg_rule_store\<close>,
  \<^verbatim>\<open>with_hypervisor_store\<close> and \<^verbatim>\<open>with_storage_store\<close> attach, all of them empty.
\<close>

definition full_replica :: replica where
  "full_replica = new_replica
     \<lparr>sm_ipam := Some empty_ipam_store, sm_placement := Some empty_placement_store,
      sm_sg_rules := Some empty_sg_rule_store, sm_hypervisors := Some empty_hypervisor_store,
      sm_storage_store := Some empty_storage_store\<rparr>"

abbreviation commits :: "string \<Rightarrow> u64 \<Rightarrow> u64 \<Rightarrow> string \<Rightarrow> string \<Rightarrow> command" where
  "commits i g n k h \<equiv> Basic (StorageCommand (CommitManifest i g n k h))"

section \<open>Sample logs\<close>

definition sample_contexts :: contexts where
  "sample_contexts = (\<lambda>_. sample_ctx)"

definition basic_log :: "basic_command list \<Rightarrow> log" where
  "basic_log cmds = map (\<lambda>cmd. (sample_contexts, Basic cmd)) cmds"

definition storage_log :: "storage_command list \<Rightarrow> log" where
  "storage_log cmds = basic_log (map StorageCommand cmds)"

definition sample_log :: log where
  "sample_log = storage_log
     [CreateVolume ''v1'' ''data'' 10 ''o'' ''p'' ''e'' Data None None, VolumeAttach ''v1'' ''vm'' ''h1'']"

definition sample_quota :: storage_quota where
  "sample_quota = \<lparr>q_max_volumes = 1, q_max_total_gb = 20, q_max_snapshots = 0\<rparr>"

definition quota_log :: log where
  "quota_log = storage_log [SetStorageQuota (ScopeProject ''o'' ''p'') 1 20 0]"

definition gc_log :: log where
  "gc_log = storage_log
     [CreateVolume ''v1'' ''data'' 10 ''o'' ''p'' ''e'' Data None None, CreateSnapshot ''s1'' ''v1'' [''f'', ''g''] 5,
      CreateSnapshot ''s2'' ''v1'' [''g''] 7]"

definition wal_log :: log where
  "wal_log = gc_log @ storage_log [DeleteSnapshot ''s1'', GcCompleteWalSegments 6]"

abbreviation delete_s1 :: step where
  "delete_s1 \<equiv> (sample_ctx, StorageCommand (DeleteSnapshot ''s1''))"

section \<open>Shared facts\<close>

lemma full_replica_sel [simp]:
  "sm_storage full_replica = empty_storage_state" "sm_storage_store full_replica = Some empty_storage_store"
  "sm_hypervisors full_replica = Some empty_hypervisor_store" "sm_org full_replica = empty_org_store"
  "sm_placement full_replica = Some empty_placement_store" "sm_sg_rules full_replica = Some empty_sg_rule_store"
  "sm_ipam full_replica = Some empty_ipam_store"
  by (simp_all add: full_replica_def new_replica_def)

lemma empty_storage_sel [simp]:
  "st_volumes empty_storage_state = []" "st_snapshots empty_storage_state = []"
  "st_sst_refcounts empty_storage_state = []" "st_quotas empty_storage_state = []"
  by (simp_all add: empty_storage_state_def)

lemma log_all: "log_admits (\<lambda>_ _. True) l sm"
  using log_admits_static [of "\<lambda>_. True"] by (simp add: list_all_iff)

lemma hm_wf_log:
  assumes "hm_wf (st_volumes (sm_storage sm))"
  shows "hm_wf (st_volumes (sm_storage (apply_log l sm)))"
proof -
  obtain ys where "apply_log l sm = fold exec ys sm" by (rule log_executed)
  then show ?thesis using vmachine.log_inv [OF assms, of ys] by simp
qed

lemma commit_accepted:
  assumes "snd (apply_command ctxs (commits i g n k h) sm) = Ok"
  shows "may_commit i g n h (sm_storage sm)"
    "volume_at (exec_command (ctxs, commits i g n k h) sm) = volume_at sm"
    "version_of i (exec_command (ctxs, commits i g n k h) sm) = n"
proof -
  have ok: "may_commit i g n h (sm_storage sm) \<and> fst (apply_storage (ctxs []) (CommitManifest i g n k h) sm) =
      sm_storage_update (\<lambda>st. st\<lparr>st_manifest_pointers :=
        hinsert i \<lparr>mp_volume_id = i, mp_generation = g, mp_manifest_version = n, mp_s3_key = k, mp_published_by = h\<rparr>
          (st_manifest_pointers st)\<rparr>) sm"
    using assms by (auto simp: apply_CommitManifest_def may_commit_def Let_def split: option.splits if_splits)
  then show "may_commit i g n h (sm_storage sm)" by simp
  show "volume_at (exec_command (ctxs, commits i g n k h) sm) = volume_at sm"
    "version_of i (exec_command (ctxs, commits i g n k h) sm) = n"
    using ok by (simp_all add: last_manifest_version_def)
qed

lemma may_commitD:
  assumes "may_commit i g n h st"
  obtains v where "hget (st_volumes st) i = Some v" "vol_state v = VolAttached" "vol_placement_generation v = g"
    "h = (case vol_attached_hypervisor_id v of None \<Rightarrow> [] | Some a \<Rightarrow> a)" "n = last_manifest_version i st + 1"
  using assms by (auto simp: may_commit_def split: option.splits)

lemma exec_vm_absent:
  assumes wf: "hm_wf (st_volumes (sm_storage sm))" and none: "volume_at sm i = None"
  shows "volume_at (fst (apply_vm c cmd sm)) i = None"
proof (cases "reschedules cmd")
  case True
  with none show ?thesis
    by (cases cmd) (simp_all add: reschedules_def apply_RescheduleVm_def placement_missing_def Let_def
        fold_move_at [OF distinct_volumes_of_vm [OF wf]] split: option.split)
qed (simp add: none)

lemma exec_slot_step:
  assumes wf: "hm_wf (st_volumes (sm_storage sm))"
  shows "slot_step i (volume_at sm i) (volume_at (exec x sm) i)"
proof -
  obtain c cmd where x: "x = (c, cmd)" by (cases x)
  show ?thesis
  proof (cases cmd)
    case (VmCommand vcmd)
    have np: "\<not> purges x" by (simp add: x VmCommand purges_def)
    show ?thesis
    proof (cases "volume_at sm i")
      case (Some v)
      then show ?thesis using exec_evolves [OF wf np Some] by (auto intro: slot_step.change)
    next
      case None
      then have "volume_at (exec x sm) i = None"
        using exec_vm_absent [OF wf None] by (simp add: x VmCommand)
      with None show ?thesis by (simp add: slot_step.absent)
    qed
  qed (use apply_storage_slots [of _ sm] wf in \<open>simp_all add: x\<close>)
qed

lemma hm_wf_snapshots_log:
  assumes "hm_wf (st_snapshots (sm_storage sm))" "hm_wf (st_volumes (sm_storage sm))"
  shows "hm_wf (st_snapshots (sm_storage (apply_log l sm)))"
proof -
  obtain ys where ys: "apply_log l sm = fold exec ys sm" by (rule log_executed)
  have "hm_wf (st_snapshots (sm_storage (exec x sm)))"
    if "hm_wf (st_snapshots (sm_storage sm))" "hm_wf (st_volumes (sm_storage sm))" for x sm
  proof (rule storage_invariantI [where I = "\<lambda>sm. hm_wf (st_snapshots (sm_storage sm))" and admits = "\<lambda>_ _. True"])
    show "hm_wf (st_snapshots (sm_storage sm')) \<longleftrightarrow> hm_wf (st_snapshots (sm_storage sm))"
      if "sm_storage sm' = (sm_storage sm)\<lparr>st_vm_records := recs\<rparr>" for sm sm' :: replica and recs
      using that by simp
  qed (use that in \<open>simp_all add: hm_wf_snapshots_apply\<close>)
  then have "hm_wf (st_snapshots (sm_storage (fold exec ys sm)))"
    using assms by (induction ys arbitrary: sm) (simp_all add: hm_wf_exec)
  with ys show ?thesis by simp
qed

lemma move_volume_gc [simp]:
  "st_snapshots (sm_storage (move_volume c b i sm)) = st_snapshots (sm_storage sm)"
  "st_sst_refcounts (sm_storage (move_volume c b i sm)) = st_sst_refcounts (sm_storage sm)"
  "st_pending_gc_ssts (sm_storage (move_volume c b i sm)) = st_pending_gc_ssts (sm_storage sm)"
  by (simp_all add: move_volume_def split: option.splits)

lemmas fold_move_gc [simp] = move_volume_gc [THEN fold_frame [where g = "move_volume c b" for c b]]

lemma vm_gc [simp]:
  "st_snapshots (sm_storage (fst (apply_vm c cmd sm))) = st_snapshots (sm_storage sm)"
  "st_sst_refcounts (sm_storage (fst (apply_vm c cmd sm))) = st_sst_refcounts (sm_storage sm)"
  "st_pending_gc_ssts (sm_storage (fst (apply_vm c cmd sm))) = st_pending_gc_ssts (sm_storage sm)"
  by (cases cmd; simp add: vm_handler_defs apply_RescheduleVm_def Let_def split: handler_splits)+

definition restores :: "step \<Rightarrow> bool" where
  "restores x \<longleftrightarrow> (case snd x of StorageCommand cmd \<Rightarrow> is_restore cmd | _ \<Rightarrow> False)"

lemma exec_gc_change:
  assumes wf: "hm_wf (st_snapshots (sm_storage sm))" and room: "gc_room x sm"
  shows "gc_change (restores x) (sm_storage sm) (sm_storage (exec x sm))"
proof (cases "snd x")
  case (StorageCommand cmd)
  then show ?thesis
    using apply_storage_gc_change [OF wf, of cmd "fst x"] room by (simp add: gc_room_def restores_def)
next
  case (VmCommand cmd)
  then show ?thesis by (intro gc_change.keep) simp_all
qed simp_all

lemma files_room_code [code]:
  "files_room st files \<longleftrightarrow> list_all (\<lambda>k. uint (sst_count st k) + int (length files) < 18446744073709551616) files"
proof -
  have "(unat w + n < 2 ^ 64) = (uint w + int n < 18446744073709551616)" for w :: u64 and n
  proof -
    have "(unat w + n < 2 ^ 64) = (int (unat w + n) < int (2 ^ 64))" by (simp only: of_nat_less_iff)
    then show ?thesis by simp
  qed
  then show ?thesis by (simp add: files_room_def)
qed

lemma exec_store_kept: "sm_storage_store (exec x sm) = None \<longleftrightarrow> sm_storage_store sm = None"
proof -
  have move: "sm_storage_store (move_volume c b i sm) = None \<longleftrightarrow> sm_storage_store sm = None" for c b i and sm :: replica
    by (simp add: move_volume_def commit_volume_def sync_volume_to_store_def split: option.splits)
  have moves: "sm_storage_store (fold (move_volume c b) is sm) = None \<longleftrightarrow> sm_storage_store sm = None" for c b "is" and sm :: replica
    by (induction "is" arbitrary: sm) (simp_all add: move)
  have purge: "sm_storage_store (fold sync_volume_delete_from_store is sm) = None \<longleftrightarrow> sm_storage_store sm = None" for "is" and sm :: replica
    by (induction "is" arbitrary: sm) (auto simp: sync_volume_delete_from_store_def split: option.splits)
  show ?thesis
  proof (cases "snd x")
    case (StorageCommand cmd)
    then show ?thesis
      by (cases cmd) (simp_all add: handler_defs Let_def purge commit_volume_def sync_volume_to_store_def
          sync_quota_to_store_def sync_storage_config_to_store_def split: option.splits sum.splits)
  next
    case (VmCommand cmd)
    then show ?thesis
      by (cases cmd) (simp_all add: vm_handler_defs apply_RescheduleVm_def moves Let_def split: handler_splits)
  qed simp_all
qed

interpretation mi_stored: machine_invariant "\<lambda>sm. sm_storage_store sm \<noteq> None" "\<lambda>_ _. True"
  by unfold_locales (simp add: exec_store_kept)

text \<open>The runs of the witnesses, evaluated together.\<close>

lemma sample_runs:
  "snd (apply_command sample_contexts (commits ''v1'' 1 1 ''k1'' ''h1'') (apply_log sample_log full_replica)) = Ok \<and>
   snd (apply_command sample_contexts (commits ''v1'' 1 2 ''k2'' ''h1'')
     (apply_log [] (exec_command (sample_contexts, commits ''v1'' 1 1 ''k1'' ''h1'') (apply_log sample_log full_replica)))) = Ok \<and>
   within_quota (sm_storage (apply_log quota_log full_replica)) (ScopeProject ''o'' ''p'') sample_quota \<and>
   list_all (\<lambda>x. \<not> quota_sets x) (log_steps sample_log) \<and>
   log_admits gc_room gc_log full_replica \<and> gc_room delete_s1 (apply_log gc_log full_replica) \<and>
   ''f'' \<in> set (st_pending_gc_ssts (sm_storage (exec delete_s1 (apply_log gc_log full_replica)))) \<and>
   ''f'' \<notin> set (st_pending_gc_ssts (sm_storage (apply_log gc_log full_replica))) \<and>
   sst_count (sm_storage (apply_log gc_log full_replica)) ''f'' \<noteq> 0 \<and>
   sst_count (sm_storage (exec delete_s1 (apply_log gc_log full_replica))) ''f'' = 0 \<and>
   log_admits wal_acks wal_log full_replica"
  by code_simp

section \<open>Fencing\<close>

text \<open>
  C1: Take any history of a replica in which a manifest of volume \<open>i\<close> is accepted with
  placement generation \<open>g\<close>, then any log \<open>l\<close> without tombstone purges, and then another
  manifest accepted with the same generation.  Both have the same publisher, and the later
  one has the larger version: no manifest of a generation is overwritten by another node or
  by an older one.  The generation and the version do not reach the end of 64 bits within
  the log.
\<close>

theorem manifest_single_writer:
  fixes l0 l :: log and g n n' :: u64 and ctxs :: contexts and i k h :: string
  defines "sm \<equiv> apply_log l0 full_replica"
  defines "sm1 \<equiv> exec_command (ctxs, commits i g n k h) sm"
  assumes first: "snd (apply_command ctxs (commits i g n k h) sm) = Ok"
    and second: "snd (apply_command ctxs' (commits i g n' k' h') (apply_log l sm1)) = Ok"
    and np: "list_all (\<lambda>x. \<not> purges x) (log_steps l)"
    and room: "unat g + length (log_steps l) < 2 ^ 64" "unat n + length (log_steps l) + 1 < 2 ^ 64"
  shows "h' = h \<and> n < n'"
proof -
  note a = commit_accepted [OF first]
  obtain v where v: "volume_at sm i = Some v" "vol_state v = VolAttached" "vol_placement_generation v = g"
    "h = (case vol_attached_hypervisor_id v of None \<Rightarrow> [] | Some a \<Rightarrow> a)"
    using a(1) by (rule may_commitD)
  have wf: "hm_wf (st_volumes (sm_storage sm))"
    unfolding sm_def by (rule hm_wf_log) simp
  then have wf1: "hm_wf (st_volumes (sm_storage sm1))"
    unfolding sm1_def using hm_wf_log [of sm "[(ctxs, commits i g n k h)]"] by simp
  have v1: "volume_at sm1 i = Some v" "version_of i sm1 = n"
    using v(1) a(2,3) by (simp_all add: sm1_def)
  obtain v' where v': "volume_at (apply_log l sm1) i = Some v'"
    "supersedes (v, version_of i sm1) (v', version_of i (apply_log l sm1))"
    "unat (version_of i (apply_log l sm1)) \<le> unat (version_of i sm1) + length (log_steps l)"
    by (rule log_supersedes [OF wf1 np v1(1)]) (use room v(3) v1(2) in simp_all)
  obtain w where w: "volume_at (apply_log l sm1) i = Some w" "vol_state w = VolAttached" "vol_placement_generation w = g"
    "h' = (case vol_attached_hypervisor_id w of None \<Rightarrow> [] | Some a \<Rightarrow> a)"
    "n' = version_of i (apply_log l sm1) + 1"
    using commit_accepted(1) [OF second] by (rule may_commitD)
  have eq: "w = v'" using w(1) v'(1) by simp
  have "n \<le> version_of i (apply_log l sm1)" "vol_attached_hypervisor_id w = vol_attached_hypervisor_id v"
    using v'(2) v(3) w(2,3) v1(2) by (auto simp: eq supersedes_def fences_def)
  moreover have "version_of i (apply_log l sm1) < n'"
    unfolding w(5) by (rule less_Suc_u64(1)) (use v'(3) room(2) v1(2) in simp)
  ultimately show ?thesis using v(4) w(4) by auto
qed

theorem manifest_single_writer_witness:
  "snd (apply_command sample_contexts (commits ''v1'' 1 1 ''k1'' ''h1'') (apply_log sample_log full_replica)) = Ok \<and>
   snd (apply_command sample_contexts (commits ''v1'' 1 2 ''k2'' ''h1'')
     (apply_log [] (exec_command (sample_contexts, commits ''v1'' 1 1 ''k1'' ''h1'') (apply_log sample_log full_replica)))) = Ok \<and>
   ''h1'' = ''h1'' \<and> (1 :: u64) < 2"
proof -
  have a: "snd (apply_command sample_contexts (commits ''v1'' 1 1 ''k1'' ''h1'') (apply_log sample_log full_replica)) = Ok"
    and b: "snd (apply_command sample_contexts (commits ''v1'' 1 2 ''k2'' ''h1'')
     (apply_log [] (exec_command (sample_contexts, commits ''v1'' 1 1 ''k1'' ''h1'') (apply_log sample_log full_replica)))) = Ok"
    using sample_runs by blast+
  show ?thesis using a b manifest_single_writer [OF a b] by simp
qed

section \<open>Volumes\<close>

text \<open>
  C9: In every state that a replica reaches, the volume records are consistent: a record is
  stored under its own id, an attached volume has a VM and a hypervisor, only a migrating
  volume carries migration data, only a deleted one a deletion time, and no two volumes of
  an environment have the same name.
\<close>

theorem volumes_invariant: "volumes_ok (sm_storage (apply_log l full_replica))"
  by (rule mi_volumes.log_inv [OF _ log_all]) (simp add: volumes_ok_empty)


text \<open>
  C7: After every log the redb storage tables mirror the volumes in memory: the table of
  volumes holds the same records (up to its own timestamps), and the indexes by environment
  and by hypervisor list exactly the volumes that belong there.
\<close>

theorem tables_mirror_volumes:
  "\<exists>store. sm_storage_store (apply_log l full_replica) = Some store \<and>
           store_agrees (volume_at (apply_log l full_replica)) store"
proof -
  have "synced (apply_log l full_replica)"
    by (rule mi_synced.log_inv [OF _ log_all, THEN conjunct2])
       (simp add: volumes_ok_empty synced_def store_agrees_empty)
  moreover have "sm_storage_store (apply_log l full_replica) \<noteq> None"
    by (rule mi_stored.log_inv [OF _ log_all]) simp
  ultimately show ?thesis by (auto simp: synced_def split: option.splits)
qed

section \<open>Quotas\<close>



section \<open>Garbage collection of snapshot files\<close>

text \<open>
  C6: A file (SST) that a command newly queues for garbage collection is referenced by no
  live snapshot afterwards, in every state reached by commands that do not overflow a
  64-bit reference count.
\<close>

theorem live_files_not_collected:
  fixes l :: log
  defines "sm \<equiv> apply_log l full_replica"
  assumes "log_admits gc_room l full_replica" and room: "gc_room x sm"
    and k: "k \<in> set (st_pending_gc_ssts (sm_storage (exec x sm)))" "k \<notin> set (st_pending_gc_ssts (sm_storage sm))"
  shows "live_refs (sm_storage (exec x sm)) k = 0"
proof -
  have cov: "gc_covered (sm_storage sm)"
    unfolding sm_def by (rule mi_gc.log_inv [OF _ assms(2)]) (simp add: gc_covered_def refs_covered_def live_refs_def)
  then have "refs_covered (sm_storage (exec x sm))"
    using mi_gc.step [OF _ room] by (simp add: gc_covered_def)
  moreover have "sst_count (sm_storage (exec x sm)) k = 0"
    using gc_change_pending [OF exec_gc_change [OF _ room] k] cov by (simp add: gc_covered_def)
  ultimately show ?thesis by (simp add: refs_covered_def) (metis le_zero_eq unat_0)
qed

theorem live_files_not_collected_witness:
  "live_refs (sm_storage (exec delete_s1 (apply_log gc_log full_replica))) ''f'' = 0"
  by (rule live_files_not_collected) (use sample_runs in blast)+

text \<open>
  C25: Reference counts do not leak files, as long as no snapshot is restored: when a command
  takes the last reference to a file, the file is in the queue for garbage collection.
\<close>

theorem unreferenced_files_queued:
  fixes l :: log
  defines "sm \<equiv> apply_log l full_replica"
  assumes "gc_room x sm" "\<not> restores x"
    and "sst_count (sm_storage sm) k \<noteq> 0" "sst_count (sm_storage (exec x sm)) k = 0"
  shows "k \<in> set (st_pending_gc_ssts (sm_storage (exec x sm)))"
proof -
  have wf: "hm_wf (st_snapshots (sm_storage sm))" unfolding sm_def by (rule hm_wf_snapshots_log) simp_all
  show ?thesis
    using gc_change_no_leak [OF _ assms(4,5) wf] exec_gc_change [OF wf assms(2)] assms(3) by simp
qed

theorem unreferenced_files_queued_witness:
  "''f'' \<in> set (st_pending_gc_ssts (sm_storage (exec delete_s1 (apply_log gc_log full_replica))))"
proof (rule unreferenced_files_queued)
  show "\<not> restores delete_s1" by (simp add: restores_def is_restore_def)
qed (use sample_runs in blast)+



end
