(* ===== verification/Raft_Machine.thy ===== *)
theory Raft_Machine
  imports Apply_Command
begin

text \<open>
  The state machine as the Raft library drives it: \<^verbatim>\<open>apply\<close>, \<^verbatim>\<open>build_snapshot\<close> and
  \<^verbatim>\<open>install_snapshot\<close> of \<^verbatim>\<open>layers/controlplane/src/state_machine.rs\<close>.

  Log identifiers, memberships and serialized data belong to openraft and serde; they are
  type parameters, and \<open>codec\<close> is the interface to the serializer.  A snapshot carries the
  raw content of the redb tables.  Export skips a table that is empty, and import touches
  only the tables it finds in the snapshot, so an empty table in \<open>store_tables\<close> stands for
  a table that the snapshot does not contain.  The names of the tables of the six stores
  are different.
\<close>

section \<open>State\<close>

record ('l, 'm) sm_state =
  last_applied_log :: "'l option"
  last_membership :: "'l option \<times> 'm"

record store_tables =
  ft_org :: org_store
  ft_ipam :: ipam_store
  ft_placement :: placement_store
  ft_sg_rules :: sg_rule_store
  ft_hypervisors :: hypervisor_store
  ft_storage_store :: storage_store

record ('l, 'm) full_snapshot_data =
  fs_sm_state :: "('l, 'm) sm_state"
  fs_tables :: store_tables
  fs_storage :: storage_state

record ('l, 'm) snapshot_meta =
  meta_last_log_id :: "'l option"
  meta_last_membership :: "'l option \<times> 'm"
  meta_snapshot_id :: string

record ('l, 'm, 'd) codec =
  to_vec :: "('l, 'm) full_snapshot_data \<Rightarrow> 'd"
  from_slice_full :: "'d \<Rightarrow> ('l, 'm) full_snapshot_data option"
  from_slice_legacy :: "'d \<Rightarrow> ('l, 'm) sm_state option"
  show_log_id :: "'l \<Rightarrow> string"

record ('l, 'm, 'd) raft_machine =
  rm_replica :: replica
  rm_sm_state :: "('l, 'm) sm_state"
  rm_current_snapshot :: "(('l, 'm) snapshot_meta \<times> 'd) option"
  rm_snapshot_idx :: u64
  rm_snapshot_count :: u64
  rm_entries_since_snapshot :: u64

section \<open>Applying entries\<close>

datatype (plugins only: code size) 'm entry_payload =
    Blank
  | Normal command
  | Membership 'm

record ('l, 'm) entry =
  entry_log_id :: 'l
  entry_payload :: "'m entry_payload"

definition apply_entry ::
    "contexts \<Rightarrow> ('l, 'm) entry \<Rightarrow> ('l, 'm, 'd) raft_machine \<Rightarrow> ('l, 'm, 'd) raft_machine \<times> response" where
  "apply_entry ctxs e m =
     (let m1 = m\<lparr>rm_sm_state := (rm_sm_state m)\<lparr>last_applied_log := Some (entry_log_id e)\<rparr>\<rparr>;
          (m2, resp) =
            (case entry_payload e of
               Blank \<Rightarrow> (m1, Ok)
             | Normal cmd \<Rightarrow>
                 (case apply_command ctxs cmd (rm_replica m1) of (sm, r) \<Rightarrow> (m1\<lparr>rm_replica := sm\<rparr>, r))
             | Membership mem \<Rightarrow>
                 (m1\<lparr>rm_sm_state := (rm_sm_state m1)\<lparr>last_membership := (Some (entry_log_id e), mem)\<rparr>\<rparr>, Ok))
      in (m2\<lparr>rm_entries_since_snapshot := rm_entries_since_snapshot m2 + 1\<rparr>, resp))"

fun apply_entries ::
    "(contexts \<times> ('l, 'm) entry) list \<Rightarrow> ('l, 'm, 'd) raft_machine \<Rightarrow> ('l, 'm, 'd) raft_machine \<times> response list" where
  "apply_entries [] m = (m, [])"
| "apply_entries ((ctxs, e) # es) m =
     (let (m1, r) = apply_entry ctxs e m; (m2, rs) = apply_entries es m1 in (m2, r # rs))"

section \<open>Snapshots\<close>

definition store_or :: "'a \<Rightarrow> 'a option \<Rightarrow> 'a" where
  "store_or z st = (case st of Some x \<Rightarrow> x | None \<Rightarrow> z)"

definition export_store_tables :: "replica \<Rightarrow> store_tables" where
  "export_store_tables sm =
     \<lparr>ft_org = sm_org sm, ft_ipam = store_or empty_ipam_store (sm_ipam sm),
      ft_placement = store_or empty_placement_store (sm_placement sm),
      ft_sg_rules = store_or empty_sg_rule_store (sm_sg_rules sm),
      ft_hypervisors = store_or empty_hypervisor_store (sm_hypervisors sm),
      ft_storage_store = store_or empty_storage_store (sm_storage_store sm)\<rparr>"

text \<open>Import of one table, as \<open>import_table_raw\<close> does it, on decoded documents.\<close>

definition import_table :: "(string, 'v) table \<Rightarrow> (string, 'v) table \<Rightarrow> (string, 'v) table" where
  "import_table es t =
     (if es = [] then t
      else fold (\<lambda>(k, v) t. db_set k v t) es (fold (\<lambda>k t. snd (db_delete k t)) (map fst t) t))"

definition import_org :: "org_store \<Rightarrow> org_store \<Rightarrow> org_store" where
  "import_org f s =
     \<lparr>tbl_orgs = import_table (tbl_orgs f) (tbl_orgs s),
      tbl_projects = import_table (tbl_projects f) (tbl_projects s),
      tbl_environments = import_table (tbl_environments f) (tbl_environments s),
      tbl_vpcs = import_table (tbl_vpcs f) (tbl_vpcs s),
      tbl_vpc_attachments = import_table (tbl_vpc_attachments f) (tbl_vpc_attachments s),
      tbl_subnets = import_table (tbl_subnets f) (tbl_subnets s),
      tbl_vpc_peerings = import_table (tbl_vpc_peerings f) (tbl_vpc_peerings s),
      tbl_security_groups = import_table (tbl_security_groups f) (tbl_security_groups s),
      tbl_nics = import_table (tbl_nics f) (tbl_nics s),
      tbl_route_tables = import_table (tbl_route_tables f) (tbl_route_tables s),
      tbl_routes = import_table (tbl_routes f) (tbl_routes s),
      tbl_subnet_route_assoc = import_table (tbl_subnet_route_assoc f) (tbl_subnet_route_assoc s),
      tbl_nat_gateways = import_table (tbl_nat_gateways f) (tbl_nat_gateways s),
      tbl_vni_counter = import_table (tbl_vni_counter f) (tbl_vni_counter s),
      idx_org_name = import_table (idx_org_name f) (idx_org_name s),
      idx_project_name = import_table (idx_project_name f) (idx_project_name s),
      idx_env_name = import_table (idx_env_name f) (idx_env_name s),
      idx_vpc_name = import_table (idx_vpc_name f) (idx_vpc_name s),
      idx_subnet_name = import_table (idx_subnet_name f) (idx_subnet_name s),
      idx_sg_name = import_table (idx_sg_name f) (idx_sg_name s),
      idx_nat_gw_name = import_table (idx_nat_gw_name f) (idx_nat_gw_name s),
      idx_route_table_name = import_table (idx_route_table_name f) (idx_route_table_name s)\<rparr>"

definition import_ipam :: "ipam_store \<Rightarrow> ipam_store \<Rightarrow> ipam_store" where
  "import_ipam f s =
     \<lparr>tbl_bitmaps = import_table (tbl_bitmaps f) (tbl_bitmaps s),
      tbl_allocations = import_table (tbl_allocations f) (tbl_allocations s)\<rparr>"

definition import_placements :: "placement_store \<Rightarrow> placement_store \<Rightarrow> placement_store" where
  "import_placements f s = \<lparr>tbl_placements = import_table (tbl_placements f) (tbl_placements s)\<rparr>"

definition import_sg_rules :: "sg_rule_store \<Rightarrow> sg_rule_store \<Rightarrow> sg_rule_store" where
  "import_sg_rules f s = \<lparr>tbl_sg_rules = import_table (tbl_sg_rules f) (tbl_sg_rules s)\<rparr>"

definition import_hypervisors :: "hypervisor_store \<Rightarrow> hypervisor_store \<Rightarrow> hypervisor_store" where
  "import_hypervisors f s =
     \<lparr>tbl_hypervisors = import_table (tbl_hypervisors f) (tbl_hypervisors s),
      tbl_hypervisor_names = import_table (tbl_hypervisor_names f) (tbl_hypervisor_names s)\<rparr>"

definition import_storage_store :: "storage_store \<Rightarrow> storage_store \<Rightarrow> storage_store" where
  "import_storage_store f s =
     \<lparr>tbl_volumes = import_table (tbl_volumes f) (tbl_volumes s),
      tbl_snapshots = import_table (tbl_snapshots f) (tbl_snapshots s),
      tbl_storage_config = import_table (tbl_storage_config f) (tbl_storage_config s),
      tbl_storage_quotas = import_table (tbl_storage_quotas f) (tbl_storage_quotas s),
      tbl_sst_refcounts = import_table (tbl_sst_refcounts f) (tbl_sst_refcounts s),
      tbl_manifest_pointers = import_table (tbl_manifest_pointers f) (tbl_manifest_pointers s),
      tbl_volumes_by_env = import_table (tbl_volumes_by_env f) (tbl_volumes_by_env s),
      tbl_volumes_by_hypervisor = import_table (tbl_volumes_by_hypervisor f) (tbl_volumes_by_hypervisor s)\<rparr>"

definition import_store_tables :: "store_tables \<Rightarrow> replica \<Rightarrow> replica" where
  "import_store_tables f sm =
     sm\<lparr>sm_org := import_org (ft_org f) (sm_org sm),
        sm_ipam := map_option (import_ipam (ft_ipam f)) (sm_ipam sm),
        sm_placement := map_option (import_placements (ft_placement f)) (sm_placement sm),
        sm_sg_rules := map_option (import_sg_rules (ft_sg_rules f)) (sm_sg_rules sm),
        sm_hypervisors := map_option (import_hypervisors (ft_hypervisors f)) (sm_hypervisors sm),
        sm_storage_store := map_option (import_storage_store (ft_storage_store f)) (sm_storage_store sm)\<rparr>"

definition build_snapshot ::
    "('l, 'm, 'd) codec \<Rightarrow> ('l, 'm, 'd) raft_machine \<Rightarrow> (('l, 'm) snapshot_meta \<times> 'd) \<times> ('l, 'm, 'd) raft_machine" where
  "build_snapshot J m =
     (let data = to_vec J \<lparr>fs_sm_state = rm_sm_state m, fs_tables = export_store_tables (rm_replica m),
                           fs_storage = sm_storage (rm_replica m)\<rparr>;
          idx = rm_snapshot_idx m + 1;
          snapshot_id = (case last_applied_log (rm_sm_state m) of
                           Some l \<Rightarrow> show_log_id J l @ ''-'' @ show_nat (unat idx)
                         | None \<Rightarrow> ''--'' @ show_nat (unat idx));
          meta = \<lparr>meta_last_log_id = last_applied_log (rm_sm_state m),
                  meta_last_membership = last_membership (rm_sm_state m), meta_snapshot_id = snapshot_id\<rparr>
      in ((meta, data), m\<lparr>rm_snapshot_idx := idx, rm_current_snapshot := Some (meta, data),
                          rm_snapshot_count := rm_snapshot_count m + 1, rm_entries_since_snapshot := 0\<rparr>))"

definition placement_added :: "vm_placement \<Rightarrow> placement_event" where
  "placement_added p =
     PlacementAdded (pl_vpc_id p) (pl_vm_id p) (pl_vm_mac p) (pl_vm_ip p) (pl_subnet_id p) (pl_hypervisor_id p)"

definition restored_events :: "replica \<Rightarrow> placement_event list" where
  "restored_events sm =
     (case sm_placement sm of None \<Rightarrow> [] | Some ps \<Rightarrow> map placement_added (list_all_placements ps))"

text \<open>\<^verbatim>\<open>None\<close> is the error for data of neither format.\<close>

definition install_snapshot ::
    "('l, 'm, 'd) codec \<Rightarrow> ('l, 'm) snapshot_meta \<Rightarrow> 'd \<Rightarrow> ('l, 'm, 'd) raft_machine \<Rightarrow> ('l, 'm, 'd) raft_machine option" where
  "install_snapshot J meta data m =
     map_option
       (\<lambda>m1. m1\<lparr>rm_current_snapshot := Some (meta, data), rm_entries_since_snapshot := 0\<rparr>)
       (case from_slice_full J data of
          Some full \<Rightarrow>
            let sm = import_store_tables (fs_tables full) (rm_replica m);
                sm1 = sm\<lparr>sm_events := sm_events sm @ restored_events sm, sm_storage := fs_storage full\<rparr>
            in Some (m\<lparr>rm_replica := sm1, rm_sm_state := fs_sm_state full\<rparr>)
        | None \<Rightarrow> map_option (\<lambda>st. m\<lparr>rm_sm_state := st\<rparr>) (from_slice_legacy J data))"

end
