(* ===== verification/Store_Tables.thy ===== *)
theory Store_Tables
  imports Raft_Machine Machine_Invariants
begin

text \<open>
  Every redb table of a replica stays an ordered table without duplicate keys, under every
  command.  This is what a snapshot relies on: importing an exported table reproduces it.
\<close>

section \<open>The org store\<close>

definition org_wf :: "org_store \<Rightarrow> bool" where
  "org_wf s \<longleftrightarrow>
     tbl_wf (tbl_orgs s) \<and>
     tbl_wf (tbl_projects s) \<and>
     tbl_wf (tbl_environments s) \<and>
     tbl_wf (tbl_vpcs s) \<and>
     tbl_wf (tbl_vpc_attachments s) \<and>
     tbl_wf (tbl_subnets s) \<and>
     tbl_wf (tbl_vpc_peerings s) \<and>
     tbl_wf (tbl_security_groups s) \<and>
     tbl_wf (tbl_nics s) \<and>
     tbl_wf (tbl_route_tables s) \<and>
     tbl_wf (tbl_routes s) \<and>
     tbl_wf (tbl_subnet_route_assoc s) \<and>
     tbl_wf (tbl_nat_gateways s) \<and>
     tbl_wf (tbl_vni_counter s) \<and>
     tbl_wf (idx_org_name s) \<and>
     tbl_wf (idx_project_name s) \<and>
     tbl_wf (idx_env_name s) \<and>
     tbl_wf (idx_vpc_name s) \<and>
     tbl_wf (idx_subnet_name s) \<and>
     tbl_wf (idx_sg_name s) \<and>
     tbl_wf (idx_nat_gw_name s) \<and>
     tbl_wf (idx_route_table_name s)"

lemma org_wf_sel [simp]:
  "org_wf s \<Longrightarrow> tbl_wf (tbl_orgs s)"
  "org_wf s \<Longrightarrow> tbl_wf (tbl_projects s)"
  "org_wf s \<Longrightarrow> tbl_wf (tbl_environments s)"
  "org_wf s \<Longrightarrow> tbl_wf (tbl_vpcs s)"
  "org_wf s \<Longrightarrow> tbl_wf (tbl_vpc_attachments s)"
  "org_wf s \<Longrightarrow> tbl_wf (tbl_subnets s)"
  "org_wf s \<Longrightarrow> tbl_wf (tbl_vpc_peerings s)"
  "org_wf s \<Longrightarrow> tbl_wf (tbl_security_groups s)"
  "org_wf s \<Longrightarrow> tbl_wf (tbl_nics s)"
  "org_wf s \<Longrightarrow> tbl_wf (tbl_route_tables s)"
  "org_wf s \<Longrightarrow> tbl_wf (tbl_routes s)"
  "org_wf s \<Longrightarrow> tbl_wf (tbl_subnet_route_assoc s)"
  "org_wf s \<Longrightarrow> tbl_wf (tbl_nat_gateways s)"
  "org_wf s \<Longrightarrow> tbl_wf (tbl_vni_counter s)"
  "org_wf s \<Longrightarrow> tbl_wf (idx_org_name s)"
  "org_wf s \<Longrightarrow> tbl_wf (idx_project_name s)"
  "org_wf s \<Longrightarrow> tbl_wf (idx_env_name s)"
  "org_wf s \<Longrightarrow> tbl_wf (idx_vpc_name s)"
  "org_wf s \<Longrightarrow> tbl_wf (idx_subnet_name s)"
  "org_wf s \<Longrightarrow> tbl_wf (idx_sg_name s)"
  "org_wf s \<Longrightarrow> tbl_wf (idx_nat_gw_name s)"
  "org_wf s \<Longrightarrow> tbl_wf (idx_route_table_name s)"
  unfolding org_wf_def by (elim conjE, assumption)+

lemma org_wf_update [simp]:
  "\<lbrakk>org_wf s; tbl_wf t0\<rbrakk> \<Longrightarrow> org_wf (s\<lparr>tbl_orgs := t0\<rparr>)"
  "\<lbrakk>org_wf s; tbl_wf t1\<rbrakk> \<Longrightarrow> org_wf (s\<lparr>tbl_projects := t1\<rparr>)"
  "\<lbrakk>org_wf s; tbl_wf t2\<rbrakk> \<Longrightarrow> org_wf (s\<lparr>tbl_environments := t2\<rparr>)"
  "\<lbrakk>org_wf s; tbl_wf t3\<rbrakk> \<Longrightarrow> org_wf (s\<lparr>tbl_vpcs := t3\<rparr>)"
  "\<lbrakk>org_wf s; tbl_wf t4\<rbrakk> \<Longrightarrow> org_wf (s\<lparr>tbl_vpc_attachments := t4\<rparr>)"
  "\<lbrakk>org_wf s; tbl_wf t5\<rbrakk> \<Longrightarrow> org_wf (s\<lparr>tbl_subnets := t5\<rparr>)"
  "\<lbrakk>org_wf s; tbl_wf t6\<rbrakk> \<Longrightarrow> org_wf (s\<lparr>tbl_vpc_peerings := t6\<rparr>)"
  "\<lbrakk>org_wf s; tbl_wf t7\<rbrakk> \<Longrightarrow> org_wf (s\<lparr>tbl_security_groups := t7\<rparr>)"
  "\<lbrakk>org_wf s; tbl_wf t8\<rbrakk> \<Longrightarrow> org_wf (s\<lparr>tbl_nics := t8\<rparr>)"
  "\<lbrakk>org_wf s; tbl_wf t9\<rbrakk> \<Longrightarrow> org_wf (s\<lparr>tbl_route_tables := t9\<rparr>)"
  "\<lbrakk>org_wf s; tbl_wf t10\<rbrakk> \<Longrightarrow> org_wf (s\<lparr>tbl_routes := t10\<rparr>)"
  "\<lbrakk>org_wf s; tbl_wf t11\<rbrakk> \<Longrightarrow> org_wf (s\<lparr>tbl_subnet_route_assoc := t11\<rparr>)"
  "\<lbrakk>org_wf s; tbl_wf t12\<rbrakk> \<Longrightarrow> org_wf (s\<lparr>tbl_nat_gateways := t12\<rparr>)"
  "\<lbrakk>org_wf s; tbl_wf t13\<rbrakk> \<Longrightarrow> org_wf (s\<lparr>tbl_vni_counter := t13\<rparr>)"
  "\<lbrakk>org_wf s; tbl_wf t14\<rbrakk> \<Longrightarrow> org_wf (s\<lparr>idx_org_name := t14\<rparr>)"
  "\<lbrakk>org_wf s; tbl_wf t15\<rbrakk> \<Longrightarrow> org_wf (s\<lparr>idx_project_name := t15\<rparr>)"
  "\<lbrakk>org_wf s; tbl_wf t16\<rbrakk> \<Longrightarrow> org_wf (s\<lparr>idx_env_name := t16\<rparr>)"
  "\<lbrakk>org_wf s; tbl_wf t17\<rbrakk> \<Longrightarrow> org_wf (s\<lparr>idx_vpc_name := t17\<rparr>)"
  "\<lbrakk>org_wf s; tbl_wf t18\<rbrakk> \<Longrightarrow> org_wf (s\<lparr>idx_subnet_name := t18\<rparr>)"
  "\<lbrakk>org_wf s; tbl_wf t19\<rbrakk> \<Longrightarrow> org_wf (s\<lparr>idx_sg_name := t19\<rparr>)"
  "\<lbrakk>org_wf s; tbl_wf t20\<rbrakk> \<Longrightarrow> org_wf (s\<lparr>idx_nat_gw_name := t20\<rparr>)"
  "\<lbrakk>org_wf s; tbl_wf t21\<rbrakk> \<Longrightarrow> org_wf (s\<lparr>idx_route_table_name := t21\<rparr>)"
  by (cases s; simp only: org_wf_def org_store.simps simp_thms)+

lemma org_wf_empty: "org_wf empty_org_store"
  by (simp add: org_wf_def empty_org_store_def)

lemma wf_org_get: "org_wf s \<Longrightarrow> org_wf (snd (org_get c n s))"
  by (simp add: org_get_def Let_def split: option.split)

lemma wf_resolve_org_id: "org_wf s \<Longrightarrow> org_wf (snd (resolve_org_id c n s))"
  using wf_org_get [of s c n]
  by (simp add: resolve_org_id_def case_prod_unfold split: option.split)

lemma wf_get_project: "org_wf s \<Longrightarrow> org_wf (snd (get_project c o' n s))"
  using wf_org_get [of s c o']
  by (simp add: get_project_def Let_def case_prod_unfold split: option.split)

lemma wf_get_env: "org_wf s \<Longrightarrow> org_wf (snd (get_env c o' p n s))"
  using wf_get_project [of s c o' p]
  by (simp add: get_env_def Let_def case_prod_unfold split: option.split)

lemma wf_check_owner: "org_wf s \<Longrightarrow> org_wf (snd (check_owner c w s))"
  by (simp add: check_owner_def case_prod_unfold wf_org_get wf_get_project split: vpc_owner.split option.split)

lemma wf_existing_cidrs: "org_wf s \<Longrightarrow> org_wf (snd (existing_cidrs_for_org c w s))"
  by (simp add: existing_cidrs_for_org_def resolve_owner_org_id_def case_prod_unfold wf_resolve_org_id
      split: vpc_owner.split option.split sum.split)

lemmas wf_lookups = wf_org_get wf_resolve_org_id wf_get_project wf_get_env wf_check_owner wf_existing_cidrs

lemma wf_org_ops:
  assumes "org_wf s"
  shows "org_wf (snd (org_create c n s))"
    "org_wf (snd (org_delete c n s))"
    "org_wf (snd (create_project c o' n s))"
    "org_wf (snd (delete_project c o' n s))"
    "org_wf (snd (create_env c o' p n ttl dp l s))"
    "org_wf (snd (delete_env c o' p n s))"
    "org_wf (snd (extend_env c o' p n t s))"
    "org_wf (snd (update_env_protection c o' p n dp s))"
  using assms
  by (simp_all add: org_create_def org_delete_def create_project_def delete_project_def create_env_def
      delete_env_def extend_env_def update_env_protection_def wf_lookups Let_def case_prod_unfold
      split: option.split sum.split)

lemma wf_insert_vpc: "org_wf s \<Longrightarrow> org_wf (snd (insert_vpc c n cidr w sh s))"
  by (simp add: insert_vpc_def next_vni_def atomic_next_counter_def create_default_route_table_def
      add_system_route_def create_default_sg_def Let_def)

lemma wf_create_vpc: "org_wf s \<Longrightarrow> org_wf (snd (create_vpc c n cidr w sh s))"
  by (simp add: create_vpc_def Let_def case_prod_unfold wf_check_owner wf_existing_cidrs wf_insert_vpc
      split: sum.split option.split)

lemma wf_create_subnet: "org_wf s \<Longrightarrow> org_wf (snd (create_subnet c v e n cidr s))"
  by (simp add: create_subnet_def insert_subnet_def add_system_route_def Let_def case_prod_unfold
      split: sum.split option.split)

lemma wf_delete_subnet: "org_wf s \<Longrightarrow> org_wf (snd (delete_subnet v n s))"
  by (simp add: delete_subnet_def remove_route_force_def disassociate_subnet_route_table_def Let_def
      split: option.split)

lemma wf_vpc_ops:
  assumes "org_wf s"
  shows "org_wf (snd (delete_vpc n s))"
    "org_wf (snd (attach_vpc c n p s))"
    "org_wf (snd (detach_vpc n p s))"
    "org_wf (snd (create_peering c a b s))"
    "org_wf (snd (delete_peering a b s))"
  using assms
  by (simp_all add: delete_vpc_def attach_vpc_def detach_vpc_def create_peering_def delete_peering_def Let_def
      case_prod_unfold split: option.split)

lemma wf_fold_delete: "tbl_wf t \<Longrightarrow> tbl_wf (fold (\<lambda>r t. snd (db_delete (f r) t)) rs t)"
  by (induction rs arbitrary: t) simp_all

lemma wf_resource_ops:
  assumes "org_wf s"
  shows "org_wf (snd (create_security_group c n v d s))"
    "org_wf (snd (delete_security_group n vo s))"
    "org_wf (snd (create_nat_gw c n v x ip s))"
    "org_wf (snd (delete_nat_gw v n s))"
    "org_wf (snd (create_route_table_by_vpc_name c n v s))"
    "org_wf (snd (delete_route_table v n s))"
    "org_wf (associate_subnet_route_table x t s)"
    "org_wf (disassociate_subnet_route_table x s)"
    "org_wf (snd (add_route c t d g p s))"
    "org_wf (snd (remove_route t d s))"
    "org_wf (snd (create_nic nic s))"
    "org_wf (snd (delete_nic i s))"
    "org_wf (snd (attach_sg_to_nic sg i s))"
    "org_wf (snd (detach_sg_from_nic sg i s))"
  using assms
  by (simp_all add: create_security_group_def create_sg_def delete_security_group_def delete_sg_def
      create_nat_gw_def delete_nat_gw_def create_route_table_by_vpc_name_def create_route_table_def
      delete_route_table_def associate_subnet_route_table_def wf_fold_delete
      disassociate_subnet_route_table_def add_route_def remove_route_def create_nic_def delete_nic_def
      attach_sg_to_nic_def detach_sg_from_nic_def Let_def case_prod_unfold
      split: option.split sum.split route_origin.split)

section \<open>The other stores\<close>

definition ipam_wf :: "ipam_store \<Rightarrow> bool" where
  "ipam_wf s \<longleftrightarrow> tbl_wf (tbl_bitmaps s) \<and> tbl_wf (tbl_allocations s)"

definition placement_wf :: "placement_store \<Rightarrow> bool" where
  "placement_wf s \<longleftrightarrow> tbl_wf (tbl_placements s)"

definition rules_wf :: "sg_rule_store \<Rightarrow> bool" where
  "rules_wf s \<longleftrightarrow> tbl_wf (tbl_sg_rules s)"

definition hv_wf :: "hypervisor_store \<Rightarrow> bool" where
  "hv_wf s \<longleftrightarrow> tbl_wf (tbl_hypervisors s) \<and> tbl_wf (tbl_hypervisor_names s)"

definition sstore_wf :: "storage_store \<Rightarrow> bool" where
  "sstore_wf s \<longleftrightarrow>
     tbl_wf (tbl_volumes s) \<and>
     tbl_wf (tbl_snapshots s) \<and>
     tbl_wf (tbl_storage_config s) \<and>
     tbl_wf (tbl_storage_quotas s) \<and>
     tbl_wf (tbl_sst_refcounts s) \<and>
     tbl_wf (tbl_manifest_pointers s) \<and>
     tbl_wf (tbl_volumes_by_env s) \<and>
     tbl_wf (tbl_volumes_by_hypervisor s)"

lemma wf_ipam_ops:
  "\<lbrakk>ipam_wf s; reserve_ip c sid cidr s = Inr (a, s')\<rbrakk> \<Longrightarrow> ipam_wf s'"
  "\<lbrakk>ipam_wf s; release_ip lib sid cidr ip s = Inr s'\<rbrakk> \<Longrightarrow> ipam_wf s'"
  by (auto simp: ipam_wf_def reserve_ip_def reserve_ip_at_def release_ip_def Let_def
      split: sum.splits option.splits if_splits prod.splits)

lemma wf_idx_ops [simp]:
  "tbl_wf ix \<Longrightarrow> tbl_wf (idx_add k v ix)" "tbl_wf ix \<Longrightarrow> tbl_wf (idx_remove k v ix)"
  by (simp_all add: idx_add_def idx_remove_def Let_def)

lemma wf_sync_volume: "sstore_wf s \<Longrightarrow> sstore_wf (sync_volume c v s)"
  by (auto simp: sstore_wf_def sync_volume_def update_volume_def create_volume_def add_to_env_index_def
      add_to_hypervisor_index_def remove_from_hypervisor_index_def Let_def split: option.split)

lemma wf_sync_delete: "sstore_wf s \<Longrightarrow> sstore_wf (sync_volume_delete i s)"
  by (auto simp: sstore_wf_def sync_volume_delete_def delete_volume_def remove_from_env_index_def
      remove_from_hypervisor_index_def Let_def split: option.split)

lemma wf_settings:
  "sstore_wf s \<Longrightarrow> sstore_wf (set_storage_config z cfg s)"
  "sstore_wf s \<Longrightarrow> sstore_wf (set_storage_quota k q s)"
  by (simp_all add: sstore_wf_def set_storage_config_def set_storage_quota_def)

lemma wf_hv_ops:
  "\<lbrakk>hv_wf s; hypervisor_create hv s = Inr s'\<rbrakk> \<Longrightarrow> hv_wf s'"
  "\<lbrakk>hv_wf s; hypervisor_update hv s = Inr s'\<rbrakk> \<Longrightarrow> hv_wf s'"
  "\<lbrakk>hv_wf s; hypervisor_update_state n st s = Inr s'\<rbrakk> \<Longrightarrow> hv_wf s'"
  by (auto simp: hv_wf_def hypervisor_create_def hypervisor_update_def hypervisor_update_state_def
      split: if_splits option.splits sum.splits)

lemma wf_placement_ops:
  "placement_wf s \<Longrightarrow> placement_wf (add_placement p s)"
  "\<lbrakk>placement_wf s; remove_placement v m s = Inr s'\<rbrakk> \<Longrightarrow> placement_wf s'"
  by (auto simp: placement_wf_def add_placement_def remove_placement_def case_prod_unfold split: if_splits)

lemma wf_rule_ops:
  "\<lbrakk>rules_wf s; add_rule r s = Inr s'\<rbrakk> \<Longrightarrow> rules_wf s'"
  "\<lbrakk>rules_wf s; remove_rule i s = Inr s'\<rbrakk> \<Longrightarrow> rules_wf s'"
  by (auto simp: rules_wf_def add_rule_def remove_rule_def case_prod_unfold split: if_splits sum.splits)

section \<open>The replica\<close>

definition tables_wf :: "replica \<Rightarrow> bool" where
  "tables_wf sm \<longleftrightarrow>
     org_wf (sm_org sm) \<and> pred_option ipam_wf (sm_ipam sm) \<and> pred_option placement_wf (sm_placement sm) \<and>
     pred_option rules_wf (sm_sg_rules sm) \<and> pred_option hv_wf (sm_hypervisors sm) \<and>
     pred_option sstore_wf (sm_storage_store sm)"

lemma answer_org_part: "sm_org (fst (answer f r sm)) = snd r"
  by (simp add: answer_def split: prod.split sum.split)

lemma wf_ensure_default_vpc: "org_wf s \<Longrightarrow> org_wf (snd (ensure_default_vpc c v s))"
  using wf_create_vpc [of s c v]
  by (simp add: ensure_default_vpc_def case_prod_unfold split: option.split sum.split)

lemma wf_apply_org:
  assumes "org_wf (sm_org sm)"
  shows "org_wf (sm_org (fst (apply_org c cmd sm)))"
proof (cases cmd)
  case (CreateSubnet n v e cidr)
  obtain r t where r: "ensure_default_vpc c v (sm_org sm) = (r, t)" by (cases "ensure_default_vpc c v (sm_org sm)")
  then have "org_wf t" using wf_ensure_default_vpc [OF assms, of c v] by simp
  then show ?thesis
    by (simp add: CreateSubnet apply_CreateSubnet_def r answer_org_part wf_create_subnet split: sum.split)
qed (use assms in \<open>simp_all add: apply_UpdateEnv_def answer_org_part wf_org_ops wf_create_vpc wf_vpc_ops
       wf_delete_subnet split: option.split\<close>)

lemma wf_apply_network:
  assumes "org_wf (sm_org sm)" "pred_option ipam_wf (sm_ipam sm)" "pred_option rules_wf (sm_sg_rules sm)"
  shows "org_wf (sm_org (fst (apply_network c cmd sm)))"
    and "pred_option ipam_wf (sm_ipam (fst (apply_network c cmd sm)))"
    and "pred_option rules_wf (sm_sg_rules (fst (apply_network c cmd sm)))"
proof -
  have nic: "org_wf (sm_org (fst (apply_CreateNic c vm sid ip mac sm)))" for vm sid ip mac
    using assms(1) by (simp add: apply_CreateNic_def create_nic_def Let_def split: option.split)
  have rtb: "org_wf (snd (delete_route_table_by_vpc_name v n (sm_org sm)))" for v n
    using assms(1) by (simp add: delete_route_table_by_vpc_name_def wf_resource_ops split: option.split)
  show "org_wf (sm_org (fst (apply_network c cmd sm)))"
    using assms(1)
    by (cases cmd) (simp_all add: network_handler_defs nic rtb Let_def answer_org_part wf_resource_ops split: handler_splits)
  show "pred_option ipam_wf (sm_ipam (fst (apply_network c cmd sm)))"
    using assms(2)
    by (cases cmd) (auto simp: network_handler_defs Let_def split: handler_splits dest: wf_ipam_ops)
  show "pred_option rules_wf (sm_sg_rules (fst (apply_network c cmd sm)))"
    using assms(3)
    by (cases cmd) (auto simp: network_handler_defs Let_def split: handler_splits dest: wf_rule_ops)
qed

lemma wf_apply_hypervisor:
  assumes "pred_option hv_wf (sm_hypervisors sm)"
  shows "pred_option hv_wf (sm_hypervisors (fst (apply_hypervisor c cmd sm)))"
  using assms
  by (cases cmd) (auto simp: hypervisor_handler_defs Let_def split: option.splits sum.splits dest: wf_hv_ops)

lemma wf_commit_volume:
  "pred_option sstore_wf (sm_storage_store sm) \<Longrightarrow> pred_option sstore_wf (sm_storage_store (commit_volume c i v sm))"
  by (cases "sm_storage_store sm") (simp_all add: commit_volume_def sync_volume_to_store_def wf_sync_volume)

lemma wf_apply_storage:
  assumes "pred_option sstore_wf (sm_storage_store sm)"
  shows "pred_option sstore_wf (sm_storage_store (fst (apply_storage c cmd sm)))"
proof -
  have purge: "pred_option sstore_wf (sm_storage_store (fold sync_volume_delete_from_store ids sm))"
    if "pred_option sstore_wf (sm_storage_store sm)" for ids and sm :: "'a storage_sm_scheme"
    using that
    by (induction ids arbitrary: sm)
       (auto simp: sync_volume_delete_from_store_def wf_sync_delete split: option.splits)
  show ?thesis
    using assms
    by (cases cmd)
       (auto simp: handler_defs Let_def purge sync_quota_to_store_def sync_storage_config_to_store_def wf_settings
         split: option.splits sum.splits intro!: wf_commit_volume)
qed

lemma wf_apply_vm:
  "pred_option placement_wf (sm_placement sm) \<Longrightarrow> pred_option placement_wf (sm_placement (fst (apply_vm c cmd sm)))"
  by (cases cmd)
     (auto simp: vm_handler_defs apply_RescheduleVm_def Let_def wf_placement_ops
       split: option.splits sum.splits dest: wf_placement_ops)

lemma wf_move: "pred_option sstore_wf (sm_storage_store sm) \<Longrightarrow> pred_option sstore_wf (sm_storage_store (move_volume c b i sm))"
  by (simp add: move_volume_def wf_commit_volume split: option.split)

lemma wf_apply_vm_storage:
  assumes "pred_option sstore_wf (sm_storage_store sm)"
  shows "pred_option sstore_wf (sm_storage_store (fst (apply_vm c cmd sm)))"
proof (cases "reschedules cmd")
  case True
  have "pred_option sstore_wf (sm_storage_store (fold (move_volume c b) ids s))"
    if "pred_option sstore_wf (sm_storage_store s)" for b ids and s :: replica
    using that by (induction ids arbitrary: s) (simp_all add: wf_move)
  with True assms show ?thesis
    by (cases cmd) (simp_all add: reschedules_def apply_RescheduleVm_def placement_missing_def Let_def split: option.split)
qed (simp add: vm_storage(2) assms)

interpretation mi_tables: machine_invariant tables_wf "\<lambda>_ _. True"
proof
  show "tables_wf (exec x sm)" if "tables_wf sm" for x sm
    using that wf_apply_network [of sm]
    by (cases "snd x")
       (simp_all add: tables_wf_def wf_apply_org wf_apply_hypervisor wf_apply_vm wf_apply_vm_storage wf_apply_storage)
qed

section \<open>Snapshots\<close>

lemma import_table_wf: "tbl_wf es \<Longrightarrow> import_table es t = (if es = [] then t else es)"
  by (simp add: import_table_def fold_set_entries)

lemma import_into_empty: "tbl_wf es \<Longrightarrow> import_table es [] = es"
  by (simp add: import_table_wf)

text \<open>A replica that has just been created, with every store configured.\<close>

definition fresh_replica :: "replica \<Rightarrow> bool" where
  "fresh_replica sm \<longleftrightarrow>
     sm_org sm = empty_org_store \<and> sm_ipam sm = Some empty_ipam_store \<and>
     sm_placement sm = Some empty_placement_store \<and> sm_sg_rules sm = Some empty_sg_rule_store \<and>
     sm_hypervisors sm = Some empty_hypervisor_store \<and> sm_storage_store sm = Some empty_storage_store"

definition all_stores :: "replica \<Rightarrow> bool" where
  "all_stores sm \<longleftrightarrow>
     sm_ipam sm \<noteq> None \<and> sm_placement sm \<noteq> None \<and> sm_sg_rules sm \<noteq> None \<and>
     sm_hypervisors sm \<noteq> None \<and> sm_storage_store sm \<noteq> None"

definition same_tables :: "replica \<Rightarrow> replica \<Rightarrow> bool" where
  "same_tables sm sm' \<longleftrightarrow>
     sm_org sm' = sm_org sm \<and> sm_ipam sm' = sm_ipam sm \<and> sm_placement sm' = sm_placement sm \<and>
     sm_sg_rules sm' = sm_sg_rules sm \<and> sm_hypervisors sm' = sm_hypervisors sm \<and>
     sm_storage_store sm' = sm_storage_store sm"

lemma import_fresh_org: "org_wf s \<Longrightarrow> import_org s empty_org_store = s"
  by (simp add: import_org_def empty_org_store_def import_into_empty)

lemma import_fresh_stores:
  "ipam_wf i \<Longrightarrow> import_ipam i empty_ipam_store = i"
  "placement_wf p \<Longrightarrow> import_placements p empty_placement_store = p"
  "rules_wf r \<Longrightarrow> import_sg_rules r empty_sg_rule_store = r"
  "hv_wf h \<Longrightarrow> import_hypervisors h empty_hypervisor_store = h"
  "sstore_wf t \<Longrightarrow> import_storage_store t empty_storage_store = t"
  by (simp_all add: import_ipam_def empty_ipam_store_def ipam_wf_def import_placements_def
      empty_placement_store_def placement_wf_def import_sg_rules_def empty_sg_rule_store_def rules_wf_def
      import_hypervisors_def empty_hypervisor_store_def hv_wf_def import_storage_store_def
      empty_storage_store_def sstore_wf_def import_into_empty)

lemma import_fresh:
  assumes "tables_wf sm" "all_stores sm" "fresh_replica sm'"
  shows "same_tables sm (import_store_tables (export_store_tables sm) sm')"
  using assms
  by (auto simp: same_tables_def import_store_tables_def export_store_tables_def fresh_replica_def all_stores_def
      tables_wf_def store_or_def import_fresh_org import_fresh_stores)

text \<open>
  JSON keeps the content of a hash map, not the order of its entries.
\<close>

definition same_storage :: "storage_state \<Rightarrow> storage_state \<Rightarrow> bool" where
  "same_storage st st' \<longleftrightarrow>
     hget (st_quotas st') = hget (st_quotas st) \<and> hget (st_volumes st') = hget (st_volumes st) \<and>
     hget (st_snapshots st') = hget (st_snapshots st) \<and>
     hget (st_sst_refcounts st') = hget (st_sst_refcounts st) \<and>
     hget (st_storage_configs st') = hget (st_storage_configs st) \<and>
     hget (st_manifest_pointers st') = hget (st_manifest_pointers st) \<and>
     st_pending_gc_ssts st' = st_pending_gc_ssts st \<and>
     st_restores_in_progress st' = st_restores_in_progress st \<and>
     st_min_wal_position st' = st_min_wal_position st \<and>
     hget (st_vm_records st') = hget (st_vm_records st)"

definition codec_ok :: "('l, 'm, 'd) codec \<Rightarrow> bool" where
  "codec_ok J \<longleftrightarrow>
     (\<forall>x. \<exists>y. from_slice_full J (to_vec J x) = Some y \<and> fs_sm_state y = fs_sm_state x \<and>
           fs_tables y = fs_tables x \<and> same_storage (fs_storage x) (fs_storage y))"

lemma install_built:
  assumes J: "codec_ok J" and b: "build_snapshot J m = ((meta, data), m1)"
  obtains m' st where "install_snapshot J meta data n = Some m'"
    "rm_sm_state m' = rm_sm_state m" "same_storage (sm_storage (rm_replica m)) st"
    "rm_replica m' = (let sm = import_store_tables (export_store_tables (rm_replica m)) (rm_replica n)
       in sm\<lparr>sm_events := sm_events sm @ restored_events sm, sm_storage := st\<rparr>)"
    "rm_current_snapshot m' = Some (meta, data)" "rm_entries_since_snapshot m' = 0"
proof -
  let ?x = "\<lparr>fs_sm_state = rm_sm_state m, fs_tables = export_store_tables (rm_replica m),
             fs_storage = sm_storage (rm_replica m)\<rparr>"
  have d: "data = to_vec J ?x" using b by (simp add: build_snapshot_def Let_def)
  obtain y where y: "from_slice_full J data = Some y" "fs_sm_state y = rm_sm_state m"
    "fs_tables y = export_store_tables (rm_replica m)" "same_storage (sm_storage (rm_replica m)) (fs_storage y)"
    using J unfolding codec_ok_def d by (metis full_snapshot_data.select_convs)
  let ?sm = "import_store_tables (export_store_tables (rm_replica m)) (rm_replica n)"
  show thesis
    by (rule that [OF _ _ y(4), where m' = "n\<lparr>rm_replica := ?sm\<lparr>sm_events := sm_events ?sm @ restored_events ?sm,
          sm_storage := fs_storage y\<rparr>, rm_sm_state := rm_sm_state m, rm_current_snapshot := Some (meta, data),
          rm_entries_since_snapshot := 0\<rparr>"])
       (use y in \<open>simp_all add: install_snapshot_def Let_def\<close>)
qed

end
