(* ===== verification/Replica_Properties.thy ===== *)
theory Replica_Properties
  imports Machine_Properties Store_Tables
begin

text \<open>
  Properties of the replica as a whole: composite commands, agreement of replicas, the
  hypervisor records, the entries that the Raft library applies and the snapshots it moves
  between nodes.
\<close>

section \<open>Composite commands and agreement of replicas\<close>


lemma map_snd_leaves:
  "map snd (leaves ctxs cmd) = map snd (leaves ctxs' cmd)"
  "map snd (leaves_all ctxs k cmds) = map snd (leaves_all ctxs' k cmds)"
  by (induction ctxs cmd and ctxs k cmds arbitrary: ctxs' and ctxs' rule: leaves_leaves_all.induct)
     (simp_all, metis)

abbreviation is_storage :: "step \<Rightarrow> bool" where
  "is_storage x \<equiv> (case snd x of StorageCommand _ \<Rightarrow> True | _ \<Rightarrow> False)"

lemma run_storage_agrees:
  assumes "map snd xs = map snd ys" "list_all is_storage xs" "sm_storage sm = sm_storage sm'"
  shows "sm_storage (fst (run xs sm)) = sm_storage (fst (run ys sm'))" "snd (run xs sm) = snd (run ys sm')"
proof -
  have "sm_storage (fst (run xs sm)) = sm_storage (fst (run ys sm')) \<and> snd (run xs sm) = snd (run ys sm')"
    using assms
  proof (induction xs arbitrary: ys sm sm')
    case (Cons x xs)
    then obtain y ys' where ys: "ys = y # ys'" "snd y = snd x" "map snd xs = map snd ys'" by auto
    obtain cmd where cmd: "snd x = StorageCommand cmd" using Cons.prems(2) by (auto split: basic_command.splits)
    note d = storage_deterministic [OF Cons.prems(3), where cmd = cmd and c = "fst x" and c' = "fst y"]
    show ?case
      using Cons.IH [OF ys(3) _ d(1)] Cons.prems(2) d by (simp add: ys(1,2) cmd Let_def case_prod_unfold)
  qed simp
  then show "sm_storage (fst (run xs sm)) = sm_storage (fst (run ys sm'))" "snd (run xs sm) = snd (run ys sm')"
    by blast+
qed



text \<open>
  The organization commands are different: they draw the identifier of the new record on
  each replica, so two replicas that apply the same command store different records.
\<close>

theorem org_replicas_diverge:
  "sm_org (exec (sample_ctx\<lparr>ctx_hex := (\<lambda>_. ''1'')\<rparr>, OrgCommand (CreateOrg ''acme'')) full_replica) \<noteq>
   sm_org (exec (sample_ctx\<lparr>ctx_hex := (\<lambda>_. ''2'')\<rparr>, OrgCommand (CreateOrg ''acme'')) full_replica)"
  by code_simp

section \<open>Hypervisors\<close>

text \<open>
  C33: A decommissioned hypervisor stays decommissioned, whatever commands follow; in
  particular it can not be enabled again, and registering its name again does not revive it.
\<close>

theorem decommission_is_final:
  fixes l0 l :: log
  defines "sm \<equiv> apply_log l0 full_replica"
  assumes "sm_hypervisors sm = Some s" "hypervisor_get_by_id i s = Some hv" "hv_state hv = HvDecommissioned"
  shows "\<exists>s' hv'. sm_hypervisors (apply_log l sm) = Some s' \<and>
           hypervisor_get_by_id i s' = Some hv' \<and> hv_state hv' = HvDecommissioned"
proof -
  have "pred_option hv_store_ok (sm_hypervisors sm)"
    unfolding sm_def by (rule mi_hypervisors.log_inv [OF _ log_all]) (simp add: hv_store_ok_empty)
  then have "decommissioned i sm" using assms(2-4) by (simp add: decommissioned_def)
  then have "decommissioned i (apply_log l sm)" by (rule mi_decommissioned.log_inv [OF _ log_all])
  then show ?thesis by (auto simp: decommissioned_def split: option.splits)
qed

definition sample_config :: storage_config where
  "sample_config =
     \<lparr>cfg_s3_endpoint = ''https://s3'', cfg_s3_bucket = ''b'', cfg_s3_access_key = ''a'', cfg_s3_secret_key = ''s'',
      cfg_cache_disk_path = [], cfg_cache_disk_size_gb = 0, cfg_cache_memory_size_gb = 0\<rparr>"

definition decommission_log :: log where
  "decommission_log = basic_log
     [StorageCommand (SetStorageConfig ''r'' ''z'' sample_config),
      HypervisorCommand (RegisterHypervisor ''h1'' ''r'' ''z'' []), HypervisorCommand (EnableHypervisor ''h1''),
      HypervisorCommand (DecommissionHypervisor ''h1'')]"

definition revive_log :: log where
  "revive_log = basic_log
     [HypervisorCommand (EnableHypervisor ''h1''), HypervisorCommand (RegisterHypervisor ''h1'' ''r'' ''z'' [])]"

theorem decommission_is_final_witness:
  "\<exists>s hv. sm_hypervisors (apply_log revive_log (apply_log decommission_log full_replica)) = Some s \<and>
     hypervisor_get_by_id (generate_hypervisor_id sample_ctx) s = Some hv \<and> hv_state hv = HvDecommissioned"
proof -
  have "case sm_hypervisors (apply_log decommission_log full_replica) of
      None \<Rightarrow> False
    | Some s \<Rightarrow> (case hypervisor_get_by_id (generate_hypervisor_id sample_ctx) s of
        None \<Rightarrow> False | Some hv \<Rightarrow> hv_state hv = HvDecommissioned)"
    by code_simp
  then obtain s hv where "sm_hypervisors (apply_log decommission_log full_replica) = Some s"
    "hypervisor_get_by_id (generate_hypervisor_id sample_ctx) s = Some hv" "hv_state hv = HvDecommissioned"
    by (auto split: option.splits)
  then show ?thesis by (rule decommission_is_final)
qed

text \<open>
  C34: The name index of the hypervisors is exact after every log: every record is stored
  under its id and its name leads to that id, and every name in the index leads to a record
  of that name.
\<close>

theorem hypervisor_names_indexed:
  "pred_option hv_store_ok (sm_hypervisors (apply_log l full_replica))"
  by (rule mi_hypervisors.log_inv [OF _ log_all]) (simp add: hv_store_ok_empty)

section \<open>Entries and snapshots\<close>

lemma tables_wf_log: "tables_wf (apply_log l full_replica)"
  by (rule mi_tables.log_inv [OF _ log_all])
     (simp add: tables_wf_def org_wf_empty ipam_wf_def placement_wf_def rules_wf_def hv_wf_def sstore_wf_def
       empty_ipam_store_def empty_placement_store_def empty_sg_rule_store_def empty_hypervisor_store_def
       empty_storage_store_def)

lemma network_stores_kept:
  "sm_ipam (fst (apply_network c cmd sm)) = None \<longleftrightarrow> sm_ipam sm = None"
  "sm_sg_rules (fst (apply_network c cmd sm)) = None \<longleftrightarrow> sm_sg_rules sm = None"
  by (cases cmd; simp add: network_handler_defs Let_def split: handler_splits)+

lemma vm_placement_kept: "sm_placement (fst (apply_vm c cmd sm)) = None \<longleftrightarrow> sm_placement sm = None"
  by (cases cmd) (simp_all add: vm_handler_defs apply_RescheduleVm_def Let_def split: handler_splits)

interpretation mi_all_stores: machine_invariant all_stores "\<lambda>_ _. True"
proof
  show "all_stores (exec x sm)" if "all_stores sm" for x sm
  proof -
    have "sm_hypervisors (exec x sm) \<noteq> None"
      using that exec_hypervisors [of sm _ x] by (auto simp: all_stores_def)
    moreover have "sm_ipam (exec x sm) \<noteq> None" "sm_sg_rules (exec x sm) \<noteq> None" "sm_placement (exec x sm) \<noteq> None"
      using that
      by (cases "snd x"; simp add: all_stores_def network_stores_kept vm_placement_kept del: not_None_eq)+
    ultimately show ?thesis
      using that exec_store_kept [of x sm] by (simp add: all_stores_def del: not_None_eq)
  qed
qed

lemma all_stores_log: "all_stores (apply_log l full_replica)"
  by (rule mi_all_stores.log_inv [OF _ log_all]) (simp add: all_stores_def)

definition normal_commands :: "(contexts \<times> ('l, 'm) entry) list \<Rightarrow> log" where
  "normal_commands es =
     List.map_filter (\<lambda>(ctxs, e). case entry_payload e of Normal cmd \<Rightarrow> Some (ctxs, cmd) | _ \<Rightarrow> None) es"

text \<open>
  C35: Applying a batch of Raft entries changes the replica as the log of its normal
  commands does; the machine records the last entry as applied and answers each entry.
\<close>

theorem entries_apply_log:
  "rm_replica (fst (apply_entries es m)) = apply_log (normal_commands es) (rm_replica m) \<and>
   last_applied_log (rm_sm_state (fst (apply_entries es m))) =
     (if es = [] then last_applied_log (rm_sm_state m) else Some (entry_log_id (snd (last es)))) \<and>
   length (snd (apply_entries es m)) = length es"
proof (induction es arbitrary: m)
  case (Cons x es)
  obtain ctxs e where x: "x = (ctxs, e)" by (cases x)
  have "rm_replica (fst (apply_entry ctxs e m)) = apply_log (normal_commands [(ctxs, e)]) (rm_replica m)"
    "last_applied_log (rm_sm_state (fst (apply_entry ctxs e m))) = Some (entry_log_id e)"
    by (cases "entry_payload e"; simp add: apply_entry_def normal_commands_def map_filter_simps Let_def case_prod_unfold)+
  moreover have "normal_commands (x # es) = normal_commands [(ctxs, e)] @ normal_commands es"
    by (cases "entry_payload e") (simp_all add: normal_commands_def map_filter_simps x)
  ultimately show ?case
    using Cons.IH [of "fst (apply_entry ctxs e m)"] by (simp add: x Let_def case_prod_unfold)
qed (simp add: normal_commands_def map_filter_simps)


text \<open>
  C12: A snapshot built on any node and installed on a node that has just started gives it
  the tables, the storage state, the applied log position and the membership of the builder,
  provided the serializer gives back what it was given.
\<close>

theorem snapshot_transfers_state:
  fixes J :: "('l, 'm, 'd) codec"
  assumes J: "codec_ok J" and m: "rm_replica m = apply_log l full_replica" and n: "rm_replica n = full_replica"
    and b: "build_snapshot J m = ((meta, data), m1)"
  shows "\<exists>n'. install_snapshot J meta data n = Some n' \<and> same_tables (rm_replica m) (rm_replica n') \<and>
           same_storage (sm_storage (rm_replica m)) (sm_storage (rm_replica n')) \<and> rm_sm_state n' = rm_sm_state m"
proof -
  obtain n' st where n': "install_snapshot J meta data n = Some n'" "rm_sm_state n' = rm_sm_state m"
    "same_storage (sm_storage (rm_replica m)) st"
    "rm_replica n' = (let sm = import_store_tables (export_store_tables (rm_replica m)) (rm_replica n)
       in sm\<lparr>sm_events := sm_events sm @ restored_events sm, sm_storage := st\<rparr>)"
    by (rule install_built [OF J b, of n])
  have "same_tables (rm_replica m) (import_store_tables (export_store_tables (rm_replica m)) (rm_replica n))"
    by (rule import_fresh) (simp_all add: m n tables_wf_log all_stores_log fresh_replica_def)
  then have "same_tables (rm_replica m) (rm_replica n')" by (simp add: n'(4) same_tables_def Let_def)
  then show ?thesis using n' by (auto simp: Let_def)
qed

text \<open>The serializer that gives back its argument, and a machine before its first entry.\<close>

definition plain_codec :: "(nat, nat, (nat, nat) full_snapshot_data) codec" where
  "plain_codec = \<lparr>to_vec = id, from_slice_full = Some, from_slice_legacy = (\<lambda>_. None), show_log_id = show_nat\<rparr>"

definition machine_of :: "replica \<Rightarrow> (nat, nat, (nat, nat) full_snapshot_data) raft_machine" where
  "machine_of sm =
     \<lparr>rm_replica = sm, rm_sm_state = \<lparr>last_applied_log = None, last_membership = (None, 0)\<rparr>,
      rm_current_snapshot = None, rm_snapshot_idx = 0, rm_snapshot_count = 0, rm_entries_since_snapshot = 0\<rparr>"

lemma plain_codec_ok: "codec_ok plain_codec"
  by (simp add: codec_ok_def plain_codec_def same_storage_def)

theorem snapshot_transfers_state_witness:
  "\<exists>meta data m1 n'. build_snapshot plain_codec (machine_of (apply_log sample_log full_replica)) = ((meta, data), m1) \<and>
     install_snapshot plain_codec meta data (machine_of full_replica) = Some n' \<and>
     same_tables (apply_log sample_log full_replica) (rm_replica n')"
proof -
  obtain meta data m1 where b: "build_snapshot plain_codec (machine_of (apply_log sample_log full_replica)) = ((meta, data), m1)"
    by (metis surj_pair)
  have r: "rm_replica (machine_of sm) = sm" for sm by (simp add: machine_of_def)
  show ?thesis using snapshot_transfers_state [OF plain_codec_ok r r b] b unfolding r by blast
qed

text \<open>
  On a node that is not fresh the installation is not a replacement: a table that is empty
  on the builder is skipped by the export and keeps its rows on the receiver.
\<close>

theorem stale_rows_survive_install:
  fixes J :: "('l, 'm, 'd) codec"
  assumes J: "codec_ok J" and b: "build_snapshot J m = ((meta, data), m1)" and "tbl_orgs (sm_org (rm_replica m)) = []"
  shows "\<exists>n'. install_snapshot J meta data n = Some n' \<and> tbl_orgs (sm_org (rm_replica n')) = tbl_orgs (sm_org (rm_replica n))"
proof -
  obtain n' st where n': "install_snapshot J meta data n = Some n'"
    "rm_replica n' = (let sm = import_store_tables (export_store_tables (rm_replica m)) (rm_replica n)
       in sm\<lparr>sm_events := sm_events sm @ restored_events sm, sm_storage := st\<rparr>)"
    by (rule install_built [OF J b, of n])
  have "tbl_orgs (import_org f s) = import_table (tbl_orgs f) (tbl_orgs s)" for f s
    by (simp only: import_org_def org_store.simps)
  then have "tbl_orgs (sm_org (rm_replica n')) = tbl_orgs (sm_org (rm_replica n))"
    using assms(3) by (simp add: n'(2) Let_def import_store_tables_def export_store_tables_def import_table_def)
  then show ?thesis using n'(1) by blast
qed

section \<open>Encodings\<close>

text \<open>
  C39: The raw export of a database table, imported into any other database, restores the
  table exactly, and the import leaves the other tables alone.
\<close>

theorem table_export_import:
  assumes "tbl_wf (db t)"
  shows "import_table_raw t (export_table_raw db t) db' t = db t \<and>
         (u \<noteq> t \<longrightarrow> import_table_raw t (export_table_raw db t) db' u = db' u)"
  using import_export_raw [of db t db'] import_table_raw_other [of u t] assms by simp

theorem table_export_import_witness:
  "import_table_raw ''orgs'' (export_table_raw (\<lambda>_. [(''a'', [1]), (''b'', [2])]) ''orgs'') (\<lambda>_. [(''z'', [9])]) ''orgs'' =
     [(''a'', [1]), (''b'', [2])]"
  using table_export_import [of "\<lambda>_. [(''a'', [1]), (''b'', [2])]" "''orgs''" "\<lambda>_. [(''z'', [9])]"]
  by (simp add: tbl_wf_def less_char_def)


end
