(* ===== verification/Divergences.thy ===== *)
theory Divergences
  imports Replica_Properties
begin

text \<open>
  Concrete runs of the state machine that differ from what a comment or a document of the
  repository says.
\<close>

section \<open>The runs\<close>

definition create_twice :: command where
  "create_twice = Composite [Basic (OrgCommand (CreateOrg ''acme'')), Basic (OrgCommand (CreateOrg ''acme''))]"

definition requeue_log :: log where
  "requeue_log = storage_log
     [CreateVolume ''v1'' ''data'' 10 ''o'' ''p'' ''e'' Data None None, CreateSnapshot ''s1'' ''v1'' [''f''] 5,
      DeleteSnapshot ''s1'', CreateSnapshot ''s2'' ''v1'' [''f''] 7]"

definition leak_log :: log where
  "leak_log = storage_log
     [CreateVolume ''v1'' ''data'' 10 ''o'' ''p'' ''e'' Data None None, CreateSnapshot ''s1'' ''v1'' [''f''] 5,
      RestoreSnapshot ''s1'' ''v2'' ''copy'', DeleteSnapshot ''s1'', DeleteVolume ''v1'' False 1,
      DeleteVolume ''v2'' False 1, PurgeTombstones 10 1]"

definition ack_log :: log where
  "ack_log = storage_log
     [CreateVolume ''v1'' ''data'' 10 ''o'' ''p'' ''e'' Data None None, CreateSnapshot ''s1'' ''v1'' [''f''] 5,
      GcCompleteWalSegments 100]"

abbreviation storage_after :: "log \<Rightarrow> storage_state" where
  "storage_after l \<equiv> sm_storage (apply_log l full_replica)"

lemma divergent_runs:
  "(is_error (snd (apply_command sample_contexts create_twice full_replica)) \<and>
    tbl_orgs (sm_org (fst (apply_command sample_contexts create_twice full_replica))) \<noteq> []) \<and>
   (''f'' \<in> set (st_pending_gc_ssts (storage_after requeue_log)) \<and> live_refs (storage_after requeue_log) ''f'' = 1) \<and>
   (st_volumes (storage_after leak_log) = [] \<and> live_refs (storage_after leak_log) ''f'' = 0 \<and>
    sst_count (storage_after leak_log) ''f'' = 1 \<and> st_pending_gc_ssts (storage_after leak_log) = []) \<and>
   \<not> wal_retained (storage_after ack_log)"
  by code_simp

section \<open>Composite commands\<close>

text \<open>The comment on \<^verbatim>\<open>Composite\<close> says that all sub-commands succeed or all fail.  A composite
  that fails keeps the effects of the commands before the failure.\<close>

theorem failed_composite_keeps_prefix:
  "is_error (snd (apply_command sample_contexts create_twice full_replica)) \<and>
   tbl_orgs (sm_org (fst (apply_command sample_contexts create_twice full_replica))) \<noteq> []"
  using divergent_runs by blast

section \<open>Garbage collection\<close>

text \<open>The header of \<^verbatim>\<open>forge/src/gc.rs\<close> says that a file queued for collection can never become
  reachable again.  A later snapshot may reference it.\<close>

theorem queued_file_becomes_live:
  "''f'' \<in> set (st_pending_gc_ssts (storage_after requeue_log)) \<and> live_refs (storage_after requeue_log) ''f'' = 1"
  using divergent_runs by blast

text \<open>A restore takes references that nothing gives back: with every volume and snapshot gone,
  the file still has a reference and is not queued.\<close>

theorem restore_leaks_references:
  "st_volumes (storage_after leak_log) = [] \<and> live_refs (storage_after leak_log) ''f'' = 0 \<and>
   sst_count (storage_after leak_log) ''f'' = 1 \<and> st_pending_gc_ssts (storage_after leak_log) = []"
  using divergent_runs by blast

text \<open>An acknowledgement of the collector can move the retention position past a live snapshot.\<close>

theorem wal_position_passes_snapshot: "\<not> wal_retained (storage_after ack_log)"
  using divergent_runs by blast

section \<open>Security groups\<close>

text \<open>A port that is not a number gives a rule without port range, which matches every port.\<close>

theorem bad_port_matches_all: "parse_ports ''http'' = None"
  by (simp add: parse_ports_def parse_u16_def parse_nat_def is_digit_def Let_def)

end
