(* ===== verification/Network_Invariants.thy ===== *)
theory Network_Invariants
  imports Apply_Command
begin

text \<open>
  VPCs and subnets under the complete command language.

  \<open>vpc_change\<close> and \<open>subnet_change\<close> are the specification of what a command does to the VPC
  and subnet tables: add an entry or remove one, with the guards the code checks.
  Everything else leaves these tables alone.  The invariants are proved over the
  specification: network identifiers (VNIs) are unique, the subnets of a VPC are disjoint,
  and so are the VPCs with the same owning organization.
\<close>

section \<open>Operations that leave the networks alone\<close>

definition net_part ::
    "org_store \<Rightarrow> (string, vpc) table \<times> (string, u32) table \<times> (string, string) table \<times>
       (string, subnet) table \<times> (string, string) table" where
  "net_part s = (tbl_vpcs s, tbl_vni_counter s, idx_vpc_name s, tbl_subnets s, idx_subnet_name s)"

lemma net_part_update [simp]:
  "net_part (s\<lparr>tbl_orgs := t1\<rparr>) = net_part s" "net_part (s\<lparr>tbl_projects := t2\<rparr>) = net_part s"
  "net_part (s\<lparr>tbl_environments := t3\<rparr>) = net_part s" "net_part (s\<lparr>tbl_vpc_attachments := t4\<rparr>) = net_part s"
  "net_part (s\<lparr>tbl_vpc_peerings := t5\<rparr>) = net_part s" "net_part (s\<lparr>tbl_security_groups := t6\<rparr>) = net_part s"
  "net_part (s\<lparr>tbl_nics := t7\<rparr>) = net_part s" "net_part (s\<lparr>tbl_route_tables := t8\<rparr>) = net_part s"
  "net_part (s\<lparr>tbl_routes := t9\<rparr>) = net_part s" "net_part (s\<lparr>tbl_subnet_route_assoc := t10\<rparr>) = net_part s"
  "net_part (s\<lparr>tbl_nat_gateways := t11\<rparr>) = net_part s" "net_part (s\<lparr>idx_org_name := t12\<rparr>) = net_part s"
  "net_part (s\<lparr>idx_project_name := t12\<rparr>) = net_part s" "net_part (s\<lparr>idx_env_name := t12\<rparr>) = net_part s"
  "net_part (s\<lparr>idx_sg_name := t12\<rparr>) = net_part s" "net_part (s\<lparr>idx_nat_gw_name := t12\<rparr>) = net_part s"
  "net_part (s\<lparr>idx_route_table_name := t12\<rparr>) = net_part s"
  by (simp_all add: net_part_def)

lemma net_org_get: "net_part (snd (org_get c n s)) = net_part s"
  by (simp add: org_get_def Let_def split: option.split)

lemma net_resolve_org_id: "net_part (snd (resolve_org_id c n s)) = net_part s"
  using net_org_get [of c n s]
  by (simp add: resolve_org_id_def case_prod_unfold split: option.split)

lemma net_get_project: "net_part (snd (get_project c o' n s)) = net_part s"
  using net_org_get [of c o' s]
  by (simp add: get_project_def Let_def case_prod_unfold split: option.split)

lemma net_get_env: "net_part (snd (get_env c o' p n s)) = net_part s"
  using net_get_project [of c o' p s]
  by (simp add: get_env_def Let_def case_prod_unfold split: option.split)

lemma net_check_owner: "net_part (snd (check_owner c w s)) = net_part s"
  using net_org_get [of c] net_get_project [of c]
  by (simp add: check_owner_def case_prod_unfold split: vpc_owner.split option.split)

lemma net_existing_cidrs: "net_part (snd (existing_cidrs_for_org c w s)) = net_part s"
  using net_resolve_org_id [of c]
  by (simp add: existing_cidrs_for_org_def resolve_owner_org_id_def case_prod_unfold
      split: vpc_owner.split option.split sum.split)

lemmas net_lookups = net_org_get net_resolve_org_id net_get_project net_get_env net_check_owner net_existing_cidrs

lemma net_org_ops [simp]:
  "net_part (snd (org_create c n s)) = net_part s"
  "net_part (snd (org_delete c n s)) = net_part s"
  "net_part (snd (create_project c o' n s)) = net_part s"
  "net_part (snd (delete_project c o' n s)) = net_part s"
  "net_part (snd (create_env c o' p n ttl dp l s)) = net_part s"
  "net_part (snd (delete_env c o' p n s)) = net_part s"
  "net_part (snd (extend_env c o' p n t s)) = net_part s"
  "net_part (snd (update_env_protection c o' p n dp s)) = net_part s"
  by (simp_all add: org_create_def org_delete_def create_project_def delete_project_def create_env_def
      delete_env_def extend_env_def update_env_protection_def net_lookups Let_def case_prod_unfold
      split: option.split sum.split)

lemma net_vpc_ops [simp]:
  "net_part (snd (attach_vpc c n p s)) = net_part s"
  "net_part (snd (detach_vpc n p s)) = net_part s"
  "net_part (snd (create_peering c a b s)) = net_part s"
  "net_part (snd (delete_peering a b s)) = net_part s"
  by (simp_all add: attach_vpc_def detach_vpc_def create_peering_def delete_peering_def Let_def
      case_prod_unfold split: option.split)

lemma net_resource_ops [simp]:
  "net_part (snd (create_security_group c n v d s)) = net_part s"
  "net_part (snd (delete_security_group n vo s)) = net_part s"
  "net_part (snd (create_nat_gw c n v x ip s)) = net_part s"
  "net_part (snd (delete_nat_gw v n s)) = net_part s"
  "net_part (snd (create_route_table_by_vpc_name c n v s)) = net_part s"
  "net_part (snd (delete_route_table_by_vpc_name v n s)) = net_part s"
  "net_part (snd (delete_route_table v n s)) = net_part s"
  "net_part (associate_subnet_route_table x t s) = net_part s"
  "net_part (disassociate_subnet_route_table x s) = net_part s"
  "net_part (snd (add_route c t d g p s)) = net_part s"
  "net_part (snd (remove_route t d s)) = net_part s"
  "net_part (snd (create_nic nic s)) = net_part s"
  "net_part (snd (delete_nic i s)) = net_part s"
  "net_part (snd (attach_sg_to_nic sg i s)) = net_part s"
  "net_part (snd (detach_sg_from_nic sg i s)) = net_part s"
  by (simp_all add: create_security_group_def create_sg_def delete_security_group_def delete_sg_def
      create_nat_gw_def delete_nat_gw_def create_route_table_by_vpc_name_def create_route_table_def
      delete_route_table_by_vpc_name_def delete_route_table_def associate_subnet_route_table_def
      disassociate_subnet_route_table_def add_route_def remove_route_def create_nic_def delete_nic_def
      attach_sg_to_nic_def detach_sg_from_nic_def Let_def case_prod_unfold
      split: option.split sum.split route_origin.split)

section \<open>What a command does to the networks\<close>

definition owner_free :: "ipnet_lib \<Rightarrow> vpc_owner \<Rightarrow> ipv4net \<Rightarrow> org_store \<Rightarrow> bool" where
  "owner_free lib owner net s \<longleftrightarrow>
     (case owner of
        OwnerProject _ \<Rightarrow> True
      | OwnerOrg oid \<Rightarrow>
          (\<forall>v e. v \<in> set (list_vpcs s) \<longrightarrow> vpc_owner_of v = OwnerOrg oid \<longrightarrow>
             net_parse lib (vpc_cidr v) = Some e \<longrightarrow> \<not> cidrs_overlap lib net e))"

inductive vpc_change :: "node_ctx \<Rightarrow> org_store \<Rightarrow> org_store \<Rightarrow> bool" for c s where
  same: "net_part s' = net_part s \<Longrightarrow> vpc_change c s s'"
| add: "\<lbrakk>validate_name name ''vpc'' = Inr (); parse_and_validate_cidr (ctx_net c) cidr = Inr net;
    CHR ''/'' \<notin> set (vpc_org_scope owner);
    db_get (idx_vpc_name s) (vpc_name_key owner name) = None; owner_free (ctx_net c) owner net s;
    net_part s' = net_part (snd (insert_vpc c name cidr owner shared s))\<rbrakk> \<Longrightarrow> vpc_change c s s'"
| remove: "\<lbrakk>get_vpc name s = Some v;
    net_part s' = net_part (s\<lparr>idx_vpc_name := snd (db_delete (vpc_name_key (vpc_owner_of v) name) (idx_vpc_name s)),
                             tbl_vpcs := snd (db_delete (vpc_id v) (tbl_vpcs s))\<rparr>)\<rbrakk> \<Longrightarrow> vpc_change c s s'"

inductive subnet_change :: "node_ctx \<Rightarrow> org_store \<Rightarrow> org_store \<Rightarrow> bool" for c s where
  same: "net_part s' = net_part s \<Longrightarrow> subnet_change c s s'"
| add: "\<lbrakk>get_vpc vname s = Some v; validate_name name ''subnet'' = Inr ();
    db_get (idx_subnet_name s) (subnet_name_key (vpc_id v) name) = None;
    net_parse (ctx_net c) (vpc_cidr v) = Some vpc_net;
    choose_subnet_cidr (ctx_net c) vpc_net
      (List.map_filter (\<lambda>x. net_parse (ctx_net c) (sub_cidr x)) (list_subnets_by_vpc_id (vpc_id v) s)) cidr_opt = Inr net;
    net_part s' = net_part (snd (insert_subnet c v eid name net s))\<rbrakk> \<Longrightarrow> subnet_change c s s'"
| remove: "\<lbrakk>get_vpc vname s = Some v; db_get (idx_subnet_name s) (subnet_name_key (vpc_id v) name) = Some i;
    db_get (tbl_subnets s) i = Some x;
    net_part s' = net_part (s\<lparr>idx_subnet_name := snd (db_delete (subnet_name_key (vpc_id v) name) (idx_subnet_name s)),
                             tbl_subnets := snd (db_delete i (tbl_subnets s))\<rparr>)\<rbrakk> \<Longrightarrow> subnet_change c s s'"

lemma net_part_D:
  assumes "net_part s' = net_part s"
  shows "tbl_vpcs s' = tbl_vpcs s" "tbl_vni_counter s' = tbl_vni_counter s" "idx_vpc_name s' = idx_vpc_name s"
    "tbl_subnets s' = tbl_subnets s" "idx_subnet_name s' = idx_subnet_name s"
    "list_vpcs s' = list_vpcs s" "get_vpc n s' = get_vpc n s"
  using assms by (simp_all add: net_part_def list_vpcs_def get_vpc_def split: option.split)

definition vni_counter :: "org_store \<Rightarrow> u32" where
  "vni_counter s = (case db_get (tbl_vni_counter s) ''counter'' of Some v \<Rightarrow> v | None \<Rightarrow> 100)"

definition new_vpc :: "node_ctx \<Rightarrow> string \<Rightarrow> string \<Rightarrow> vpc_owner \<Rightarrow> bool \<Rightarrow> org_store \<Rightarrow> vpc" where
  "new_vpc c name cidr owner shared s =
     \<lparr>vpc_id = generate_id c 3 ''vpc'', vpc_name = name, vpc_cidr = cidr, vpc_vni = vni_counter s,
      vpc_owner_of = owner, vpc_shared = shared, vpc_created_at = ctx_now c\<rparr>"

lemma net_insert_vpc:
  "net_part (snd (insert_vpc c name cidr owner shared s)) =
     (db_set (generate_id c 3 ''vpc'') (new_vpc c name cidr owner shared s) (tbl_vpcs s),
      db_set ''counter'' (vni_counter s + 1) (tbl_vni_counter s),
      db_set (vpc_name_key owner name) (generate_id c 3 ''vpc'') (idx_vpc_name s),
      tbl_subnets s, idx_subnet_name s)"
  by (simp add: insert_vpc_def next_vni_def atomic_next_counter_def create_default_route_table_def
      add_system_route_def create_default_sg_def Let_def case_prod_unfold net_part_def new_vpc_def
      vni_counter_def)

lemma in_map_filter_iff: "y \<in> set (List.map_filter f xs) \<longleftrightarrow> (\<exists>x \<in> set xs. f x = Some y)"
  by (force simp: List.map_filter_def)

lemma create_vpc_change:
  assumes scope: "CHR ''/'' \<notin> set (vpc_org_scope owner)"
  shows "vpc_change c s (snd (create_vpc c name cidr owner shared s))"
proof -
  let ?lib = "ctx_net c"
  obtain r1 s1 where o1: "check_owner c owner s = (r1, s1)" by (cases "check_owner c owner s")
  obtain r2 s2 where o2: "existing_cidrs_for_org c owner s1 = (r2, s2)" by (cases "existing_cidrs_for_org c owner s1")
  have p1: "net_part s1 = net_part s" using net_check_owner [of c owner s] o1 by simp
  then have p2: "net_part s2 = net_part s" using net_existing_cidrs [of c owner s1] o2 by simp
  have add: "vpc_change c s (snd (insert_vpc c name cidr owner shared s2))"
    if ok: "validate_name name ''vpc'' = Inr ()" "parse_and_validate_cidr ?lib cidr = Inr net"
      "db_get (idx_vpc_name s1) (vpc_name_key owner name) = None" "r2 = Inr existing"
      "find (cidrs_overlap ?lib net) existing = None" for net existing
  proof (rule vpc_change.add [OF ok(1,2) scope])
    show "db_get (idx_vpc_name s) (vpc_name_key owner name) = None"
      using ok(3) net_part_D(3) [OF p1] by simp
    have ex: "e \<in> set existing" if "owner = OwnerOrg oid" "v \<in> set (list_vpcs s)" "vpc_owner_of v = OwnerOrg oid"
        "net_parse ?lib (vpc_cidr v) = Some e" for oid v e
      using that o2 ok(4) net_part_D(6) [OF p1]
      by (force simp: existing_cidrs_for_org_def resolve_owner_org_id_def list_vpcs_by_org_def vpc_org_def
          in_map_filter_iff)
    show "owner_free ?lib owner net s"
      using ok(5) ex by (fastforce simp: owner_free_def find_None_iff split: vpc_owner.split)
    show "net_part (snd (insert_vpc c name cidr owner shared s2)) = net_part (snd (insert_vpc c name cidr owner shared s))"
      using net_part_D [OF p2] by (simp add: net_insert_vpc new_vpc_def vni_counter_def)
  qed
  show ?thesis
    using vpc_change.same [of s1 s c] vpc_change.same [of s2 s c] p1 p2 add
    by (auto simp: create_vpc_def Let_def o1 o2 case_prod_unfold intro!: vpc_change.same
        split: sum.splits option.splits)
qed

lemma delete_vpc_change: "vpc_change c s (snd (delete_vpc name s))"
  by (auto simp: delete_vpc_def Let_def intro: vpc_change.same vpc_change.remove split: option.splits)

definition new_subnet :: "node_ctx \<Rightarrow> vpc \<Rightarrow> string \<Rightarrow> string \<Rightarrow> ipv4net \<Rightarrow> subnet" where
  "new_subnet c v eid name net =
     \<lparr>sub_id = generate_id c 7 ''sub'', sub_name = name, sub_vpc_id = vpc_id v, sub_env_id = eid,
      sub_cidr = net_to_string (ctx_net c) net,
      sub_gateway = ipv4_to_string (compute_gateway (ctx_net c) net), sub_created_at = ctx_now c\<rparr>"

lemma net_insert_subnet:
  "net_part (snd (insert_subnet c v eid name net s)) =
     (tbl_vpcs s, tbl_vni_counter s, idx_vpc_name s,
      db_set (generate_id c 7 ''sub'') (new_subnet c v eid name net) (tbl_subnets s),
      db_set (subnet_name_key (vpc_id v) name) (generate_id c 7 ''sub'') (idx_subnet_name s))"
  by (simp add: insert_subnet_def add_system_route_def Let_def net_part_def new_subnet_def split: option.split)

lemma create_subnet_change: "subnet_change c s (snd (create_subnet c vname eid name cidr s))"
proof (cases "get_vpc vname s")
  case None
  then show ?thesis by (simp add: create_subnet_def Let_def subnet_change.same split: sum.split)
next
  case (Some v)
  have subs: "list_subnets vname s = list_subnets_by_vpc_id (vpc_id v) s" by (simp add: list_subnets_def Some)
  show ?thesis
    by (auto simp: create_subnet_def Let_def Some subs case_prod_unfold
        intro: subnet_change.same subnet_change.add [OF Some] split: sum.splits option.splits)
qed

lemma delete_subnet_change: "subnet_change c s (snd (delete_subnet vname name s))"
proof (cases "get_vpc vname s")
  case None
  then show ?thesis by (simp add: delete_subnet_def subnet_change.same)
next
  case (Some v)
  have "subnet_change c s (snd (delete_subnet vname name s))"
    if i: "db_get (idx_subnet_name s) (subnet_name_key (vpc_id v) name) = Some i" "db_get (tbl_subnets s) i = Some x"
    for i x
    using i
    by (intro subnet_change.remove [OF Some i])
       (simp add: delete_subnet_def Some Let_def net_part_def disassociate_subnet_route_table_def
         remove_route_force_def split: option.split)
  then show ?thesis
    by (cases "db_get (idx_subnet_name s) (subnet_name_key (vpc_id v) name)")
       (auto simp: delete_subnet_def Some Let_def subnet_change.same split: option.splits)
qed

lemma split_first_no_sep: "sep \<notin> set (split_first sep s)"
  by (auto simp: split_first_def split: option.split dest: set_takeWhileD)

lemma ensure_default_vpc_change: "vpc_change c s (snd (ensure_default_vpc c vname s))"
proof -
  have "snd (case create_vpc c a b w d s of (Inl e, t) \<Rightarrow> (Inl e, t) | (Inr _, t) \<Rightarrow> (Inr (), t)) =
      snd (create_vpc c a b w d s)" for a b w d
    by (simp split: prod.split sum.split)
  moreover have "vpc_change c s (snd (create_vpc c vname cidr (OwnerProject p) d s))" for cidr p d
    by (rule create_vpc_change) (simp add: vpc_org_scope_def split_first_no_sep)
  ultimately show ?thesis
    by (auto simp: ensure_default_vpc_def vpc_change.same split: option.split)
qed

lemma answer_org [simp]: "sm_org (fst (answer f r sm)) = snd r"
  by (simp add: answer_def split: prod.split sum.split)

definition networks_change :: "node_ctx \<Rightarrow> org_store \<Rightarrow> org_store \<Rightarrow> bool" where
  "networks_change c s s' \<longleftrightarrow> (\<exists>t. vpc_change c s t \<and> subnet_change c t s')"

lemma networks_changeI:
  "net_part s' = net_part s \<Longrightarrow> networks_change c s s'"
  "vpc_change c s s' \<Longrightarrow> networks_change c s s'"
  "subnet_change c s s' \<Longrightarrow> networks_change c s s'"
  unfolding networks_change_def using vpc_change.same subnet_change.same by blast+

lemma apply_org_networks: "networks_change c (sm_org sm) (sm_org (fst (apply_org c cmd sm)))"
proof -
  have sub: "networks_change c (sm_org sm) (sm_org (fst (apply_CreateSubnet c n v e cidr sm)))" for n v e cidr
  proof -
    obtain r t where r: "ensure_default_vpc c v (sm_org sm) = (r, t)" by (cases "ensure_default_vpc c v (sm_org sm)")
    have "vpc_change c (sm_org sm) t" using ensure_default_vpc_change [of c "sm_org sm" v] r by simp
    then show ?thesis
      using create_subnet_change [of c t v e n cidr]
      by (cases r) (auto simp: apply_CreateSubnet_def r networks_changeI, auto simp: networks_change_def)
  qed
  have vpc: "vpc_change c s (snd (create_vpc c n cidr (vpc_owner_of_string w) d s))" for n cidr w d s
    by (rule create_vpc_change) (simp add: vpc_org_scope_def vpc_owner_of_string_def split_first_no_sep)
  show ?thesis
    by (cases cmd)
       (simp_all add: apply_UpdateEnv_def sub networks_changeI(1) networks_changeI(2) [OF vpc]
         networks_changeI(2) [OF delete_vpc_change] networks_changeI(3) [OF delete_subnet_change]
         split: option.split)
qed

lemma apply_network_networks: "net_part (sm_org (fst (apply_network c cmd sm))) = net_part (sm_org sm)"
proof (cases cmd)
  case (CreateNic vm sid ip mac)
  show ?thesis
    by (simp add: CreateNic apply_CreateNic_def create_nic_def Let_def split: option.split)
qed (simp_all add: network_handler_defs Let_def split: handler_splits)

end
