(* ===== verification/Network_Safety.thy ===== *)
theory Network_Safety
  imports Network_Invariants
begin

text \<open>
  Safety of the network tables along logs: VNIs are unique, subnets of one VPC and VPCs of
  one organization do not share addresses, and the name indexes agree with the records.
\<close>

section \<open>From commands to logs\<close>

lemma exec_networks: "networks_change (fst x) (sm_org sm) (sm_org (exec x sm))"
proof (cases x)
  case (Pair c cmd)
  have vm: "sm_org (fst (apply_vm c vcmd sm)) = sm_org sm" for vcmd
    using commit_volume_frame(1)
    by (cases vcmd) (simp_all add: vm_handler_defs apply_RescheduleVm_def Let_def move_volume_def
        fold_frame [where f = sm_org] split: handler_splits)
  show ?thesis
    by (cases cmd)
       (simp_all add: Pair apply_org_networks networks_changeI(1) apply_network_networks vm)
qed

text \<open>Every replica calls the same address library.\<close>

definition uses_lib :: "ipnet_lib \<Rightarrow> step \<Rightarrow> bool" where
  "uses_lib lib x \<longleftrightarrow> ctx_net (fst x) = lib"

section \<open>Unique VNIs\<close>

definition vnis_ok :: "org_store \<Rightarrow> bool" where
  "vnis_ok s \<longleftrightarrow>
     100 \<le> vni_counter s \<and>
     (\<forall>i v. db_get (tbl_vpcs s) i = Some v \<longrightarrow> 100 \<le> vpc_vni v \<and> vpc_vni v < vni_counter s) \<and>
     (\<forall>i j v w. db_get (tbl_vpcs s) i = Some v \<longrightarrow> db_get (tbl_vpcs s) j = Some w \<longrightarrow>
        vpc_vni v = vpc_vni w \<longrightarrow> i = j)"

lemma vnis_ok_empty: "vnis_ok empty_org_store"
  by (simp add: vnis_ok_def empty_org_store_def vni_counter_def)

lemma vnis_same:
  assumes "net_part s' = net_part s"
  shows "vnis_ok s' \<longleftrightarrow> vnis_ok s" "vni_counter s' = vni_counter s"
  using net_part_D [OF assms] by (simp_all add: vnis_ok_def vni_counter_def)

lemma u32_Suc:
  assumes "unat (k :: u32) + 1 < 2 ^ 32"
  shows "k < k + 1" "unat (k + 1) = Suc (unat k)"
proof -
  have "unat (- 1 :: u32) + 1 = 2 ^ 32" by (simp add: unsigned_minus_1_eq_mask mask_eq_exp_minus_1)
  with assms have "k \<noteq> - 1" by auto
  then show "unat (k + 1) = Suc (unat k)"
    by (metis Suc_eq_plus1 add.commute add_eq_0_iff unatSuc)
  then show "k < k + 1" by (simp add: word_less_nat_alt)
qed

lemma vpc_change_vnis:
  assumes ch: "vpc_change c s s'" and ok: "vnis_ok s" and room: "unat (vni_counter s) + 1 < 2 ^ 32"
  shows "vnis_ok s' \<and> unat (vni_counter s') \<le> unat (vni_counter s) + 1"
  using ch
proof cases
  case same
  then show ?thesis using ok vnis_same [OF same] by simp
next
  case (add name cidr net owner shared)
  let ?k = "vni_counter s"
  have t: "tbl_vpcs s' = db_set (generate_id c 3 ''vpc'') (new_vpc c name cidr owner shared s) (tbl_vpcs s)"
    "vni_counter s' = ?k + 1"
    using add(6) unfolding net_insert_vpc by (simp_all add: net_part_def vni_counter_def)
  note k = u32_Suc [OF room]
  have up: "x < ?k \<Longrightarrow> x < ?k + 1" for x using less_trans [OF _ k(1)] .
  have low: "100 \<le> ?k" using ok by (simp add: vnis_ok_def)
  have old: "100 \<le> vpc_vni v \<and> vpc_vni v < ?k" if "db_get (tbl_vpcs s) i = Some v" for i v
    using ok that unfolding vnis_ok_def by blast
  have inj: "i = j" if "db_get (tbl_vpcs s) i = Some v" "db_get (tbl_vpcs s) j = Some w" "vpc_vni v = vpc_vni w" for i j v w
    using ok that unfolding vnis_ok_def by blast
  have "vnis_ok s'"
    unfolding vnis_ok_def t
  proof (intro conjI allI impI, goal_cases)
    case 1 show ?case using low k(1) by (meson less_imp_le order_trans)
  next
    case (2 i v) then show ?case using low old [of i v] by (auto simp: new_vpc_def split: if_splits)
  next
    case (3 i v) then show ?case using k(1) old [of i v] up by (auto simp: new_vpc_def split: if_splits)
  next
    case (4 i j v w)
    let ?g = "generate_id c 3 ''vpc''"
    have new: "vpc_vni (new_vpc c name cidr owner shared s) = ?k" by (simp add: new_vpc_def)
    from 4 new old [of i v] old [of j w] inj [of i v j w] show ?case
      by (cases "i = ?g"; cases "j = ?g") fastforce+
  qed
  then show ?thesis using k(2) t(2) by simp
next
  case (remove name v)
  then have "tbl_vpcs s' = snd (db_delete (vpc_id v) (tbl_vpcs s))" "vni_counter s' = vni_counter s"
    by (simp_all add: net_part_def vni_counter_def)
  then show ?thesis using ok unfolding vnis_ok_def by (auto split: if_splits)
qed

lemma subnet_change_vpcs:
  assumes "subnet_change c s s'"
  shows "tbl_vpcs s' = tbl_vpcs s" "tbl_vni_counter s' = tbl_vni_counter s" "idx_vpc_name s' = idx_vpc_name s"
proof -
  have "tbl_vpcs s' = tbl_vpcs s \<and> tbl_vni_counter s' = tbl_vni_counter s \<and> idx_vpc_name s' = idx_vpc_name s"
    using assms by cases (simp_all only: net_insert_subnet, simp_all add: net_part_def)
  then show "tbl_vpcs s' = tbl_vpcs s" "tbl_vni_counter s' = tbl_vni_counter s" "idx_vpc_name s' = idx_vpc_name s"
    by blast+
qed

lemma networks_change_vnis:
  assumes "networks_change c s s'" "vnis_ok s" "unat (vni_counter s) + 1 < 2 ^ 32"
  shows "vnis_ok s' \<and> unat (vni_counter s') \<le> unat (vni_counter s) + 1"
proof -
  obtain t where t: "vpc_change c s t" "subnet_change c t s'"
    using assms(1) by (auto simp: networks_change_def)
  then show ?thesis
    using vpc_change_vnis [OF t(1) assms(2,3)] subnet_change_vpcs [OF t(2)]
    by (simp add: vnis_ok_def vni_counter_def)
qed

lemma steps_vnis:
  assumes "vnis_ok (sm_org sm)" "unat (vni_counter (sm_org sm)) + length xs < 2 ^ 32"
  shows "vnis_ok (sm_org (fold exec xs sm))"
  using assms
proof (induction xs arbitrary: sm)
  case (Cons x xs)
  have "vnis_ok (sm_org (exec x sm)) \<and>
      unat (vni_counter (sm_org (exec x sm))) \<le> unat (vni_counter (sm_org sm)) + 1"
    by (rule networks_change_vnis [OF exec_networks Cons.prems(1)]) (use Cons.prems(2) in simp)
  then show ?case using Cons.IH [of "exec x sm"] Cons.prems(2) by simp
qed simp

lemma log_vnis:
  assumes "vnis_ok (sm_org sm)" "unat (vni_counter (sm_org sm)) + length (log_steps l) < 2 ^ 32"
  shows "vnis_ok (sm_org (apply_log l sm))"
proof -
  obtain ys where ys: "apply_log l sm = fold exec ys sm" "subseq ys (log_steps l)"
    by (rule log_executed)
  then show ?thesis using steps_vnis [OF assms(1), of ys] executed_subset(2) [OF ys(2)] assms(2) by simp
qed

section \<open>Disjoint address blocks\<close>

text \<open>A table of records with address blocks, where related records must not share addresses.\<close>

definition blocks_disjoint ::
    "ipnet_lib \<Rightarrow> ('r \<Rightarrow> string) \<Rightarrow> ('r \<Rightarrow> 'r \<Rightarrow> bool) \<Rightarrow> (string, 'r) table \<Rightarrow> bool" where
  "blocks_disjoint lib cidr related t \<longleftrightarrow>
     tbl_wf t \<and>
     (\<forall>i x. db_get t i = Some x \<longrightarrow> net_parse lib (cidr x) \<noteq> None) \<and>
     (\<forall>i j x y a b. db_get t i = Some x \<longrightarrow> db_get t j = Some y \<longrightarrow> i \<noteq> j \<longrightarrow> related x y \<longrightarrow>
        net_parse lib (cidr x) = Some a \<longrightarrow> net_parse lib (cidr y) = Some b \<longrightarrow> block a \<inter> block b = {})"

lemma blocks_disjointD:
  assumes "blocks_disjoint lib cidr related t"
  shows "tbl_wf t" "db_get t i = Some x \<Longrightarrow> net_parse lib (cidr x) \<noteq> None"
    "\<lbrakk>db_get t i = Some x; db_get t j = Some y; i \<noteq> j; related x y; net_parse lib (cidr x) = Some a;
      net_parse lib (cidr y) = Some b\<rbrakk> \<Longrightarrow> block a \<inter> block b = {}"
  using assms unfolding blocks_disjoint_def by blast+

lemma blocks_disjoint_set:
  assumes ok: "blocks_disjoint lib cidr related t" and net: "net_parse lib (cidr x) = Some net"
    and sym: "\<And>y z. related y z \<Longrightarrow> related z y"
    and free: "\<And>j y b. \<lbrakk>db_get t j = Some y; related x y; net_parse lib (cidr y) = Some b\<rbrakk> \<Longrightarrow> block net \<inter> block b = {}"
  shows "blocks_disjoint lib cidr related (db_set i x t)"
  unfolding blocks_disjoint_def
proof (intro conjI allI impI, goal_cases)
  case 1 show ?case using blocks_disjointD(1) [OF ok] by simp
next
  case (2 j y) then show ?case using net blocks_disjointD(2) [OF ok, of j y] by (auto split: if_splits)
next
  case (3 j k y z a b)
  consider "j = i" "k \<noteq> i" | "j \<noteq> i" "k = i" | "j \<noteq> i" "k \<noteq> i" using 3(3) by blast
  then show ?case
  proof cases
    case 1
    then show ?thesis using 3 net free [of k z b] by simp
  next
    case 2
    then show ?thesis using 3 net free [of j y a] sym [of y z] by (simp add: Int_commute)
  next
    case 3
    then show ?thesis using \<open>related y z\<close> \<open>j \<noteq> k\<close> \<open>net_parse lib (cidr y) = Some a\<close> \<open>net_parse lib (cidr z) = Some b\<close>
        \<open>db_get (db_set i x t) j = Some y\<close> \<open>db_get (db_set i x t) k = Some z\<close> blocks_disjointD(3) [OF ok, of j y k z a b]
      by simp
  qed
qed

lemma blocks_disjoint_delete:
  assumes ok: "blocks_disjoint lib cidr related t"
  shows "blocks_disjoint lib cidr related (snd (db_delete i t))"
  unfolding blocks_disjoint_def
proof (intro conjI allI impI, goal_cases)
  case 1 show ?case using blocks_disjointD(1) [OF ok] by simp
next
  case (2 j y) then show ?case using blocks_disjointD(2) [OF ok, of j y] by (auto split: if_splits)
next
  case (3 j k y z a b) then show ?case using blocks_disjointD(3) [OF ok, of j y k z a b] by (auto split: if_splits)
qed

text \<open>The block that \<open>choose_subnet_cidr\<close> returns lies in the VPC and is free.\<close>

lemma convex_block:
  assumes "block_first a \<in> block b" "block_first a + block_size a - 1 \<in> block b"
  shows "block a \<subseteq> block b"
  using assms block_size_pos [of a] by (auto simp: block_def)

lemma auto_prefix: "auto_allocate_subnet_cidr lib v ex = Inr net \<Longrightarrow> 8 \<le> net_prefix_len v \<and> net_prefix_len v \<le> 24"
  by (auto simp: auto_allocate_subnet_cidr_def Let_def word_le_nat_alt split: if_splits)

lemma choose_subnet_cidr_ok:
  assumes ok: "ipnet_ok lib" and v: "net_prefix_len v \<le> 32" and ex: "\<forall>e\<in>set ex. net_prefix_len e \<le> 32"
    and ch: "choose_subnet_cidr lib v ex opt = Inr net"
  shows "net_prefix_len net \<le> 32" "block net \<subseteq> block v" "\<forall>e\<in>set ex. block net \<inter> block e = {}"
proof -
  have "net_prefix_len net \<le> 32 \<and> block net \<subseteq> block v \<and> (\<forall>e\<in>set ex. block net \<inter> block e = {})"
  proof (cases opt)
    case None
    then have a: "auto_allocate_subnet_cidr lib v ex = Inr net" using ch by (simp add: choose_subnet_cidr_def)
    then have "free_in v ex net"
      using auto_allocate_subnet_found [OF ok _ _ ex, of v] auto_prefix [OF a]
      by (auto simp: found_free_def split: option.splits)
    then show ?thesis by (auto simp: free_in_def)
  next
    case (Some str)
    then have p: "net_parse lib str = Some net" "net_contains lib v (net_network lib net)"
        "net_contains lib v (net_broadcast lib net)" "\<forall>e\<in>set ex. \<not> cidrs_overlap lib net e"
      using ch by (auto simp: choose_subnet_cidr_def find_None_iff split: option.splits if_splits)
    then have n: "net_prefix_len net \<le> 32" using ipnet_okD(1) [OF ok] by blast
    show ?thesis
      using p n ipnet_okD(3,4) [OF ok n] ipnet_okD(5) [OF ok v] convex_block [of net v]
        cidrs_overlap_iff [OF ok n] ex by auto
  qed
  then show "net_prefix_len net \<le> 32" "block net \<subseteq> block v" "\<forall>e\<in>set ex. block net \<inter> block e = {}" by auto
qed

text \<open>Subnets are related when they belong to the same VPC, VPCs when they have the same owning organization.\<close>

definition same_vpc :: "subnet \<Rightarrow> subnet \<Rightarrow> bool" where
  "same_vpc x y \<longleftrightarrow> sub_vpc_id x = sub_vpc_id y"

definition same_org :: "vpc \<Rightarrow> vpc \<Rightarrow> bool" where
  "same_org v w \<longleftrightarrow> (\<exists>oid. vpc_owner_of v = OwnerOrg oid \<and> vpc_owner_of w = OwnerOrg oid)"

definition subnets_disjoint :: "ipnet_lib \<Rightarrow> org_store \<Rightarrow> bool" where
  "subnets_disjoint lib s \<longleftrightarrow> blocks_disjoint lib sub_cidr same_vpc (tbl_subnets s)"

definition vpcs_disjoint :: "ipnet_lib \<Rightarrow> org_store \<Rightarrow> bool" where
  "vpcs_disjoint lib s \<longleftrightarrow> blocks_disjoint lib vpc_cidr same_org (tbl_vpcs s)"

lemma disjoint_empty: "subnets_disjoint lib empty_org_store" "vpcs_disjoint lib empty_org_store"
  by (simp_all add: subnets_disjoint_def vpcs_disjoint_def blocks_disjoint_def empty_org_store_def)

lemma vpc_change_disjoint:
  assumes ok: "ipnet_ok (ctx_net c)" and ch: "vpc_change c s s'" and dis: "vpcs_disjoint (ctx_net c) s"
  shows "vpcs_disjoint (ctx_net c) s'" "tbl_subnets s' = tbl_subnets s" "idx_subnet_name s' = idx_subnet_name s"
proof -
  let ?lib = "ctx_net c"
  have "vpcs_disjoint ?lib s' \<and> tbl_subnets s' = tbl_subnets s \<and> idx_subnet_name s' = idx_subnet_name s"
    using ch
  proof cases
    case same
    then show ?thesis using dis net_part_D [OF same] by (simp add: vpcs_disjoint_def)
  next
    case (add name cidr net owner shared)
    let ?v = "new_vpc c name cidr owner shared s"
    have t: "tbl_vpcs s' = db_set (generate_id c 3 ''vpc'') ?v (tbl_vpcs s)"
      "tbl_subnets s' = tbl_subnets s" "idx_subnet_name s' = idx_subnet_name s"
      using add(6) unfolding net_insert_vpc by (simp_all add: net_part_def)
    have v: "vpc_cidr ?v = cidr" "vpc_owner_of ?v = owner" by (simp_all add: new_vpc_def)
    have net: "net_parse ?lib cidr = Some net" by (rule validated_cidr(1) [OF add(2)])
    note wf = dis [unfolded vpcs_disjoint_def]
    have "blocks_disjoint ?lib vpc_cidr same_org (tbl_vpcs s')"
      unfolding t
    proof (rule blocks_disjoint_set [OF wf])
      show "net_parse ?lib (vpc_cidr ?v) = Some net" by (simp add: v net)
      show "same_org x y \<Longrightarrow> same_org y x" for x y by (auto simp: same_org_def)
      show "block net \<inter> block b = {}"
        if y: "db_get (tbl_vpcs s) j = Some y" "same_org ?v y" "net_parse ?lib (vpc_cidr y) = Some b" for j y b
      proof -
        obtain oid where o: "owner = OwnerOrg oid" "vpc_owner_of y = OwnerOrg oid"
          using y(2) v by (auto simp: same_org_def)
        have "y \<in> set (list_vpcs s)"
          using y(1) in_db_list_iff [OF blocks_disjointD(1) [OF wf], of j y] by (force simp: list_vpcs_def)
        then have "\<not> cidrs_overlap ?lib net b" using add(5) o y(3) unfolding owner_free_def by (cases b) simp
        then show ?thesis
          using cidrs_overlap_iff [OF ok ipnet_okD(1) [OF ok net] ipnet_okD(1) [OF ok y(3)]] by blast
      qed
    qed
    then show ?thesis using t by (simp add: vpcs_disjoint_def)
  next
    case (remove name v)
    then have "tbl_vpcs s' = snd (db_delete (vpc_id v) (tbl_vpcs s))" "tbl_subnets s' = tbl_subnets s"
        "idx_subnet_name s' = idx_subnet_name s"
      by (simp_all add: net_part_def)
    then show ?thesis using blocks_disjoint_delete dis by (simp add: vpcs_disjoint_def)
  qed
  then show "vpcs_disjoint ?lib s'" "tbl_subnets s' = tbl_subnets s" "idx_subnet_name s' = idx_subnet_name s"
    by blast+
qed

lemma subnet_change_disjoint:
  assumes ok: "ipnet_ok (ctx_net c)" and ch: "subnet_change c s s'" and dis: "subnets_disjoint (ctx_net c) s"
  shows "subnets_disjoint (ctx_net c) s'"
  using ch
proof cases
  case same
  then show ?thesis using dis net_part_D [OF same] by (simp add: subnets_disjoint_def)
next
  case (add vname v name vpc_net cidr_opt net eid)
  let ?lib = "ctx_net c" and ?x = "new_subnet c v eid name net"
  let ?ex = "List.map_filter (\<lambda>x. net_parse ?lib (sub_cidr x)) (list_subnets_by_vpc_id (vpc_id v) s)"
  have t: "tbl_subnets s' = db_set (generate_id c 7 ''sub'') ?x (tbl_subnets s)"
    using add(6) unfolding net_insert_subnet by (simp add: net_part_def)
  have ex: "\<forall>e\<in>set ?ex. net_prefix_len e \<le> 32" using ipnet_okD(1) [OF ok] by (auto simp: in_map_filter_iff)
  note net = choose_subnet_cidr_ok [OF ok ipnet_okD(1) [OF ok add(4)] ex add(5)]
  note wf = dis [unfolded subnets_disjoint_def]
  show ?thesis
    unfolding subnets_disjoint_def t
  proof (rule blocks_disjoint_set [OF wf])
    show "net_parse ?lib (sub_cidr ?x) = Some net" using ipnet_okD(2) [OF ok net(1)] by (simp add: new_subnet_def)
    show "same_vpc x y \<Longrightarrow> same_vpc y x" for x y by (simp add: same_vpc_def)
    show "block net \<inter> block b = {}"
      if "db_get (tbl_subnets s) j = Some y" "same_vpc ?x y" "net_parse ?lib (sub_cidr y) = Some b" for j y b
    proof -
      have "y \<in> set (list_subnets_by_vpc_id (vpc_id v) s)"
        using that(1,2) in_db_list_iff [OF blocks_disjointD(1) [OF wf], of j y]
        by (force simp: list_subnets_by_vpc_id_def same_vpc_def new_subnet_def)
      then show ?thesis using net(3) that(3) by (auto simp: in_map_filter_iff)
    qed
  qed
next
  case (remove vname v name i x)
  then have "tbl_subnets s' = snd (db_delete i (tbl_subnets s))" by (simp add: net_part_def)
  then show ?thesis using blocks_disjoint_delete dis by (simp add: subnets_disjoint_def)
qed

interpretation mi_networks: machine_invariant
    "\<lambda>sm. ipnet_ok lib \<and> vpcs_disjoint lib (sm_org sm) \<and> subnets_disjoint lib (sm_org sm)"
    "\<lambda>x _. uses_lib lib x" for lib
proof
  show "ipnet_ok lib \<and> vpcs_disjoint lib (sm_org (exec x sm)) \<and> subnets_disjoint lib (sm_org (exec x sm))"
    if inv: "ipnet_ok lib \<and> vpcs_disjoint lib (sm_org sm) \<and> subnets_disjoint lib (sm_org sm)" and "uses_lib lib x"
    for x sm
  proof -
    have lib: "lib = ctx_net (fst x)" using that(2) by (simp add: uses_lib_def)
    obtain t where t: "vpc_change (fst x) (sm_org sm) t" "subnet_change (fst x) t (sm_org (exec x sm))"
      using exec_networks [of x sm] by (auto simp: networks_change_def)
    note v = vpc_change_disjoint [OF _ t(1)]
    show ?thesis
      using inv v subnet_change_disjoint [OF _ t(2)] subnet_change_vpcs(1) [OF t(2)]
      unfolding lib by (simp add: subnets_disjoint_def vpcs_disjoint_def)
  qed
qed

section \<open>Name indexes\<close>

definition indexed ::
    "('r \<Rightarrow> string) \<Rightarrow> ('r \<Rightarrow> string) \<Rightarrow> (string, string) table \<Rightarrow> (string, 'r) table \<Rightarrow> bool" where
  "indexed id_of key_of idx t \<longleftrightarrow>
     (\<forall>i r. db_get t i = Some r \<longrightarrow> id_of r = i \<and> db_get idx (key_of r) = Some i) \<and>
     (\<forall>k i. db_get idx k = Some i \<longrightarrow> (\<exists>r. db_get t i = Some r \<and> key_of r = k))"

lemma indexedD:
  assumes "indexed id_of key_of idx t"
  shows "db_get t i = Some r \<Longrightarrow> id_of r = i" "db_get t i = Some r \<Longrightarrow> db_get idx (key_of r) = Some i"
    "db_get idx k = Some i \<Longrightarrow> \<exists>r. db_get t i = Some r \<and> key_of r = k"
  using assms unfolding indexed_def by blast+

lemma indexed_insert:
  assumes ok: "indexed id_of key_of idx t" and new: "db_get idx (key_of r) = None" "db_get t (id_of r) = None"
  shows "indexed id_of key_of (db_set (key_of r) (id_of r) idx) (db_set (id_of r) r t)"
  unfolding indexed_def
proof (intro conjI allI impI, goal_cases)
  case (1 i w) then show ?case using indexedD(1) [OF ok, of i w] by (auto split: if_splits)
next
  case (2 i w) then show ?case using indexedD(2) [OF ok, of i w] new by (auto split: if_splits)
next
  case (3 k i) then show ?case using indexedD(3) [OF ok, of k i] new by (auto split: if_splits)
qed

lemma indexed_delete:
  assumes ok: "indexed id_of key_of idx t" and r: "db_get t i = Some r"
  shows "indexed id_of key_of (snd (db_delete (key_of r) idx)) (snd (db_delete i t))"
  unfolding indexed_def
proof (intro conjI allI impI, goal_cases)
  case (1 j w) then show ?case using indexedD(1) [OF ok, of j w] by (auto split: if_splits)
next
  case (2 j w) then show ?case using indexedD(2) [OF ok, of j w] indexedD(2) [OF ok r] by (auto split: if_splits)
next
  case (3 k j) then show ?case using indexedD(3) [OF ok, of k j] indexedD(2) [OF ok r] r by (auto split: if_splits)
qed

definition vpc_key :: "vpc \<Rightarrow> string" where
  "vpc_key v = vpc_name_key (vpc_owner_of v) (vpc_name v)"

definition subnet_key :: "subnet \<Rightarrow> string" where
  "subnet_key x = subnet_name_key (sub_vpc_id x) (sub_name x)"

definition slash_free :: "vpc \<Rightarrow> bool" where
  "slash_free v \<longleftrightarrow> CHR ''/'' \<notin> set (vpc_org_scope (vpc_owner_of v)) \<and> CHR ''/'' \<notin> set (vpc_name v)"

definition vpc_index_ok :: "org_store \<Rightarrow> bool" where
  "vpc_index_ok s \<longleftrightarrow> tbl_wf (idx_vpc_name s) \<and> indexed vpc_id vpc_key (idx_vpc_name s) (tbl_vpcs s) \<and>
     (\<forall>i v. db_get (tbl_vpcs s) i = Some v \<longrightarrow> slash_free v)"

definition subnet_index_ok :: "org_store \<Rightarrow> bool" where
  "subnet_index_ok s \<longleftrightarrow> indexed sub_id subnet_key (idx_subnet_name s) (tbl_subnets s)"

lemma index_ok_empty: "vpc_index_ok empty_org_store" "subnet_index_ok empty_org_store"
  by (simp_all add: vpc_index_ok_def subnet_index_ok_def indexed_def empty_org_store_def)

lemma validated_slash_free: "validate_name n ctx = Inr () \<Longrightarrow> CHR ''/'' \<notin> set n"
  by (auto simp: validate_name_def Let_def list_all_iff is_lower_def is_digit_def split: if_splits)

lemma suffix_after_slash:
  assumes "ends_with (a @ ''/'' @ b) (''/'' @ n)" "CHR ''/'' \<notin> set a" "CHR ''/'' \<notin> set b"
  shows "n = b"
proof -
  have "take (Suc (length n)) (rev b @ CHR ''/'' # rev a) = rev n @ ''/''"
    using assms(1) by (simp add: ends_with_def starts_with_def)
  then obtain q where "rev b @ CHR ''/'' # rev a = rev n @ CHR ''/'' # q"
    by (metis append.assoc append_Cons append_Nil append_take_drop_id)
  then have "rev b = rev n"
    using assms(2,3) append_Cons_eq_iff [of "CHR ''/''" "rev b" "rev a" "rev n" q] by auto
  then show ?thesis by simp
qed

lemma get_vpc_named:
  assumes ok: "vpc_index_ok s" and g: "get_vpc n s = Some v"
  shows "db_get (tbl_vpcs s) (vpc_id v) = Some v" "vpc_name v = n"
proof -
  obtain k i where ki: "(k, i) \<in> set (db_list (idx_vpc_name s))" "ends_with k (''/'' @ n)" "db_get (tbl_vpcs s) i = Some v"
    using g by (auto simp: get_vpc_def find_Some_iff split: option.splits dest: nth_mem)
  then have "db_get (idx_vpc_name s) k = Some i" using ok by (simp add: vpc_index_ok_def in_db_list_iff)
  then have "vpc_key v = k" using ok ki(3) indexedD(3) [of vpc_id vpc_key "idx_vpc_name s" "tbl_vpcs s" k i]
    by (auto simp: vpc_index_ok_def)
  moreover have "slash_free v" "vpc_id v = i" using ok ki(3) indexedD(1) by (auto simp: vpc_index_ok_def)
  ultimately show "db_get (tbl_vpcs s) (vpc_id v) = Some v" "vpc_name v = n"
    using ki(2,3) suffix_after_slash [of "vpc_org_scope (vpc_owner_of v)" "vpc_name v" n]
    by (auto simp: vpc_key_def vpc_name_key_def slash_free_def)
qed

lemma vpc_change_index:
  assumes ch: "vpc_change c s s'" and ok: "vpc_index_ok s"
    and fresh: "db_get (tbl_vpcs s) (generate_id c 3 ''vpc'') = None"
  shows "vpc_index_ok s'"
  using ch
proof cases
  case same
  then show ?thesis using ok net_part_D [OF same] by (simp add: vpc_index_ok_def)
next
  case (add name cidr net owner shared)
  let ?v = "new_vpc c name cidr owner shared s"
  have v: "vpc_id ?v = generate_id c 3 ''vpc''" "vpc_key ?v = vpc_name_key owner name" "slash_free ?v"
    using add(3) validated_slash_free [OF add(1)] by (simp_all add: new_vpc_def vpc_key_def slash_free_def)
  have t: "tbl_vpcs s' = db_set (vpc_id ?v) ?v (tbl_vpcs s)"
    "idx_vpc_name s' = db_set (vpc_key ?v) (vpc_id ?v) (idx_vpc_name s)"
    using add(6) unfolding net_insert_vpc v(1,2) by (simp_all add: net_part_def)
  have "indexed vpc_id vpc_key (idx_vpc_name s') (tbl_vpcs s')"
    unfolding t by (rule indexed_insert) (use ok add(4) fresh v in \<open>auto simp: vpc_index_ok_def\<close>)
  then show ?thesis using ok v(3) unfolding vpc_index_ok_def t by (auto split: if_splits)
next
  case (remove name v)
  note n = get_vpc_named [OF ok remove(1)]
  have t: "tbl_vpcs s' = snd (db_delete (vpc_id v) (tbl_vpcs s))"
    "idx_vpc_name s' = snd (db_delete (vpc_key v) (idx_vpc_name s))"
    using remove(2) n(2) by (simp_all add: net_part_def vpc_key_def)
  show ?thesis
    unfolding vpc_index_ok_def t
    using ok indexed_delete [OF _ n(1)] by (auto simp: vpc_index_ok_def split: if_splits)
qed

lemma subnet_change_index:
  assumes ch: "subnet_change c s s'" and ok: "subnet_index_ok s"
    and fresh: "db_get (tbl_subnets s) (generate_id c 7 ''sub'') = None"
  shows "subnet_index_ok s'"
  using ch
proof cases
  case same
  then show ?thesis using ok net_part_D [OF same] by (simp add: subnet_index_ok_def)
next
  case (add vname v name vpc_net cidr_opt net eid)
  let ?x = "new_subnet c v eid name net"
  have x: "sub_id ?x = generate_id c 7 ''sub''" "subnet_key ?x = subnet_name_key (vpc_id v) name"
    by (simp_all add: new_subnet_def subnet_key_def)
  have t: "tbl_subnets s' = db_set (sub_id ?x) ?x (tbl_subnets s)"
    "idx_subnet_name s' = db_set (subnet_key ?x) (sub_id ?x) (idx_subnet_name s)"
    using add(6) unfolding net_insert_subnet x by (simp_all add: net_part_def)
  show ?thesis
    unfolding subnet_index_ok_def t
    by (rule indexed_insert) (use ok add(3) fresh x in \<open>auto simp: subnet_index_ok_def\<close>)
next
  case (remove vname v name i x)
  have "subnet_key x = subnet_name_key (vpc_id v) name"
    using indexedD(3) [OF ok [unfolded subnet_index_ok_def] remove(2)] remove(3) by auto
  then have t: "tbl_subnets s' = snd (db_delete i (tbl_subnets s))"
    "idx_subnet_name s' = snd (db_delete (subnet_key x) (idx_subnet_name s))"
    using remove(4) by (simp_all add: net_part_def)
  show ?thesis
    unfolding subnet_index_ok_def t
    using indexed_delete [OF _ remove(3)] ok by (auto simp: subnet_index_ok_def)
qed

text \<open>Identifiers are random; a draw does not repeat an identifier in use.\<close>

definition ids_fresh :: "step \<Rightarrow> replica \<Rightarrow> bool" where
  "ids_fresh x sm \<longleftrightarrow>
     db_get (tbl_vpcs (sm_org sm)) (generate_id (fst x) 3 ''vpc'') = None \<and>
     db_get (tbl_subnets (sm_org sm)) (generate_id (fst x) 7 ''sub'') = None"

lemma vpc_change_subnets:
  assumes "vpc_change c s s'"
  shows "tbl_subnets s' = tbl_subnets s" "idx_subnet_name s' = idx_subnet_name s"
proof -
  have "tbl_subnets s' = tbl_subnets s \<and> idx_subnet_name s' = idx_subnet_name s"
    using assms by cases (simp_all only: net_insert_vpc, simp_all add: net_part_def)
  then show "tbl_subnets s' = tbl_subnets s" "idx_subnet_name s' = idx_subnet_name s" by blast+
qed

interpretation mi_index: machine_invariant
    "\<lambda>sm. vpc_index_ok (sm_org sm) \<and> subnet_index_ok (sm_org sm)" ids_fresh
proof
  show "vpc_index_ok (sm_org (exec x sm)) \<and> subnet_index_ok (sm_org (exec x sm))"
    if inv: "vpc_index_ok (sm_org sm) \<and> subnet_index_ok (sm_org sm)" and fresh: "ids_fresh x sm" for x sm
  proof -
    obtain t where t: "vpc_change (fst x) (sm_org sm) t" "subnet_change (fst x) t (sm_org (exec x sm))"
      using exec_networks [of x sm] by (auto simp: networks_change_def)
    have "vpc_index_ok t" using vpc_change_index [OF t(1)] inv fresh by (simp add: ids_fresh_def)
    moreover have "subnet_index_ok t" "db_get (tbl_subnets t) (generate_id (fst x) 7 ''sub'') = None"
      using inv fresh vpc_change_subnets [OF t(1)] by (simp_all add: subnet_index_ok_def ids_fresh_def)
    ultimately show ?thesis
      using subnet_change_index [OF t(2)] subnet_change_vpcs [OF t(2)] by (simp add: vpc_index_ok_def)
  qed
qed

end
