(* ===== verification/Address_Properties.thy ===== *)
theory Address_Properties
  imports Ipam Cidr
begin

text \<open>
  Address arithmetic: overlap of blocks, the allocators of VPC and subnet blocks, and the
  allocator of host addresses.  The ipnet crate is a parameter; \<open>ipnet_ok\<close> is what its
  documentation promises, and \<open>ipnet_ref\<close> an implementation of it.
\<close>

section \<open>The loop over 32-bit addresses\<close>

text \<open>
  The loop \<^verbatim>\<open>while addr <= net_end { ...; addr += 256 }\<close> with the 32-bit counter of the source;
  \<^verbatim>\<open>None\<close> is a loop that does not end.
\<close>

partial_function (option) scan_u32 :: "(u32 \<Rightarrow> ipv4net option) \<Rightarrow> u32 \<Rightarrow> u32 \<Rightarrow> ipv4net option option" where
  "scan_u32 accept net_end addr =
     (if addr \<le> net_end
      then case accept addr of
             Some candidate \<Rightarrow> Some (Some candidate)
           | None \<Rightarrow> scan_u32 accept net_end (addr + 256)
      else Some None)"

lemma scan_u32_scan_blocks:
  assumes "unat net_end + 256 < 2 ^ 32"
  shows "scan_u32 accept net_end addr = Some (scan_blocks (\<lambda>n. accept (of_nat n)) (unat net_end) (unat addr))"
proof (induction "Suc (unat net_end) - unat addr" arbitrary: addr rule: less_induct)
  case less
  show ?case
  proof (cases "addr \<le> net_end")
    case True
    then have le: "unat addr \<le> unat net_end" by (simp add: word_le_nat_alt)
    have next_addr: "unat (addr + 256) = unat addr + 256"
      using le assms by (simp add: unat_word_ariths take_bit_nat_eq_self)
    have "scan_u32 accept net_end (addr + 256) =
        Some (scan_blocks (\<lambda>n. accept (of_nat n)) (unat net_end) (unat (addr + 256)))"
      by (rule less) (use le next_addr in linarith)
    then show ?thesis
      using True le by (subst scan_u32.simps, subst scan_blocks.simps) (simp add: next_addr split: option.split)
  next
    case False
    then show ?thesis
      by (subst scan_u32.simps, subst scan_blocks.simps) (simp add: word_le_nat_alt)
  qed
qed

section \<open>Computing with the reference implementation\<close>

text \<open>The reference implementation computes with integers of the size of the addresses.\<close>

fun addr_int :: "ipv4 \<Rightarrow> int" where
  "addr_int (Ipv4 a b c d) = ((uint a * 256 + uint b) * 256 + uint c) * 256 + uint d"

lemma addr_int_nat: "addr_int a = int (addr_nat a)"
  by (cases a) (simp add: addr_nat_Ipv4)

definition first_int :: "ipv4net \<Rightarrow> int" where
  "first_int net =
     (let size = 2 ^ (32 - unat (net_prefix_len net)) in addr_int (net_addr net) div size * size)"

lemma ipnet_ref_code [code]:
  "ipnet_ref =
     \<lparr>net_parse = (\<lambda>s. case split_once CHR ''/'' s of
                      None \<Rightarrow> None
                    | Some (a, p) \<Rightarrow>
                        (case (parse_ipv4 a, parse_nat 32 p) of
                           (Some ip, Some n) \<Rightarrow> Some (ip, of_nat n)
                         | _ \<Rightarrow> None)),
      net_to_string = (\<lambda>(a, p). ipv4_to_string a @ ''/'' @ show_nat (unat p)),
      net_network = (\<lambda>net. ipv4_of_u32 (word_of_int (first_int net))),
      net_broadcast = (\<lambda>net. ipv4_of_u32 (word_of_int (first_int net + 2 ^ (32 - unat (net_prefix_len net)) - 1))),
      net_contains = (\<lambda>net a. first_int net \<le> addr_int a \<and>
        addr_int a < first_int net + 2 ^ (32 - unat (net_prefix_len net)))\<rparr>"
proof -
  have first: "first_int net = int (block_first net)" for net
    by (simp add: first_int_def block_first_def block_size_def addr_int_nat Let_def zdiv_int)
  have size: "(2 :: int) ^ (32 - unat (net_prefix_len net)) = int (block_size net)" for net
    by (simp add: block_size_def)
  have "word_of_int (int (block_first net) + int (block_size net) - 1) = (of_nat (block_first net + block_size net - 1) :: u32)" for net
  proof -
    have "1 \<le> block_first net + block_size net" using block_size_pos [of net] by linarith
    then show ?thesis by (simp only: of_nat_diff) simp
  qed
  moreover have "int a < int b + int c \<longleftrightarrow> a < b + c" for a b c by linarith
  ultimately show ?thesis
    unfolding ipnet_ref_def first size addr_int_nat by (simp add: fun_eq_iff)
qed

lemma ipv4_of_u32_code [code]:
  "ipv4_of_u32 w =
     Ipv4 (word_of_int (uint w div 16777216)) (word_of_int (uint w div 65536 mod 256))
          (word_of_int (uint w div 256 mod 256)) (word_of_int (uint w mod 256))"
proof -
  have i: "int (unat w div k) = uint w div int k" "int (unat w div k mod m) = uint w div int k mod int m"
    "int (unat w mod m) = uint w mod int m" for k m
    by (simp_all only: zdiv_int zmod_int of_nat_unat)
  have o: "(of_nat n :: u8) = word_of_int (int n)" for n by simp
  show ?thesis
    unfolding ipv4_of_u32_def o i by simp
qed

section \<open>Address blocks\<close>

text \<open>
  C24: \<^verbatim>\<open>cidrs_overlap\<close>, which tests whether one network contains the first address of the
  other, decides whether the two blocks of addresses intersect.
\<close>

theorem overlap_decides_intersection:
  assumes "ipnet_ok lib" "net_prefix_len a \<le> 32" "net_prefix_len b \<le> 32"
  shows "cidrs_overlap lib a b \<longleftrightarrow> block a \<inter> block b \<noteq> {}"
  by (rule cidrs_overlap_iff [OF assms])

theorem overlap_decides_intersection_witness:
  "cidrs_overlap ipnet_ref (Ipv4 10 1 0 0, 16) (Ipv4 10 1 5 0, 24) \<longleftrightarrow>
   block (Ipv4 10 1 0 0, 16) \<inter> block (Ipv4 10 1 5 0, 24) \<noteq> {}"
  by (rule overlap_decides_intersection [OF ipnet_ok_ref]) simp_all

text \<open>
  C16: The automatic choice of a subnet block is sound and complete: in a VPC of prefix
  length 8 to 24 it returns a /24 block inside the VPC that is disjoint from every existing
  subnet, and it reports exhaustion only when there is no such block.
\<close>

theorem subnet_allocation_sound_complete:
  assumes "ipnet_ok lib" "8 \<le> net_prefix_len v" "net_prefix_len v \<le> 24" "\<forall>e\<in>set ex. net_prefix_len e \<le> 32"
  shows "(\<exists>c. auto_allocate_subnet_cidr lib v ex = Inr c \<and> free_in v ex c) \<or>
         (auto_allocate_subnet_cidr lib v ex = Inl (SubnetCidrExhausted (net_to_string lib v)) \<and> (\<forall>c. \<not> free_in v ex c))"
  using auto_allocate_subnet_found [OF assms] by (auto simp: found_free_def split: option.splits)

theorem subnet_allocation_sound_complete_witness:
  "\<exists>c. auto_allocate_subnet_cidr ipnet_ref (Ipv4 10 1 0 0, 16) [(Ipv4 10 1 0 0, 24)] = Inr c \<and>
       free_in (Ipv4 10 1 0 0, 16) [(Ipv4 10 1 0 0, 24)] c"
proof -
  have "free_in (Ipv4 10 1 0 0, 16) [(Ipv4 10 1 0 0, 24)] (Ipv4 10 1 1 0, 24)"
    by (auto simp: free_in_def block_def block_first_def block_size_def addr_nat_Ipv4)
  moreover have "8 \<le> net_prefix_len (Ipv4 10 1 0 0, 16 :: u8)" "net_prefix_len (Ipv4 10 1 0 0, 16 :: u8) \<le> 24"
    "\<forall>e\<in>set [(Ipv4 10 1 0 0, 24 :: u8)]. net_prefix_len e \<le> 32"
    by simp_all
  ultimately show ?thesis
    using subnet_allocation_sound_complete [OF ipnet_ok_ref] by blast
qed

text \<open>
  C23: The scan of a VPC for a free block ends: on a network that passed validation the loop
  with the 32-bit counter of the source returns, with the result of the scan over unbounded
  numbers, because the counter does not wrap around.
\<close>

theorem scan_terminates:
  assumes ok: "ipnet_ok lib" and net: "parse_and_validate_cidr lib s = Inr net"
  shows "scan_u32 accept (ipv4_to_u32 (net_broadcast lib net)) addr =
           Some (scan_blocks (\<lambda>n. accept (of_nat n)) (addr_nat (net_broadcast lib net)) (unat addr))"
proof -
  have "net_prefix_len net \<le> 32" using ipnet_okD(1) [OF ok validated_cidr(1) [OF net]] .
  then have "addr_nat (net_broadcast lib net) < 3232301056"
    by (rule private_last [OF ok _ validated_cidr(5) [OF net]])
  then show ?thesis using scan_u32_scan_blocks by (simp add: addr_nat_def)
qed

theorem scan_terminates_witness:
  "scan_u32 (\<lambda>_. None) (ipv4_to_u32 (net_broadcast ipnet_ref (Ipv4 192 168 0 0, 16))) 0 =
     Some (scan_blocks (\<lambda>_. None) (addr_nat (net_broadcast ipnet_ref (Ipv4 192 168 0 0, 16))) 0)"
proof -
  have "parse_and_validate_cidr ipnet_ref ''192.168.0.0/16'' = Inr (Ipv4 192 168 0 0, 16)" by code_simp
  from scan_terminates [OF ipnet_ok_ref this, of "\<lambda>_. None" 0] show ?thesis by simp
qed

section \<open>Host addresses\<close>

text \<open>The operations of the address store on one subnet, with their inputs.\<close>

datatype ipam_op =
    OpReserve u64
  | OpAssign node_ctx string string
  | OpRelease string
  | OpOrphan string

fun ipam_exec :: "ipnet_lib \<Rightarrow> string \<Rightarrow> string \<Rightarrow> ipam_op \<Rightarrow> ipam_store \<Rightarrow> ipam_store" where
  "ipam_exec lib sid cidr (OpReserve ts) s = (case reserve_ip_at lib ts sid cidr s of Inl _ \<Rightarrow> s | Inr (_, s') \<Rightarrow> s')"
| "ipam_exec lib sid cidr (OpAssign c ip vm) s = (case assign_ip c sid ip vm s of Inl _ \<Rightarrow> s | Inr (_, s') \<Rightarrow> s')"
| "ipam_exec lib sid cidr (OpRelease ip) s = (case release_ip lib sid cidr ip s of Inl _ \<Rightarrow> s | Inr s' \<Rightarrow> s')"
| "ipam_exec lib sid cidr (OpOrphan ip) s = (case mark_orphaned sid ip s of Inl _ \<Rightarrow> s | Inr (_, s') \<Rightarrow> s')"

abbreviation ipam_reached :: "ipnet_lib \<Rightarrow> string \<Rightarrow> string \<Rightarrow> ipam_op list \<Rightarrow> ipam_store" where
  "ipam_reached lib sid cidr ops \<equiv> fold (ipam_exec lib sid cidr) ops empty_ipam_store"

lemma subnet_ok_same:
  assumes "subnet_ok base sid s" "load_bitmap sid s' = load_bitmap sid s"
    "\<And>ip. get_allocation sid ip s' = None \<longleftrightarrow> get_allocation sid ip s = None"
  shows "subnet_ok base sid s'"
  using assms by (simp add: subnet_ok_def allocated_def)

lemma assign_same:
  assumes "assign_ip c sid ip vm s = Inr (a, s')"
  shows "load_bitmap sid s' = load_bitmap sid s" "get_allocation sid ip' s' = None \<longleftrightarrow> get_allocation sid ip' s = None"
  using assms
  by (auto simp: assign_ip_def load_bitmap_def get_allocation_def Let_def split: option.splits if_splits)

lemma orphan_same:
  assumes "mark_orphaned sid ip s = Inr (a, s')"
  shows "load_bitmap sid s' = load_bitmap sid s" "get_allocation sid ip' s' = None \<longleftrightarrow> get_allocation sid ip' s = None"
  using assms
  by (auto simp: mark_orphaned_def load_bitmap_def get_allocation_def Let_def split: option.splits if_splits)

lemma ipam_exec_ok:
  assumes ok: "subnet_ok base sid s" and base: "parse_subnet_base lib cidr = Inr base"
  shows "subnet_ok base sid (ipam_exec lib sid cidr opn s)"
proof (cases opn)
  case (OpReserve ts)
  then show ?thesis using ok reserve_subnet_ok(1) [OF ok base] by (simp split: sum.split)
next
  case (OpAssign c ip vm)
  then show ?thesis using ok subnet_ok_same [OF ok assign_same] by (auto split: sum.split)
next
  case (OpRelease ip)
  then show ?thesis using ok release_subnet_ok(1) [OF ok] by (simp split: sum.split)
next
  case (OpOrphan ip)
  then show ?thesis using ok subnet_ok_same [OF ok orphan_same] by (auto split: sum.split)
qed

lemma ipam_reached_ok:
  assumes "parse_subnet_base lib cidr = Inr base"
  shows "subnet_ok base sid (ipam_reached lib sid cidr ops)"
proof -
  have "subnet_ok base sid (fold (ipam_exec lib sid cidr) ops s)" if "subnet_ok base sid s" for s
    using that by (induction ops arbitrary: s) (simp_all add: ipam_exec_ok [OF _ assms])
  then show ?thesis using subnet_ok_empty by blast
qed

text \<open>
  C13: No address is handed out twice: after any sequence of reservations, assignments,
  releases and orphan marks on a subnet, a reservation returns an address that has no
  allocation record, the lowest free host address of the subnet, and records it.
\<close>

theorem reserve_gives_free_address:
  fixes ops :: "ipam_op list" and lib :: ipnet_lib and sid cidr :: string
  defines "s \<equiv> ipam_reached lib sid cidr ops"
  assumes base: "parse_subnet_base lib cidr = Inr base" and res: "reserve_ip_at lib ts sid cidr s = Inr (a, s')"
  shows "get_allocation sid (al_ip a) s = None \<and> get_allocation sid (al_ip a) s' = Some a \<and>
         (\<exists>n. 3 \<le> n \<and> n \<le> 254 \<and> al_ip a = host_ip base n \<and>
              (\<forall>m. 3 \<le> m \<and> m < n \<longrightarrow> get_allocation sid (host_ip base m) s \<noteq> None))"
proof -
  have ok: "subnet_ok base sid s" unfolding s_def by (rule ipam_reached_ok [OF base])
  note r = reserve_subnet_ok [OF ok base res]
  obtain n where n: "host n" "al_ip a = host_ip base n" "\<And>m. host m \<and> m < n \<Longrightarrow> m \<in> allocated base sid s"
    using r(4) by blast
  have "get_allocation sid (host_ip base m) s \<noteq> None" if "3 \<le> m" "m < n" for m
    using n(3) [of m] n(1) that by (simp add: host_def allocated_def)
  then show ?thesis using r(2,3) n(1,2) by (auto simp: host_def)
qed

lemma sample_base: "parse_subnet_base ipnet_ref ''10.1.1.0/24'' = Inr (Ipv4 10 1 1 0)"
  by code_simp

theorem reserve_gives_free_address_witness:
  "\<exists>a s'. reserve_ip_at ipnet_ref 1 ''sub-1'' ''10.1.1.0/24'' (ipam_reached ipnet_ref ''sub-1'' ''10.1.1.0/24'' [OpReserve 0]) = Inr (a, s') \<and>
     get_allocation ''sub-1'' (al_ip a) (ipam_reached ipnet_ref ''sub-1'' ''10.1.1.0/24'' [OpReserve 0]) = None"
proof -
  have "case reserve_ip_at ipnet_ref 1 ''sub-1'' ''10.1.1.0/24'' (ipam_reached ipnet_ref ''sub-1'' ''10.1.1.0/24'' [OpReserve 0]) of
      Inl _ \<Rightarrow> False | Inr _ \<Rightarrow> True" by code_simp
  then obtain a s' where
    "reserve_ip_at ipnet_ref 1 ''sub-1'' ''10.1.1.0/24'' (ipam_reached ipnet_ref ''sub-1'' ''10.1.1.0/24'' [OpReserve 0]) = Inr (a, s')"
    by (auto split: sum.splits)
  with reserve_gives_free_address [OF sample_base this] show ?thesis by blast
qed

text \<open>
  C30: A reservation fails for lack of addresses only when all 252 host addresses (offsets 3
  to 254) of the subnet are allocated.
\<close>

theorem exhausted_means_full:
  assumes base: "parse_subnet_base lib cidr = Inr base"
  shows "reserve_ip_at lib ts sid cidr (ipam_reached lib sid cidr ops) = Inl (IpExhausted sid) \<longleftrightarrow>
           (\<forall>n. 3 \<le> n \<and> n \<le> 254 \<longrightarrow> get_allocation sid (host_ip base n) (ipam_reached lib sid cidr ops) \<noteq> None)"
  using reserve_exhausted [OF ipam_reached_ok [OF base] base, of ts]
  by (simp add: host_def allocated_def)

theorem exhausted_means_full_witness:
  "reserve_ip_at ipnet_ref 1 ''sub-1'' ''10.1.1.0/24'' (ipam_reached ipnet_ref ''sub-1'' ''10.1.1.0/24'' []) = Inl (IpExhausted ''sub-1'') \<longleftrightarrow>
     (\<forall>n. 3 \<le> n \<and> n \<le> 254 \<longrightarrow> get_allocation ''sub-1'' (host_ip (Ipv4 10 1 1 0) n) (ipam_reached ipnet_ref ''sub-1'' ''10.1.1.0/24'' []) \<noteq> None)"
  by (rule exhausted_means_full [OF sample_base])

text \<open>
  C29: The address of a release is free again: after it, the address has no record, it was
  allocated before, and the next reservation succeeds.
\<close>

theorem released_address_is_free:
  fixes ops :: "ipam_op list" and lib :: ipnet_lib and sid cidr :: string
  defines "s \<equiv> ipam_reached lib sid cidr ops"
  assumes base: "parse_subnet_base lib cidr = Inr base" and rel: "release_ip lib sid cidr ip s = Inr s'"
  shows "get_allocation sid ip s \<noteq> None \<and> get_allocation sid ip s' = None \<and>
         (\<exists>a s''. reserve_ip_at lib ts sid cidr s' = Inr (a, s''))"
proof -
  have ok: "subnet_ok base sid s" unfolding s_def by (rule ipam_reached_ok [OF base])
  note r = release_subnet_ok [OF ok rel]
  obtain addr where addr: "parse_ipv4 ip = Some addr"
    using rel base by (auto simp: release_ip_def Let_def split: option.splits)
  then obtain n where n: "host n" "ip = host_ip base n"
    using ok r(2) unfolding subnet_ok_def by blast
  then have "n \<notin> allocated base sid s'" using r(3) by (simp add: allocated_def)
  then have "reserve_ip_at lib ts sid cidr s' \<noteq> Inl (IpExhausted sid)"
    using reserve_exhausted [OF r(1) base, of ts] n(1) by blast
  then have "\<exists>a s''. reserve_ip_at lib ts sid cidr s' = Inr (a, s'')"
    using base by (auto simp: reserve_ip_at_def Let_def split: option.splits)
  then show ?thesis using r(2,3) by blast
qed

theorem released_address_is_free_witness:
  "\<exists>s'. release_ip ipnet_ref ''sub-1'' ''10.1.1.0/24'' ''10.1.1.3'' (ipam_reached ipnet_ref ''sub-1'' ''10.1.1.0/24'' [OpReserve 0]) = Inr s' \<and>
     get_allocation ''sub-1'' ''10.1.1.3'' s' = None"
proof -
  have "case release_ip ipnet_ref ''sub-1'' ''10.1.1.0/24'' ''10.1.1.3'' (ipam_reached ipnet_ref ''sub-1'' ''10.1.1.0/24'' [OpReserve 0]) of
      Inl _ \<Rightarrow> False | Inr _ \<Rightarrow> True" by code_simp
  then obtain s' where
    "release_ip ipnet_ref ''sub-1'' ''10.1.1.0/24'' ''10.1.1.3'' (ipam_reached ipnet_ref ''sub-1'' ''10.1.1.0/24'' [OpReserve 0]) = Inr s'"
    by (auto split: sum.splits)
  with released_address_is_free [OF sample_base this] show ?thesis by blast
qed


end
