(* ===== verification/Network_Properties.thy ===== *)
theory Network_Properties
  imports Machine_Properties Network_Safety Address_Properties
begin

text \<open>
  What the state machine promises of networks along every log: network identifiers, address
  blocks of VPCs and subnets, and names.
\<close>

section \<open>Sample log\<close>

definition net_ctx :: "string \<Rightarrow> node_ctx" where
  "net_ctx tag = sample_ctx\<lparr>ctx_net := ipnet_ref, ctx_hex := (\<lambda>_. tag)\<rparr>"

definition net_log :: log where
  "net_log =
     map (\<lambda>(tag, cmd). (\<lambda>_. net_ctx tag, Basic (OrgCommand cmd)))
       [(''0'', CreateOrg ''acme''), (''1'', CreateProject ''web'' ''acme''),
        (''2'', CreateEnv ''prod'' ''web'' ''acme'' None False []),
        (''3'', CreateVpc ''net-a'' ''10.1.0.0/16'' ''acme'' False),
        (''4'', CreateVpc ''net-b'' ''10.2.0.0/16'' ''acme'' False),
        (''5'', CreateSubnet ''sub-a'' ''net-a'' ''env-2'' (Some ''10.1.0.0/24'')),
        (''6'', CreateSubnet ''sub-b'' ''net-a'' ''env-2'' (Some ''10.1.1.0/24''))]"

definition networks_of :: "org_store \<Rightarrow> (string \<times> vpc_owner) list \<times> (string \<times> string) list" where
  "networks_of s = (map (\<lambda>(i, v). (i, vpc_owner_of v)) (tbl_vpcs s), map (\<lambda>(i, x). (i, sub_vpc_id x)) (tbl_subnets s))"

lemma net_log_networks:
  "networks_of (sm_org (apply_log net_log full_replica)) =
     ([(''vpc-3'', OwnerOrg ''acme''), (''vpc-4'', OwnerOrg ''acme'')], [(''sub-5'', ''vpc-3''), (''sub-6'', ''vpc-3'')])"
  by code_simp

lemma net_log_lib: "list_all (uses_lib ipnet_ref) (log_steps net_log)"
  by (simp add: net_log_def uses_lib_def net_ctx_def)

section \<open>Networks\<close>

text \<open>
  C18: No two VPCs have the same virtual network identifier, in any state reached by fewer
  than \<open>2 ^ 32 - 100\<close> commands; identifiers start at 100 and lie below the stored counter.
\<close>

theorem vnis_unique:
  assumes "length (log_steps l) + 100 < 2 ^ 32"
  shows "vnis_ok (sm_org (apply_log l full_replica))"
proof (rule log_vnis)
  show "unat (vni_counter (sm_org full_replica)) + length (log_steps l) < 2 ^ 32"
    using assms by (simp add: vni_counter_def empty_org_store_def)
qed (simp add: vnis_ok_empty)

theorem vnis_unique_witness: "vnis_ok (sm_org (apply_log net_log full_replica))"
  by (rule vnis_unique) (simp add: net_log_def)

lemma networks_disjoint:
  assumes "ipnet_ok lib" "list_all (uses_lib lib) (log_steps l)"
  shows "vpcs_disjoint lib (sm_org (apply_log l full_replica))" "subnets_disjoint lib (sm_org (apply_log l full_replica))"
  using mi_networks.log_inv [OF _ log_admits_static [OF assms(2)], of full_replica] assms(1)
  by (simp_all add: disjoint_empty)

text \<open>
  C4: Two subnets of one VPC never share an address, whatever mix of given and automatically
  chosen blocks they were created with, in every state a replica reaches.
\<close>

theorem subnets_never_overlap:
  fixes l :: log
  defines "s \<equiv> sm_org (apply_log l full_replica)"
  assumes "ipnet_ok lib" "list_all (uses_lib lib) (log_steps l)"
    and "get_subnet_by_id i s = Some x" "get_subnet_by_id j s = Some y" "i \<noteq> j" "sub_vpc_id x = sub_vpc_id y"
  shows "\<exists>a b. net_parse lib (sub_cidr x) = Some a \<and> net_parse lib (sub_cidr y) = Some b \<and> block a \<inter> block b = {}"
proof -
  have d: "blocks_disjoint lib sub_cidr same_vpc (tbl_subnets s)"
    using networks_disjoint(2) [OF assms(2,3)] by (simp add: s_def subnets_disjoint_def)
  note x = assms(4) [unfolded get_subnet_by_id_def] and y = assms(5) [unfolded get_subnet_by_id_def]
  obtain a b where "net_parse lib (sub_cidr x) = Some a" "net_parse lib (sub_cidr y) = Some b"
    using blocks_disjointD(2) [OF d x] blocks_disjointD(2) [OF d y] by blast
  then show ?thesis using blocks_disjointD(3) [OF d x y assms(6)] assms(7) by (simp add: same_vpc_def)
qed

theorem subnets_never_overlap_witness:
  "\<exists>x y a b. get_subnet_by_id ''sub-5'' (sm_org (apply_log net_log full_replica)) = Some x \<and>
     get_subnet_by_id ''sub-6'' (sm_org (apply_log net_log full_replica)) = Some y \<and>
     net_parse ipnet_ref (sub_cidr x) = Some a \<and> net_parse ipnet_ref (sub_cidr y) = Some b \<and> block a \<inter> block b = {}"
proof -
  obtain x y where t: "tbl_subnets (sm_org (apply_log net_log full_replica)) = [(''sub-5'', x), (''sub-6'', y)]"
    "sub_vpc_id x = sub_vpc_id y"
    using net_log_networks by (auto simp: networks_of_def map_eq_Cons_conv)
  have "\<exists>a b. net_parse ipnet_ref (sub_cidr x) = Some a \<and> net_parse ipnet_ref (sub_cidr y) = Some b \<and> block a \<inter> block b = {}"
    by (rule subnets_never_overlap [OF ipnet_ok_ref net_log_lib, where i = "''sub-5''" and j = "''sub-6''"])
       (simp_all add: get_subnet_by_id_def t db_get_def)
  then show ?thesis by (simp add: get_subnet_by_id_def t(1) db_get_def)
qed



text \<open>
  C32: A VPC is found by its own name: what \<^verbatim>\<open>get_vpc\<close> returns is a stored VPC with exactly
  the name asked for, although the lookup compares the end of the index key only, in every
  state reached with fresh random identifiers.
\<close>

theorem vpc_found_by_name:
  assumes "log_admits ids_fresh l full_replica" "get_vpc n (sm_org (apply_log l full_replica)) = Some v"
  shows "vpc_name v = n \<and> get_vpc_by_id (vpc_id v) (sm_org (apply_log l full_replica)) = Some v"
proof -
  have "vpc_index_ok (sm_org (apply_log l full_replica))"
    by (rule mi_index.log_inv [OF _ assms(1), THEN conjunct1]) (simp add: index_ok_empty)
  from get_vpc_named [OF this assms(2)] show ?thesis by (simp add: get_vpc_by_id_def)
qed

definition name_log :: log where
  "name_log =
     map (\<lambda>(tag, cmd). (\<lambda>_. net_ctx tag, Basic (OrgCommand cmd)))
       [(''0'', CreateOrg ''acme''), (''1'', CreateVpc ''net-b'' ''10.2.0.0/16'' ''acme'' False)]"

theorem vpc_found_by_name_witness:
  "\<exists>v. get_vpc ''net-b'' (sm_org (apply_log name_log full_replica)) = Some v \<and> vpc_name v = ''net-b''"
proof -
  have "log_admits ids_fresh name_log full_replica" by code_simp
  moreover have "get_vpc ''net-b'' (sm_org (apply_log name_log full_replica)) \<noteq> None" by code_simp
  ultimately show ?thesis using vpc_found_by_name by blast
qed

end
