(* ===== verification/Node_Prelude.thy ===== *)
theory Node_Prelude
  imports Rust_Strings
begin

text \<open>
  Shared ground of the node agents (\<^verbatim>\<open>layers/storage\<close>, \<^verbatim>\<open>layers/forge\<close>) and of the
  scheduler: the clock, saturating addition, path joining, and the rule for loops over the
  entries of a hash map in which every pass of the loop touches its own key only.

  A \<^verbatim>\<open>std::time::Instant\<close> is a number of nanoseconds on the monotonic clock and a
  \<^verbatim>\<open>Duration\<close> a number of nanoseconds; an operation that reads the clock takes the
  reading as its argument.  \<^verbatim>\<open>Instant::elapsed\<close> saturates at zero.
\<close>

section \<open>Time and integers\<close>

type_synonym instant = int
type_synonym duration = int

definition from_secs :: "int \<Rightarrow> duration" where
  "from_secs s = s * 1000000000"

definition as_secs :: "duration \<Rightarrow> int" where
  "as_secs d = d div 1000000000"

definition elapsed :: "instant \<Rightarrow> instant \<Rightarrow> duration" where
  "elapsed now since = max 0 (now - since)"

lemma from_secs_le_iff [simp]: "from_secs a \<le> from_secs b \<longleftrightarrow> a \<le> b"
  by (simp add: from_secs_def)

lemma elapsed_mono: "t \<le> t' \<Longrightarrow> elapsed t s \<le> elapsed t' s"
  by (simp add: elapsed_def)

definition saturating_add :: "'a::len word \<Rightarrow> 'a word \<Rightarrow> 'a word" where
  "saturating_add a b = (if a + b < a then - 1 else a + b)"

lemma saturating_add_ge: "a \<le> saturating_add a b"
  by (auto simp: saturating_add_def word_order.extremum)

lemma saturating_add_eq_0: "saturating_add a b = 0 \<longleftrightarrow> a = 0 \<and> b = 0"
  using saturating_add_ge [of a b] by (auto simp: saturating_add_def word_le_0_iff)

section \<open>Paths\<close>

text \<open>
  \<^verbatim>\<open>Path::join\<close>: an absolute second component replaces the first.
\<close>

definition path_join :: "string \<Rightarrow> string \<Rightarrow> string" where
  "path_join base p =
     (if starts_with p ''/'' \<or> base = [] then p
      else if ends_with base ''/'' then base @ p else base @ ''/'' @ p)"

section \<open>Loops over hash maps\<close>

text \<open>
  A loop over the entries of a hash map whose body changes the looked-up value at the key
  of the entry only, as a function of that value, changes every key once, whatever the
  order of the entries.  \<open>P\<close> is what the body relies on and keeps.
\<close>

lemma fold_pointwise:
  fixes look :: "'s \<Rightarrow> 'k \<Rightarrow> 'a"
  assumes step: "\<And>k v s k'. P s \<Longrightarrow> look (f (k, v) s) k' = (if k' = k then F k v (look s k) else look s k')"
    and keeps: "\<And>k v s. P s \<Longrightarrow> P (f (k, v) s)"
    and wf: "hm_wf m" and init: "P s"
  shows "P (fold f m s)"
    and "look (fold f m s) k = (case hget m k of None \<Rightarrow> look s k | Some v \<Rightarrow> F k v (look s k))"
proof -
  show "P (fold f m s)"
    using init by (induction m arbitrary: s) (auto simp: keeps)
  show "look (fold f m s) k = (case hget m k of None \<Rightarrow> look s k | Some v \<Rightarrow> F k v (look s k))"
    using wf init
  proof (induction m arbitrary: s)
    case (Cons e m)
    obtain k1 v1 where e: "e = (k1, v1)" by force
    from Cons.prems have k1: "hget m k1 = None"
      by (auto simp: e map_of_eq_None_iff)
    with Cons show ?case
      by (auto simp: e step keeps split: option.split)
  qed simp
qed

lemma fold_frame_inv: "(\<And>x s. g (f x s) = g s) \<Longrightarrow> g (fold f xs s) = g s"
  by (induction xs arbitrary: s) simp_all

text \<open>Collecting pairs into a hash map: \<^verbatim>\<open>iter.map(|v| (key(v), v)).collect()\<close>.\<close>

definition hcollect :: "('k \<times> 'v) list \<Rightarrow> ('k, 'v) hmap" where
  "hcollect xs = fold (\<lambda>(k, v). hinsert k v) xs []"

lemma hm_wf_fold_hinsert: "hm_wf m \<Longrightarrow> hm_wf (fold (\<lambda>(k, v). hinsert k v) xs m)"
  by (induction xs arbitrary: m) auto

lemma hm_wf_hcollect [simp]: "hm_wf (hcollect xs)"
  by (simp add: hcollect_def hm_wf_fold_hinsert)

lemma hget_fold_hinsert:
  "hget (fold (\<lambda>(k, v). hinsert k v) xs m) = hget m ++ map_of (rev xs)"
  by (induction xs arbitrary: m) (auto simp: fun_eq_iff map_add_def split: option.split)

lemma hget_hcollect: "hget (hcollect xs) = map_of (rev xs)"
  by (simp add: hcollect_def hget_fold_hinsert)

lemma hget_hcollect_distinct:
  assumes "distinct (map fst xs)"
  shows "hget (hcollect xs) = map_of xs"
proof
  fix k
  have "hget (hcollect xs) k = Some v \<longleftrightarrow> map_of xs k = Some v" for v
    using assms by (simp add: hget_hcollect map_of_eq_Some_iff rev_map [symmetric])
  then show "hget (hcollect xs) k = map_of xs k"
    by (metis not_None_eq)
qed

lemma hget_map_snd: "hget (map (\<lambda>e. (fst e, f (snd e))) m) k = map_option f (hget m k)"
  by (induction m) auto

lemma hget_filter_snd:
  "hm_wf m \<Longrightarrow> hget (filter (\<lambda>e. P (snd e)) m) k =
     (case hget m k of Some v \<Rightarrow> if P v then Some v else None | None \<Rightarrow> None)"
proof (induction m)
  case (Cons e m)
  have "fst e \<notin> fst ` set m" using Cons.prems by simp
  then have "hget (filter (\<lambda>e. P (snd e)) m) (fst e) = None"
    by (auto simp: map_of_eq_None_iff)
  with Cons show ?case by (cases e) auto
qed simp

lemma hm_wf_filter: "hm_wf m \<Longrightarrow> hm_wf (filter Q m)"
  by (rule distinct_map_filter)

end
