(* ===== verification/Volume_Health.thy ===== *)
theory Volume_Health
  imports Node_Prelude
begin

text \<open>
  Health of the S3 back end as one node sees it: the per-volume tracker of
  \<^verbatim>\<open>layers/storage/src/volume_mgr.rs\<close> and the outage levels of
  \<^verbatim>\<open>layers/storage/src/s3_health.rs\<close>.
\<close>

section \<open>The tracker of one volume\<close>

datatype volume_health = Healthy | Degraded | HealthError

record s3_health_config =
  hc_degraded_after :: duration
  hc_error_after :: duration
  hc_max_dirty_bytes :: u64

definition default_s3_health_config :: s3_health_config where
  "default_s3_health_config =
     \<lparr>hc_degraded_after = from_secs (5 * 60), hc_error_after = from_secs (30 * 60),
      hc_max_dirty_bytes = 1073741824\<rparr>"

record health_tracker =
  ht_health :: volume_health
  ht_s3_unreachable_since :: "instant option"
  ht_dirty_bytes :: u64
  ht_flush_in_progress :: bool

definition new_tracker :: health_tracker where
  "new_tracker =
     \<lparr>ht_health = Healthy, ht_s3_unreachable_since = None, ht_dirty_bytes = 0,
      ht_flush_in_progress = False\<rparr>"

definition recompute_health :: "s3_health_config \<Rightarrow> instant \<Rightarrow> health_tracker \<Rightarrow> health_tracker" where
  "recompute_health cfg now t =
     (case ht_s3_unreachable_since t of
        None \<Rightarrow> t
      | Some since \<Rightarrow>
          if elapsed now since \<ge> hc_error_after cfg then t\<lparr>ht_health := HealthError\<rparr>
          else if elapsed now since \<ge> hc_degraded_after cfg then t\<lparr>ht_health := Degraded\<rparr>
          else t)"

definition record_s3_unreachable :: "s3_health_config \<Rightarrow> instant \<Rightarrow> health_tracker \<Rightarrow> health_tracker" where
  "record_s3_unreachable cfg now t =
     recompute_health cfg now
       (if ht_s3_unreachable_since t = None then t\<lparr>ht_s3_unreachable_since := Some now\<rparr> else t)"

definition record_s3_reachable :: "health_tracker \<Rightarrow> health_tracker" where
  "record_s3_reachable t =
     (let t1 = t\<lparr>ht_s3_unreachable_since := None\<rparr>
      in if ht_dirty_bytes t1 > 0
         then let t2 = t1\<lparr>ht_flush_in_progress := True\<rparr>
              in if ht_health t2 = HealthError then t2\<lparr>ht_health := Degraded\<rparr> else t2
         else t1\<lparr>ht_health := Healthy, ht_flush_in_progress := False\<rparr>)"

definition tracker_add_dirty :: "u64 \<Rightarrow> health_tracker \<Rightarrow> health_tracker" where
  "tracker_add_dirty n t = t\<lparr>ht_dirty_bytes := saturating_add (ht_dirty_bytes t) n\<rparr>"

definition flush_bytes :: "u64 \<Rightarrow> health_tracker \<Rightarrow> health_tracker" where
  "flush_bytes n t =
     (let t1 = t\<lparr>ht_dirty_bytes := saturating_sub (ht_dirty_bytes t) n\<rparr>
      in if ht_dirty_bytes t1 = 0
         then let t2 = t1\<lparr>ht_flush_in_progress := False\<rparr>
              in if ht_s3_unreachable_since t2 = None then t2\<lparr>ht_health := Healthy\<rparr> else t2
         else t1)"

definition can_accept_write :: "s3_health_config \<Rightarrow> health_tracker \<Rightarrow> bool" where
  "can_accept_write cfg t \<longleftrightarrow>
     ht_health t \<noteq> HealthError \<and> ht_dirty_bytes t < hc_max_dirty_bytes cfg"

lemmas tracker_defs = recompute_health_def record_s3_unreachable_def record_s3_reachable_def
  tracker_add_dirty_def flush_bytes_def

section \<open>Runs of a tracker\<close>

text \<open>
  The events that reach a tracker, each with the clock reading of its call.  A write is
  recorded only when \<^verbatim>\<open>check_write_allowed\<close> let it through.
\<close>

datatype health_event = ProbeFailed | ProbeOk | Write u64 | Flushed u64

fun health_step :: "s3_health_config \<Rightarrow> instant \<times> health_event \<Rightarrow> health_tracker \<Rightarrow> health_tracker" where
  "health_step cfg (now, ProbeFailed) t = record_s3_unreachable cfg now t"
| "health_step cfg (now, ProbeOk) t = record_s3_reachable t"
| "health_step cfg (now, Write n) t = (if can_accept_write cfg t then tracker_add_dirty n t else t)"
| "health_step cfg (now, Flushed n) t = flush_bytes n t"

definition health_run :: "s3_health_config \<Rightarrow> (instant \<times> health_event) list \<Rightarrow> health_tracker" where
  "health_run cfg es = fold (health_step cfg) es new_tracker"

definition is_probe_ok :: "instant \<times> health_event \<Rightarrow> bool" where
  "is_probe_ok e \<longleftrightarrow> snd e = ProbeOk"

definition is_probe_failed :: "instant \<times> health_event \<Rightarrow> bool" where
  "is_probe_failed e \<longleftrightarrow> snd e = ProbeFailed"

text \<open>
  The outage a tracker is in: the reading of the first failed probe since the last
  successful one.
\<close>

definition outage_start :: "(instant \<times> health_event) list \<Rightarrow> instant option" where
  "outage_start es =
     map_option fst (List.find is_probe_failed (rev (takeWhile (\<lambda>e. \<not> is_probe_ok e) (rev es))))"

lemma find_snoc: "List.find P (xs @ [x]) = (case List.find P xs of None \<Rightarrow> if P x then Some x else None | Some y \<Rightarrow> Some y)"
  by (induction xs) auto

lemma outage_start_snoc:
  "outage_start (es @ [e]) =
     (if is_probe_ok e then None
      else case outage_start es of None \<Rightarrow> if is_probe_failed e then Some (fst e) else None | Some t \<Rightarrow> Some t)"
  by (auto simp: outage_start_def find_snoc split: option.split)

lemma health_run_snoc: "health_run cfg (es @ [e]) = health_step cfg e (health_run cfg es)"
  by (simp add: health_run_def)

text \<open>
  What every run keeps: the tracker's timer is the start of the outage; a volume is in
  error, or has anything but a healthy state, only during an outage or while the backlog of
  one drains; and a flush is in progress only while there is a backlog.
\<close>

definition tracker_ok :: "health_tracker \<Rightarrow> bool" where
  "tracker_ok t \<longleftrightarrow>
     (ht_health t = HealthError \<longrightarrow> ht_s3_unreachable_since t \<noteq> None) \<and>
     (ht_health t \<noteq> Healthy \<longrightarrow> ht_s3_unreachable_since t \<noteq> None \<or> ht_dirty_bytes t > 0) \<and>
     (ht_flush_in_progress t \<longrightarrow> ht_dirty_bytes t > 0)"

lemma tracker_ok_step: "tracker_ok t \<Longrightarrow> tracker_ok (health_step cfg e t)"
  by (cases e; cases "snd e")
     (auto simp: tracker_ok_def tracker_defs Let_def word_neq_0_conv [symmetric] saturating_add_eq_0
       split: option.split)

lemma tracker_ok_run: "tracker_ok (health_run cfg es)"
  by (induction es rule: rev_induct)
     (simp_all add: health_run_snoc tracker_ok_step, simp add: health_run_def new_tracker_def tracker_ok_def)

lemma timer_step:
  "ht_s3_unreachable_since (health_step cfg e t) =
     (if is_probe_ok e then None
      else case ht_s3_unreachable_since t of
             None \<Rightarrow> if is_probe_failed e then Some (fst e) else None | Some s \<Rightarrow> Some s)"
  by (cases e; cases "snd e")
     (auto simp: tracker_defs Let_def is_probe_ok_def is_probe_failed_def split: option.split)

lemma timer_run: "ht_s3_unreachable_since (health_run cfg es) = outage_start es"
proof (induction es rule: rev_induct)
  case Nil
  show ?case by (simp add: health_run_def outage_start_def new_tracker_def)
next
  case (snoc e es)
  then show ?case by (simp add: health_run_snoc timer_step outage_start_snoc)
qed

text \<open>
  After a failed probe the state is a function of the length of the outage alone, once the
  outage is long enough to be classified.
\<close>

lemma failed_probe_health:
  assumes "outage_start (es @ [(now, ProbeFailed)]) = Some s"
  shows "ht_health (health_run cfg (es @ [(now, ProbeFailed)])) =
     (if elapsed now s \<ge> hc_error_after cfg then HealthError
      else if elapsed now s \<ge> hc_degraded_after cfg then Degraded
      else ht_health (health_run cfg es))"
proof -
  let ?t = "health_run cfg es"
  have "ht_s3_unreachable_since ?t = None \<and> s = now \<or> ht_s3_unreachable_since ?t = Some s"
    using assms by (auto simp: timer_run outage_start_snoc is_probe_ok_def is_probe_failed_def split: option.splits)
  then show ?thesis
    by (auto simp: health_run_snoc record_s3_unreachable_def recompute_health_def)
qed

section \<open>Outage levels\<close>

datatype s3_degradation_level = LvlHealthy | LvlFsyncBlocking | LvlEio | LvlDegraded | LvlError

record s3_health_thresholds =
  th_fsync_block :: duration
  th_eio :: duration
  th_degraded :: duration
  th_error :: duration
  th_probe_interval :: duration

definition default_thresholds :: s3_health_thresholds where
  "default_thresholds =
     \<lparr>th_fsync_block = from_secs 30, th_eio = from_secs (5 * 60), th_degraded = from_secs (15 * 60),
      th_error = from_secs (30 * 60), th_probe_interval = from_secs 30\<rparr>"

definition classify_outage :: "s3_health_thresholds \<Rightarrow> duration \<Rightarrow> s3_degradation_level" where
  "classify_outage th outage =
     (if outage \<ge> th_error th then LvlError
      else if outage \<ge> th_degraded th then LvlDegraded
      else if outage \<ge> th_eio th then LvlEio
      else if outage \<ge> th_fsync_block th then LvlFsyncBlocking
      else LvlHealthy)"

fun level_rank :: "s3_degradation_level \<Rightarrow> nat" where
  "level_rank LvlHealthy = 0"
| "level_rank LvlFsyncBlocking = 1"
| "level_rank LvlEio = 2"
| "level_rank LvlDegraded = 3"
| "level_rank LvlError = 4"

lemma classify_mono: "d \<le> d' \<Longrightarrow> level_rank (classify_outage th d) \<le> level_rank (classify_outage th d')"
  by (auto simp: classify_outage_def)

text \<open>One round of the probe loop: the snapshot it publishes and its outage timer.\<close>

record s3_health_snapshot =
  hs_reachable :: bool
  hs_put_latency_ms :: "u64 option"
  hs_get_latency_ms :: "u64 option"
  hs_level :: s3_degradation_level
  hs_outage_secs :: int
  hs_last_error :: "string option"

definition initial_snapshot :: s3_health_snapshot where
  "initial_snapshot =
     \<lparr>hs_reachable = False, hs_put_latency_ms = None, hs_get_latency_ms = None, hs_level = LvlHealthy,
      hs_outage_secs = 0, hs_last_error = None\<rparr>"

definition sanitize_error :: "string \<Rightarrow> string" where
  "sanitize_error err =
     (let sanitized = take 256 (filter (\<lambda>c. c \<noteq> CHR 0x27 \<and> c \<noteq> CHR 0x22) err);
          lower = map lower_char sanitized
      in if contains_str lower ''secret'' \<or> contains_str lower ''authorization'' \<or>
            contains_str lower ''credential''
         then ''S3 authentication error (details redacted for security)''
         else sanitized)"

definition probe_round ::
    "s3_health_thresholds \<Rightarrow> instant \<Rightarrow> string + u64 \<times> u64 \<Rightarrow> instant option \<Rightarrow>
     instant option \<times> s3_health_snapshot" where
  "probe_round th now result start =
     (case result of
        Inr (put_ms, get_ms) \<Rightarrow>
          (None, \<lparr>hs_reachable = True, hs_put_latency_ms = Some put_ms, hs_get_latency_ms = Some get_ms,
                  hs_level = LvlHealthy, hs_outage_secs = 0, hs_last_error = None\<rparr>)
      | Inl e \<Rightarrow>
          let s = (case start of Some s \<Rightarrow> s | None \<Rightarrow> now);
              outage = elapsed now s
          in (Some s, \<lparr>hs_reachable = False, hs_put_latency_ms = None, hs_get_latency_ms = None,
                       hs_level = classify_outage th outage, hs_outage_secs = as_secs outage,
                       hs_last_error = Some (sanitize_error e)\<rparr>))"

text \<open>\<^verbatim>\<open>build_s3_url\<close>: \<^verbatim>\<open>trim_end_matches\<close> removes all trailing slashes.\<close>

definition build_s3_url :: "string \<Rightarrow> string \<Rightarrow> string \<Rightarrow> string" where
  "build_s3_url endpoint bucket key =
     rev (dropWhile (\<lambda>c. c = CHR ''/'') (rev endpoint)) @ ''/'' @ bucket @ ''/'' @ key"

end
