(* ===== verification/Volume_Manager.thy ===== *)
theory Volume_Manager
  imports Volume_Health
begin

text \<open>
  The process supervisor of one node, \<^verbatim>\<open>layers/storage/src/volume_mgr.rs\<close>, with the
  resolution of the ZeroFS binary (\<^verbatim>\<open>binary.rs\<close>) and the checks on cache directories
  (\<^verbatim>\<open>cache.rs\<close>).

  The operating system is the parameter \<open>host\<close>: what each call of the source to the file
  system or to a process returns.  \<open>node\<close> pairs the manager with the ZeroFS processes that
  are really alive, so that a process the manager no longer tracks stays visible in the
  model.  The text of \<^verbatim>\<open>zerofs.toml\<close> is not modelled except for the object-store location
  it names.
\<close>

section \<open>The host\<close>

datatype cmd_result = CmdNotRun string | CmdFailed string | CmdOk string

datatype wait_result = WaitExited | WaitFailed string | WaitTimedOut

record host =
  h_is_executable :: "string \<Rightarrow> bool"
  h_exists :: "string \<Rightarrow> bool"
  h_which :: "string \<Rightarrow> string option"
  h_create_dir :: "string \<Rightarrow> string option"
  h_set_mode :: "string \<Rightarrow> nat \<Rightarrow> string option"
  h_write :: "string \<Rightarrow> string option"
  h_spawn :: "string \<Rightarrow> string list \<Rightarrow> string option"
  h_appears :: "string \<Rightarrow> duration \<Rightarrow> bool"
  h_command :: "string \<Rightarrow> string list \<Rightarrow> cmd_result"
  h_wait :: "nat \<Rightarrow> wait_result"
  h_kill :: "nat \<Rightarrow> string option"
  h_try_wait_fails :: "nat \<Rightarrow> bool"

definition resolve_binary :: "host \<Rightarrow> string option \<Rightarrow> string + string" where
  "resolve_binary h explicit =
     (let rest =
        (let installed = ''/usr/local/lib/syfrah/zerofs''
         in if h_is_executable h installed then Inr installed
            else (case h_which h ''zerofs'' of
                   Some p \<Rightarrow> if h_is_executable h p then Inr p
                             else Inl ''zerofs not found (checked $PATH and /usr/local/lib/syfrah/zerofs)''
                 | None \<Rightarrow> Inl ''zerofs not found (checked $PATH and /usr/local/lib/syfrah/zerofs)''))
      in case explicit of
           None \<Rightarrow> rest
         | Some p \<Rightarrow>
             if h_is_executable h p then Inr p
             else if \<not> h_exists h p then Inl (''configured zerofs binary not found: '' @ p)
             else rest)"

section \<open>Manager and node\<close>

datatype volume_mgr_error =
    AlreadyRunning string | NotRunning string | WriteRejected string | BinaryError string
  | SpawnFailed string | SocketTimeout duration | MountFailed string | StopFailed string
  | CheckpointFailed string

record s3_config =
  s3_endpoint :: string
  s3_bucket :: string
  s3_access_key :: string
  s3_secret_key :: string

record s3_env =
  env_access_key :: string
  env_secret_key :: string
  env_encryption_passphrase :: string

text \<open>A pre-warming task is seen through its handle: whether it is done, and the
  cancellation flag.\<close>

record prewarm_handle =
  pw_done :: bool
  pw_cancelled :: bool

record prewarm_config =
  pc_enabled :: bool
  pc_bandwidth_mb :: u32

definition default_prewarm_config :: prewarm_config where
  "default_prewarm_config = \<lparr>pc_enabled = True, pc_bandwidth_mb = 100\<rparr>"

record volume_process =
  vp_child :: nat
  vp_mount_point :: string
  vp_config_path :: string
  vp_generation :: u64
  vp_s3_env :: s3_env
  vp_health_tracker :: health_tracker
  vp_prewarm_handle :: "prewarm_handle option"

record volume_mgr =
  mg_processes :: "(string, volume_process) hmap"
  mg_binary_override :: "string option"
  mg_volumes_base :: string
  mg_s3_health_config :: s3_health_config
  mg_prewarm_config :: prewarm_config

definition new_volume_mgr :: volume_mgr where
  "new_volume_mgr =
     \<lparr>mg_processes = [], mg_binary_override = None, mg_volumes_base = ''/var/lib/syfrah/volumes'',
      mg_s3_health_config = default_s3_health_config, mg_prewarm_config = default_prewarm_config\<rparr>"

record node =
  nd_mgr :: volume_mgr
  nd_live :: "(nat, string \<times> u64) hmap"
  nd_next_pid :: nat

definition new_node :: node where
  "new_node = \<lparr>nd_mgr = new_volume_mgr, nd_live = [], nd_next_pid = 1\<rparr>"

definition map_processes ::
    "((string, volume_process) hmap \<Rightarrow> (string, volume_process) hmap) \<Rightarrow> node \<Rightarrow> node" where
  "map_processes f nd = nd\<lparr>nd_mgr := (nd_mgr nd)\<lparr>mg_processes := f (mg_processes (nd_mgr nd))\<rparr>\<rparr>"

abbreviation processes :: "node \<Rightarrow> (string, volume_process) hmap" where
  "processes nd \<equiv> mg_processes (nd_mgr nd)"

definition end_process :: "nat \<Rightarrow> node \<Rightarrow> node" where
  "end_process pid nd = nd\<lparr>nd_live := hremove pid (nd_live nd)\<rparr>"

section \<open>Queries\<close>

definition is_running :: "node \<Rightarrow> string \<Rightarrow> bool" where
  "is_running nd i \<longleftrightarrow> hcontains (processes nd) i"

definition get_generation :: "node \<Rightarrow> string \<Rightarrow> u64 option" where
  "get_generation nd i = map_option vp_generation (hget (processes nd) i)"

definition get_mount_path :: "node \<Rightarrow> string \<Rightarrow> string option" where
  "get_mount_path nd i = map_option vp_mount_point (hget (processes nd) i)"

definition list_active :: "node \<Rightarrow> (string \<times> u64) list" where
  "list_active nd = map (\<lambda>(i, p). (i, vp_generation p)) (processes nd)"

section \<open>Starting\<close>

definition socket_wait_timeout :: duration where
  "socket_wait_timeout = from_secs 30"

definition socket_poll_interval :: duration where
  "socket_poll_interval = 200 * 1000000"

text \<open>The polling loop of \<^verbatim>\<open>wait_for_path\<close>, \<open>t\<close> after its start.\<close>

function wait_for_path :: "(duration \<Rightarrow> bool) \<Rightarrow> duration \<Rightarrow> bool" where
  "wait_for_path appears t =
     (if t < socket_wait_timeout
      then if appears t then True else wait_for_path appears (t + socket_poll_interval)
      else False)"
  by pat_completeness auto
termination
  by (relation "measure (\<lambda>(_, t). nat (socket_wait_timeout - t))")
     (auto simp: socket_poll_interval_def socket_wait_timeout_def from_secs_def)

declare wait_for_path.simps [simp del]

lemma wait_for_path_iff:
  "wait_for_path appears t \<longleftrightarrow>
     (\<exists>n :: nat. t + int n * socket_poll_interval < socket_wait_timeout \<and> appears (t + int n * socket_poll_interval))"
proof (induction appears t rule: wait_for_path.induct)
  case (1 appears t)
  show ?case
  proof (cases "t < socket_wait_timeout")
    case True
    have "(\<exists>n. P n) \<longleftrightarrow> P 0 \<or> (\<exists>n. P (Suc n))" for P :: "nat \<Rightarrow> bool"
      by (metis not0_implies_Suc)
    from this [of "\<lambda>n. t + int n * socket_poll_interval < socket_wait_timeout \<and> appears (t + int n * socket_poll_interval)"]
    show ?thesis
      using 1 True by (subst wait_for_path.simps) (simp add: algebra_simps)
  next
    case False
    moreover have "0 \<le> int n * socket_poll_interval" for n
      by (simp add: socket_poll_interval_def)
    ultimately show ?thesis by (subst wait_for_path.simps) (simp add: not_less, meson add_increasing2 le_less_trans not_less)
  qed
qed

lemma wait_for_path_now [simp]: "appears 0 \<Longrightarrow> wait_for_path appears 0"
  by (subst wait_for_path.simps) (simp add: socket_wait_timeout_def from_secs_def)

text \<open>The directories and files that are written before the process is spawned.\<close>

definition config_dir :: "string \<Rightarrow> string" where
  "config_dir i = ''/tmp/syfrah/'' @ i"

definition prepare_volume :: "host \<Rightarrow> string \<Rightarrow> string \<Rightarrow> volume_mgr_error option" where
  "prepare_volume h i mount_point =
     (let config_path = path_join (config_dir i) ''zerofs.toml''
      in case h_create_dir h (config_dir i) of
        Some e \<Rightarrow> Some (SpawnFailed (''failed to create config dir: '' @ e))
      | None \<Rightarrow>
     (case h_set_mode h (config_dir i) 448 of
        Some e \<Rightarrow> Some (SpawnFailed (''failed to set config dir permissions: '' @ e))
      | None \<Rightarrow>
     (case h_write h config_path of
        Some e \<Rightarrow> Some (SpawnFailed (''failed to write zerofs.toml: '' @ e))
      | None \<Rightarrow>
     (case h_set_mode h config_path 384 of
        Some e \<Rightarrow> Some (SpawnFailed (''failed to set config file permissions: '' @ e))
      | None \<Rightarrow>
     (case h_create_dir h mount_point of
        Some e \<Rightarrow> Some (MountFailed (''failed to create mount point: '' @ e))
      | None \<Rightarrow> None)))))"

text \<open>The object-store prefix a process of generation \<open>g\<close> writes to (\<^verbatim>\<open>generate_config\<close>).\<close>

definition volume_s3_url :: "string \<Rightarrow> string \<Rightarrow> u64 \<Rightarrow> string" where
  "volume_s3_url bucket i g =
     ''s3://'' @ bucket @ ''/volumes/'' @ i @ ''/gen-'' @ show_nat (unat g) @ ''/''"

text \<open>
  The common course of \<^verbatim>\<open>start_volume\<close> and \<^verbatim>\<open>restore_from_checkpoint\<close>, which differ in
  the arguments of the process and the mount options.  When the \<^verbatim>\<open>mount\<close> command cannot be
  executed at all the source returns through \<^verbatim>\<open>?\<close> without killing the child.
\<close>

definition launch ::
    "host \<Rightarrow> string list \<Rightarrow> string \<Rightarrow> string \<Rightarrow> s3_config \<Rightarrow> string \<Rightarrow> u64 \<Rightarrow> node \<Rightarrow>
     node \<times> (volume_mgr_error + string)" where
  "launch h extra_args mount_opts i s3 passphrase gen nd =
     (if hcontains (processes nd) i then (nd, Inl (AlreadyRunning i))
      else (case resolve_binary h (mg_binary_override (nd_mgr nd)) of
        Inl e \<Rightarrow> (nd, Inl (BinaryError e))
      | Inr bin \<Rightarrow>
     (let mount_point = path_join (mg_volumes_base (nd_mgr nd)) i;
          config_path = path_join (config_dir i) ''zerofs.toml'';
          socket = config_dir i @ ''/zerofs.9p.sock''
     in (case prepare_volume h i mount_point of
        Some e \<Rightarrow> (nd, Inl e)
      | None \<Rightarrow>
     (case h_spawn h bin ([''run'', ''-c'', config_path] @ extra_args) of
        Some e \<Rightarrow> (nd, Inl (SpawnFailed e))
      | None \<Rightarrow>
     (let pid = nd_next_pid nd;
          nd1 = nd\<lparr>nd_live := hinsert pid (i, gen) (nd_live nd), nd_next_pid := pid + 1\<rparr>
     in if \<not> wait_for_path (h_appears h socket) 0
        then (end_process pid nd1, Inl (SocketTimeout socket_wait_timeout))
        else (case h_command h ''mount'' [''-t'', ''9p'', ''-o'', mount_opts, socket, mount_point] of
          CmdNotRun e \<Rightarrow> (nd1, Inl (MountFailed (''mount command failed to execute: '' @ e)))
        | CmdFailed e \<Rightarrow> (end_process pid nd1, Inl (MountFailed (''mount -t 9p failed: '' @ e)))
        | CmdOk _ \<Rightarrow>
            (map_processes (hinsert i
               \<lparr>vp_child = pid, vp_mount_point = mount_point, vp_config_path = config_path,
                vp_generation = gen,
                vp_s3_env = \<lparr>env_access_key = s3_access_key s3, env_secret_key = s3_secret_key s3,
                             env_encryption_passphrase = passphrase\<rparr>,
                vp_health_tracker = new_tracker, vp_prewarm_handle = None\<rparr>) nd1,
             Inr mount_point))))))))"

definition start_prewarm :: "string \<Rightarrow> node \<Rightarrow> node" where
  "start_prewarm i nd =
     (case hget (processes nd) i of
        None \<Rightarrow> nd
      | Some p \<Rightarrow>
          if (case vp_prewarm_handle p of Some w \<Rightarrow> \<not> pw_done w | None \<Rightarrow> False) then nd
          else map_processes
                 (hinsert i (p\<lparr>vp_prewarm_handle := Some \<lparr>pw_done = False, pw_cancelled = False\<rparr>\<rparr>)) nd)"

definition cancel_prewarm :: "string \<Rightarrow> node \<Rightarrow> node" where
  "cancel_prewarm i nd =
     (case hget (processes nd) i of
        None \<Rightarrow> nd
      | Some p \<Rightarrow> map_processes (hinsert i (p\<lparr>vp_prewarm_handle := None\<rparr>)) nd)"

definition start_volume ::
    "host \<Rightarrow> string \<Rightarrow> s3_config \<Rightarrow> string \<Rightarrow> u64 \<Rightarrow> node \<Rightarrow> node \<times> (volume_mgr_error + string)" where
  "start_volume h i s3 passphrase gen nd =
     (case launch h [] ''trans=unix,version=9p2000.L'' i s3 passphrase gen nd of
        (nd1, Inl e) \<Rightarrow> (nd1, Inl e)
      | (nd1, Inr mount_point) \<Rightarrow>
          (if gen > 1 \<and> pc_enabled (mg_prewarm_config (nd_mgr nd1)) then start_prewarm i nd1 else nd1,
           Inr mount_point))"

definition restore_from_checkpoint ::
    "host \<Rightarrow> string \<Rightarrow> string \<Rightarrow> s3_config \<Rightarrow> string \<Rightarrow> u64 \<Rightarrow> node \<Rightarrow>
     node \<times> (volume_mgr_error + string)" where
  "restore_from_checkpoint h i checkpoint_name s3 passphrase gen nd =
     launch h [''--checkpoint'', checkpoint_name, ''--read-only'']
       ''trans=unix,version=9p2000.L,ro'' i s3 passphrase gen nd"

section \<open>Stopping\<close>

text \<open>Both kinds of stop remove the record first; the unmount and the removal of the mount
  point are best effort.\<close>

definition stop_volume :: "host \<Rightarrow> string \<Rightarrow> node \<Rightarrow> node \<times> volume_mgr_error option" where
  "stop_volume h i nd =
     (case hget (processes nd) i of
        None \<Rightarrow> (nd, Some (NotRunning i))
      | Some p \<Rightarrow>
          let nd1 = map_processes (hremove i) nd
          in (case h_wait h (vp_child p) of
               WaitExited \<Rightarrow> (end_process (vp_child p) nd1, None)
             | WaitFailed e \<Rightarrow> (nd1, Some (StopFailed (''error waiting for process: '' @ e)))
             | WaitTimedOut \<Rightarrow>
                 (case h_kill h (vp_child p) of
                    Some e \<Rightarrow> (nd1, Some (StopFailed (''SIGKILL failed: '' @ e)))
                  | None \<Rightarrow> (end_process (vp_child p) nd1, None))))"

definition stop_volume_flush :: "host \<Rightarrow> string \<Rightarrow> bool \<Rightarrow> node \<Rightarrow> node \<times> volume_mgr_error option" where
  "stop_volume_flush h i flush nd =
     (if \<not> flush
      then (case hget (processes nd) i of
              None \<Rightarrow> (nd, Some (NotRunning i))
            | Some p \<Rightarrow>
                let nd1 = map_processes (hremove i) nd
                in (case h_kill h (vp_child p) of
                      Some e \<Rightarrow> (nd1, Some (StopFailed (''SIGKILL failed: '' @ e)))
                    | None \<Rightarrow> (end_process (vp_child p) nd1, None)))
      else stop_volume h i nd)"

definition self_fence_stale :: "host \<Rightarrow> string \<Rightarrow> u64 \<Rightarrow> node \<Rightarrow> node \<times> (volume_mgr_error + bool)" where
  "self_fence_stale h i current_generation nd =
     (case get_generation nd i of
        None \<Rightarrow> (nd, Inr False)
      | Some local_gen \<Rightarrow>
          if local_gen \<ge> current_generation then (nd, Inr False)
          else (case stop_volume_flush h i False nd of
                  (nd1, Some e) \<Rightarrow> (nd1, Inl e)
                | (nd1, None) \<Rightarrow> (nd1, Inr True)))"

definition has_exited :: "host \<Rightarrow> node \<Rightarrow> volume_process \<Rightarrow> bool" where
  "has_exited h nd p \<longleftrightarrow> \<not> hcontains (nd_live nd) (vp_child p) \<or> h_try_wait_fails h (vp_child p)"

definition reap_exited :: "host \<Rightarrow> node \<Rightarrow> node \<times> string list" where
  "reap_exited h nd =
     (let exited = map fst (filter (\<lambda>(_, p). has_exited h nd p) (processes nd))
      in (map_processes (fold hremove exited) nd, exited))"

section \<open>Health and checkpoints\<close>

definition on_tracker :: "(health_tracker \<Rightarrow> health_tracker) \<Rightarrow> volume_process \<Rightarrow> volume_process" where
  "on_tracker f p = p\<lparr>vp_health_tracker := f (vp_health_tracker p)\<rparr>"

definition probe_tracker :: "s3_health_config \<Rightarrow> instant \<Rightarrow> bool \<Rightarrow> health_tracker \<Rightarrow> health_tracker" where
  "probe_tracker cfg now reachable =
     (if reachable then record_s3_reachable else record_s3_unreachable cfg now)"

definition update_tracker :: "string \<Rightarrow> (health_tracker \<Rightarrow> health_tracker) \<Rightarrow> node \<Rightarrow> node" where
  "update_tracker i f nd =
     (case hget (processes nd) i of
        None \<Rightarrow> nd
      | Some p \<Rightarrow> map_processes (hinsert i (on_tracker f p)) nd)"

definition record_s3_probe :: "instant \<Rightarrow> string \<Rightarrow> bool \<Rightarrow> node \<Rightarrow> node" where
  "record_s3_probe now i reachable nd =
     update_tracker i (probe_tracker (mg_s3_health_config (nd_mgr nd)) now reachable) nd"

definition record_s3_probe_all :: "instant \<Rightarrow> bool \<Rightarrow> node \<Rightarrow> node" where
  "record_s3_probe_all now reachable nd =
     map_processes
       (map (\<lambda>(i, p). (i, on_tracker (probe_tracker (mg_s3_health_config (nd_mgr nd)) now reachable) p))) nd"

definition check_write_allowed :: "node \<Rightarrow> string \<Rightarrow> volume_mgr_error option" where
  "check_write_allowed nd i =
     (case hget (processes nd) i of
        None \<Rightarrow> Some (NotRunning i)
      | Some p \<Rightarrow>
          if can_accept_write (mg_s3_health_config (nd_mgr nd)) (vp_health_tracker p) then None
          else Some (WriteRejected i))"

definition add_dirty_bytes :: "string \<Rightarrow> u64 \<Rightarrow> node \<Rightarrow> node" where
  "add_dirty_bytes i n nd = update_tracker i (tracker_add_dirty n) nd"

definition record_flush :: "string \<Rightarrow> u64 \<Rightarrow> node \<Rightarrow> node" where
  "record_flush i n nd = update_tracker i (flush_bytes n) nd"

definition volume_health_of :: "node \<Rightarrow> string \<Rightarrow> volume_health option" where
  "volume_health_of nd i = map_option (\<lambda>p. ht_health (vp_health_tracker p)) (hget (processes nd) i)"

definition total_dirty_bytes :: "node \<Rightarrow> u64" where
  "total_dirty_bytes nd = sum_list (map (\<lambda>p. ht_dirty_bytes (vp_health_tracker p)) (hvalues (processes nd)))"

record volume_health_report =
  vr_volume_id :: string
  vr_health :: volume_health
  vr_dirty_bytes :: u64
  vr_flush_in_progress :: bool

definition health_reports :: "node \<Rightarrow> volume_health_report list" where
  "health_reports nd =
     map (\<lambda>(i, p). let t = vp_health_tracker p
                   in \<lparr>vr_volume_id = i, vr_health = ht_health t, vr_dirty_bytes = ht_dirty_bytes t,
                       vr_flush_in_progress = ht_flush_in_progress t\<rparr>) (processes nd)"

definition checkpoint_command ::
    "host \<Rightarrow> string \<Rightarrow> string \<Rightarrow> string list \<Rightarrow> node \<Rightarrow> volume_mgr_error + string" where
  "checkpoint_command h what i rest nd =
     (case hget (processes nd) i of
        None \<Rightarrow> Inl (NotRunning i)
      | Some p \<Rightarrow>
          (case resolve_binary h (mg_binary_override (nd_mgr nd)) of
             Inl e \<Rightarrow> Inl (BinaryError e)
           | Inr bin \<Rightarrow>
               (case h_command h bin ([''checkpoint'', what, ''-c'', vp_config_path p] @ rest) of
                  CmdNotRun e \<Rightarrow> Inl (CheckpointFailed (''failed to run zerofs checkpoint '' @ what @ '': '' @ e))
                | CmdFailed e \<Rightarrow> Inl (CheckpointFailed (''zerofs checkpoint '' @ what @ '' failed: '' @ e))
                | CmdOk out \<Rightarrow> Inr out)))"

definition capture_manifest :: "host \<Rightarrow> string \<Rightarrow> string \<Rightarrow> node \<Rightarrow> volume_mgr_error + unit" where
  "capture_manifest h i snapshot_name nd =
     (case checkpoint_command h ''create'' i [snapshot_name] nd of Inl e \<Rightarrow> Inl e | Inr _ \<Rightarrow> Inr ())"

definition list_checkpoints :: "host \<Rightarrow> string \<Rightarrow> node \<Rightarrow> volume_mgr_error + string" where
  "list_checkpoints h i nd = checkpoint_command h ''list'' i [] nd"

section \<open>Effect on the tracked generations\<close>

lemma map_processes_sel [simp]:
  "processes (map_processes f nd) = f (processes nd)"
  "nd_live (map_processes f nd) = nd_live nd"
  "nd_next_pid (map_processes f nd) = nd_next_pid nd"
  "mg_binary_override (nd_mgr (map_processes f nd)) = mg_binary_override (nd_mgr nd)"
  "mg_volumes_base (nd_mgr (map_processes f nd)) = mg_volumes_base (nd_mgr nd)"
  "mg_prewarm_config (nd_mgr (map_processes f nd)) = mg_prewarm_config (nd_mgr nd)"
  "mg_s3_health_config (nd_mgr (map_processes f nd)) = mg_s3_health_config (nd_mgr nd)"
  by (simp_all add: map_processes_def)

lemma end_process_sel [simp]:
  "nd_mgr (end_process pid nd) = nd_mgr nd"
  "nd_live (end_process pid nd) = hremove pid (nd_live nd)"
  "nd_next_pid (end_process pid nd) = nd_next_pid nd"
  by (simp_all add: end_process_def)

lemma is_running_iff: "is_running nd i \<longleftrightarrow> get_generation nd i \<noteq> None"
  by (simp add: is_running_def get_generation_def)

lemma list_active_lookup: "map_of (list_active nd) i = get_generation nd i"
  by (simp add: list_active_def get_generation_def map_of_map)

lemma get_generation_start_prewarm [simp]: "get_generation (start_prewarm i nd) = get_generation nd"
  by (auto simp: start_prewarm_def get_generation_def fun_eq_iff split: option.split)

lemma launch_result:
  assumes "launch h args opts i s3 pw gen nd = (nd', r)"
  shows "get_generation nd' = (if isl r then get_generation nd else (get_generation nd)(i \<mapsto> gen))"
    and "\<not> isl r \<Longrightarrow> get_generation nd i = None"
  using assms
  by (auto simp: launch_def get_generation_def Let_def fun_eq_iff
      split: if_splits sum.splits option.splits cmd_result.splits)

lemma start_volume_result:
  assumes "start_volume h i s3 pw gen nd = (nd', r)"
  shows "get_generation nd' = (if isl r then get_generation nd else (get_generation nd)(i \<mapsto> gen))"
  using assms launch_result(1) [of h "[]" "''trans=unix,version=9p2000.L''" i s3 pw gen nd]
  by (auto simp: start_volume_def split: prod.splits sum.splits if_splits)

lemma stop_volume_generation [simp]:
  "get_generation (fst (stop_volume h i nd)) = (get_generation nd)(i := None)"
  by (auto simp: stop_volume_def get_generation_def fun_eq_iff Let_def split: option.split wait_result.split)

lemma stop_volume_flush_generation [simp]:
  "get_generation (fst (stop_volume_flush h i flush nd)) = (get_generation nd)(i := None)"
  by (cases flush)
     (auto simp: stop_volume_flush_def get_generation_def [of nd] fun_eq_iff,
      auto simp: get_generation_def Let_def fun_eq_iff split: option.split)

lemma hget_fold_hremove_filter:
  assumes "hm_wf m"
  shows "hget (fold hremove (map fst (filter (\<lambda>(_, p). P p) m)) m) k =
     (case hget m k of Some p \<Rightarrow> if P p then None else Some p | None \<Rightarrow> None)"
proof -
  have "k \<in> set (map fst (filter (\<lambda>(_, p). P p) m)) \<longleftrightarrow> (\<exists>p. (k, p) \<in> set m \<and> P p)"
    by (auto simp: image_iff Bex_def)
  also have "\<dots> \<longleftrightarrow> (\<exists>p. hget m k = Some p \<and> P p)"
    by (simp only: hm.in_entries_iff [OF assms])
  finally show ?thesis
    by (cases "hget m k") (simp_all add: hget_fold_hremove del: set_map)
qed

lemma reap_exited_lookup:
  assumes "hm_wf (processes nd)"
  shows "hget (processes (fst (reap_exited h nd))) i =
     (case hget (processes nd) i of Some p \<Rightarrow> if has_exited h nd p then None else Some p | None \<Rightarrow> None)"
  using hget_fold_hremove_filter [OF assms] by (simp add: reap_exited_def Let_def)

section \<open>Processes and their records\<close>

text \<open>
  A node is well formed when the records and the process table have unique keys, process
  numbers are fresh, and a live tracked process runs the volume and the generation of its
  record.
\<close>

definition node_ok :: "node \<Rightarrow> bool" where
  "node_ok nd \<longleftrightarrow>
     hm_wf (processes nd) \<and> hm_wf (nd_live nd) \<and>
     (\<forall>pid x. hget (nd_live nd) pid = Some x \<longrightarrow> pid < nd_next_pid nd) \<and>
     (\<forall>i p. hget (processes nd) i = Some p \<longrightarrow> vp_child p < nd_next_pid nd) \<and>
     (\<forall>i p x. hget (processes nd) i = Some p \<longrightarrow> hget (nd_live nd) (vp_child p) = Some x \<longrightarrow>
        x = (i, vp_generation p))"

text \<open>Every live process is tracked: no volume is written behind the manager's back.\<close>

definition no_orphans :: "node \<Rightarrow> bool" where
  "no_orphans nd \<longleftrightarrow>
     (\<forall>pid i g. hget (nd_live nd) pid = Some (i, g) \<longrightarrow>
        (\<exists>p. hget (processes nd) i = Some p \<and> vp_child p = pid))"

definition host_stops :: "host \<Rightarrow> bool" where
  "host_stops h \<longleftrightarrow> (\<forall>pid. (\<forall>e. h_wait h pid \<noteq> WaitFailed e) \<and> h_kill h pid = None \<and> \<not> h_try_wait_fails h pid)"

definition host_mounts :: "host \<Rightarrow> bool" where
  "host_mounts h \<longleftrightarrow> (\<forall>args e. h_command h ''mount'' args \<noteq> CmdNotRun e)"

text \<open>The operations of a node, each with the host as it behaves during the call, and the
  end of a process on its own.\<close>

datatype node_op =
    OpStart host string s3_config string u64
  | OpRestore host string string s3_config string u64
  | OpStop host string bool
  | OpFence host string u64
  | OpReap host
  | OpProbe instant string bool
  | OpProbeAll instant bool
  | OpDirty string u64
  | OpFlush string u64
  | OpPrewarm string
  | OpCancelPrewarm string
  | OpExit nat

fun node_exec :: "node_op \<Rightarrow> node \<Rightarrow> node" where
  "node_exec (OpStart h i s3 pw gen) nd = fst (start_volume h i s3 pw gen nd)"
| "node_exec (OpRestore h i cp s3 pw gen) nd = fst (restore_from_checkpoint h i cp s3 pw gen nd)"
| "node_exec (OpStop h i flush) nd = fst (stop_volume_flush h i flush nd)"
| "node_exec (OpFence h i gen) nd = fst (self_fence_stale h i gen nd)"
| "node_exec (OpReap h) nd = fst (reap_exited h nd)"
| "node_exec (OpProbe now i reachable) nd = record_s3_probe now i reachable nd"
| "node_exec (OpProbeAll now reachable) nd = record_s3_probe_all now reachable nd"
| "node_exec (OpDirty i n) nd = add_dirty_bytes i n nd"
| "node_exec (OpFlush i n) nd = record_flush i n nd"
| "node_exec (OpPrewarm i) nd = start_prewarm i nd"
| "node_exec (OpCancelPrewarm i) nd = cancel_prewarm i nd"
| "node_exec (OpExit pid) nd = end_process pid nd"

fun op_host :: "node_op \<Rightarrow> host option" where
  "op_host (OpStart h i s3 pw gen) = Some h"
| "op_host (OpRestore h i cp s3 pw gen) = Some h"
| "op_host (OpStop h i flush) = Some h"
| "op_host (OpFence h i gen) = Some h"
| "op_host (OpReap h) = Some h"
| "op_host _ = None"

lemma node_ok_new [simp]: "node_ok new_node" "no_orphans new_node"
  by (simp_all add: node_ok_def no_orphans_def new_node_def new_volume_mgr_def)

text \<open>The changes the operations are made of.\<close>

lemma node_ok_untrack: "node_ok nd \<Longrightarrow> node_ok (map_processes (hremove i) nd)"
  by (simp add: node_ok_def)

lemma node_ok_end: "node_ok nd \<Longrightarrow> node_ok (end_process pid nd)"
  by (simp add: node_ok_def)

lemma no_orphans_stop:
  assumes "no_orphans nd" "hget (processes nd) i = Some p"
  shows "no_orphans (end_process (vp_child p) (map_processes (hremove i) nd))"
  using assms by (fastforce simp: no_orphans_def)

lemma node_ok_same_child:
  assumes "node_ok nd" "hget (processes nd) i = Some p" "vp_child p' = vp_child p" "vp_generation p' = vp_generation p"
  shows "node_ok (map_processes (hinsert i p') nd)"
  using assms by (fastforce simp: node_ok_def)

lemma no_orphans_same_child:
  assumes "no_orphans nd" "hget (processes nd) i = Some p" "vp_child p' = vp_child p"
  shows "no_orphans (map_processes (hinsert i p') nd)"
  using assms by (fastforce simp: no_orphans_def)

lemma node_ok_spawn:
  "node_ok nd \<Longrightarrow> node_ok (nd\<lparr>nd_live := hinsert (nd_next_pid nd) x (nd_live nd), nd_next_pid := Suc (nd_next_pid nd)\<rparr>)"
  by (fastforce simp: node_ok_def)

lemma node_ok_track:
  assumes "node_ok nd" "vp_child p = nd_next_pid nd" "vp_generation p = g"
  shows "node_ok (map_processes (hinsert i p)
     (nd\<lparr>nd_live := hinsert (nd_next_pid nd) (i, g) (nd_live nd), nd_next_pid := Suc (nd_next_pid nd)\<rparr>))"
  using assms by (fastforce simp: node_ok_def)

lemma no_orphans_track:
  assumes "no_orphans nd" "hget (processes nd) i = None" "vp_child p = nd_next_pid nd"
  shows "no_orphans (map_processes (hinsert i p)
     (nd\<lparr>nd_live := hinsert (nd_next_pid nd) (i, g) (nd_live nd), nd_next_pid := n\<rparr>))"
  using assms by (fastforce simp: no_orphans_def)

lemma no_orphans_aborted:
  "no_orphans nd \<Longrightarrow>
   no_orphans (end_process pid (nd\<lparr>nd_live := hinsert pid x (nd_live nd), nd_next_pid := n\<rparr>))"
  by (fastforce simp: no_orphans_def)

lemma launch_ok:
  assumes "node_ok nd"
  shows "node_ok (fst (launch h args opts i s3 pw gen nd))"
  using assms node_ok_end [OF node_ok_spawn [OF assms]] node_ok_spawn [OF assms] node_ok_track [OF assms]
  by (auto simp: launch_def Let_def split: sum.split option.split cmd_result.split)

lemma launch_no_orphans:
  assumes "no_orphans nd" "host_mounts h"
  shows "no_orphans (fst (launch h args opts i s3 pw gen nd))"
  using assms no_orphans_aborted [OF assms(1)] no_orphans_track [OF assms(1)]
  by (auto simp: launch_def Let_def host_mounts_def split: sum.split option.split cmd_result.split)

lemma on_tracker_sel [simp]:
  "vp_child (on_tracker f p) = vp_child p"
  "vp_generation (on_tracker f p) = vp_generation p"
  by (simp_all add: on_tracker_def)

lemma update_tracker_ok:
  "node_ok nd \<Longrightarrow> node_ok (update_tracker i f nd)"
  "no_orphans nd \<Longrightarrow> no_orphans (update_tracker i f nd)"
  by (auto simp: update_tracker_def node_ok_same_child no_orphans_same_child split: option.split)

lemma prewarm_ok:
  "node_ok nd \<Longrightarrow> node_ok (start_prewarm i nd)"
  "no_orphans nd \<Longrightarrow> no_orphans (start_prewarm i nd)"
  "node_ok nd \<Longrightarrow> node_ok (cancel_prewarm i nd)"
  "no_orphans nd \<Longrightarrow> no_orphans (cancel_prewarm i nd)"
  by (auto simp: start_prewarm_def cancel_prewarm_def node_ok_same_child no_orphans_same_child split: option.split)

lemma probe_all_lookup:
  "hget (processes (record_s3_probe_all now r nd)) i =
     map_option (on_tracker (probe_tracker (mg_s3_health_config (nd_mgr nd)) now r)) (hget (processes nd) i)"
  by (simp add: record_s3_probe_all_def map_of_map)

lemma probe_all_keys: "map fst (processes (record_s3_probe_all now r nd)) = map fst (processes nd)"
  by (simp add: record_s3_probe_all_def comp_def case_prod_unfold)

lemma probe_all_live [simp]:
  "nd_live (record_s3_probe_all now r nd) = nd_live nd"
  "nd_next_pid (record_s3_probe_all now r nd) = nd_next_pid nd"
  by (simp_all add: record_s3_probe_all_def)

lemma probe_all_generation [simp]: "get_generation (record_s3_probe_all now r nd) = get_generation nd"
  by (simp add: get_generation_def probe_all_lookup fun_eq_iff option.map_comp comp_def)

lemma probe_all_ok:
  "node_ok nd \<Longrightarrow> node_ok (record_s3_probe_all now r nd)"
  "no_orphans nd \<Longrightarrow> no_orphans (record_s3_probe_all now r nd)"
  by (auto simp: node_ok_def probe_all_lookup probe_all_keys)
     (fastforce simp: no_orphans_def probe_all_lookup)

lemma start_volume_ok:
  "node_ok nd \<Longrightarrow> node_ok (fst (start_volume h i s3 pw gen nd))"
  "\<lbrakk>no_orphans nd; host_mounts h\<rbrakk> \<Longrightarrow> no_orphans (fst (start_volume h i s3 pw gen nd))"
  using launch_ok [of nd h "[]" "''trans=unix,version=9p2000.L''" i s3 pw gen]
    launch_no_orphans [of nd h "[]" "''trans=unix,version=9p2000.L''" i s3 pw gen]
  by (auto simp: start_volume_def prewarm_ok split: prod.split sum.split)

lemma stop_volume_ok:
  "node_ok nd \<Longrightarrow> node_ok (fst (stop_volume h i nd))"
  "\<lbrakk>no_orphans nd; host_stops h\<rbrakk> \<Longrightarrow> no_orphans (fst (stop_volume h i nd))"
  by (auto simp: stop_volume_def host_stops_def Let_def node_ok_untrack node_ok_end no_orphans_stop
      split: option.split wait_result.split)

lemma stop_volume_flush_ok:
  "node_ok nd \<Longrightarrow> node_ok (fst (stop_volume_flush h i flush nd))"
  "\<lbrakk>no_orphans nd; host_stops h\<rbrakk> \<Longrightarrow> no_orphans (fst (stop_volume_flush h i flush nd))"
  by (auto simp: stop_volume_flush_def stop_volume_ok Let_def node_ok_untrack node_ok_end no_orphans_stop
      host_stops_def split: option.split)

lemma self_fence_ok:
  "node_ok nd \<Longrightarrow> node_ok (fst (self_fence_stale h i gen nd))"
  "\<lbrakk>no_orphans nd; host_stops h\<rbrakk> \<Longrightarrow> no_orphans (fst (self_fence_stale h i gen nd))"
  using stop_volume_flush_ok [of nd h i False]
  by (auto simp: self_fence_stale_def split: option.split prod.split)

lemma reap_live [simp]:
  "nd_live (fst (reap_exited h nd)) = nd_live nd"
  "nd_next_pid (fst (reap_exited h nd)) = nd_next_pid nd"
  by (simp_all add: reap_exited_def Let_def)

lemma reap_wf: "hm_wf (processes nd) \<Longrightarrow> hm_wf (processes (fst (reap_exited h nd)))"
  by (simp add: reap_exited_def Let_def hm_wf_fold_hremove)

lemma reap_ok:
  assumes "node_ok nd"
  shows "node_ok (fst (reap_exited h nd))"
    and "\<lbrakk>no_orphans nd; host_stops h\<rbrakk> \<Longrightarrow> no_orphans (fst (reap_exited h nd))"
proof -
  from assms have wf: "hm_wf (processes nd)" by (simp add: node_ok_def)
  note look = reap_exited_lookup [OF wf]
  show "node_ok (fst (reap_exited h nd))"
    using assms by (auto simp: node_ok_def reap_wf look split: option.splits if_splits)
  show "no_orphans (fst (reap_exited h nd))" if "no_orphans nd" "host_stops h"
    unfolding no_orphans_def
  proof (intro allI impI)
    fix pid i g
    assume live: "hget (nd_live (fst (reap_exited h nd))) pid = Some (i, g)"
    with that(1) obtain p where "hget (processes nd) i = Some p" "vp_child p = pid"
      by (auto simp: no_orphans_def)
    with live that(2) show "\<exists>p. hget (processes (fst (reap_exited h nd))) i = Some p \<and> vp_child p = pid"
      by (simp add: look has_exited_def host_stops_def)
  qed
qed

lemma no_orphans_end: "no_orphans nd \<Longrightarrow> no_orphans (end_process pid nd)"
  by (simp add: no_orphans_def)

lemma node_ok_exec: "node_ok nd \<Longrightarrow> node_ok (node_exec op nd)"
  by (cases op)
     (simp_all add: start_volume_ok restore_from_checkpoint_def launch_ok stop_volume_flush_ok
       self_fence_ok reap_ok record_s3_probe_def add_dirty_bytes_def record_flush_def
       update_tracker_ok probe_all_ok prewarm_ok node_ok_end)

definition op_reliable :: "node_op \<Rightarrow> bool" where
  "op_reliable op \<longleftrightarrow> (case op_host op of None \<Rightarrow> True | Some h \<Rightarrow> host_mounts h \<and> host_stops h)"

lemma no_orphans_exec:
  assumes "node_ok nd" "no_orphans nd" "op_reliable op"
  shows "no_orphans (node_exec op nd)"
  using assms
  by (cases op)
     (simp_all add: op_reliable_def start_volume_ok restore_from_checkpoint_def launch_no_orphans
       stop_volume_flush_ok self_fence_ok reap_ok record_s3_probe_def add_dirty_bytes_def
       record_flush_def update_tracker_ok probe_all_ok prewarm_ok no_orphans_end)

lemma node_run:
  assumes "list_all op_reliable ops" "node_ok nd" "no_orphans nd"
  shows "node_ok (fold node_exec ops nd) \<and> no_orphans (fold node_exec ops nd)"
  using assms by (induction ops arbitrary: nd) (simp_all add: node_ok_exec no_orphans_exec)

lemma one_process:
  assumes "node_ok nd" "no_orphans nd"
    and "hget (nd_live nd) pid = Some (i, g)" "hget (nd_live nd) pid' = Some (i, g')"
  shows "pid = pid' \<and> g = g' \<and> get_generation nd i = Some g"
proof -
  from assms(2,3) obtain p where p: "hget (processes nd) i = Some p" "vp_child p = pid"
    by (auto simp: no_orphans_def)
  moreover from assms(2,4) obtain q where "hget (processes nd) i = Some q" "vp_child q = pid'"
    by (auto simp: no_orphans_def)
  moreover from assms(1,3) p have "vp_generation p = g"
    by (auto simp: node_ok_def)
  ultimately show ?thesis
    using assms(3,4) by (simp add: get_generation_def)
qed

end
