(* ===== verification/Volume_Cache.thy ===== *)
theory Volume_Cache
  imports Node_Prelude
begin

text \<open>
  Cache directories of volumes, \<^verbatim>\<open>layers/storage/src/cache.rs\<close>.  File-system calls are
  the parameter \<open>cache_host\<close>; the arithmetic on the result of \<^verbatim>\<open>statvfs\<close> and the checks
  on volume identifiers and paths are the source's.
\<close>

record cache_config =
  cc_ssd_path :: string
  cc_ssd_size_gb :: u32
  cc_memory_size_gb :: u32

record cache_disk_info =
  cd_total_gb :: u64
  cd_available_gb :: u64
  cd_used_gb :: u64

record statvfs =
  f_frsize :: u64
  f_blocks :: u64
  f_bavail :: u64
  f_bfree :: u64

record cache_host =
  ch_exists :: "string \<Rightarrow> bool"
  ch_is_dir :: "string \<Rightarrow> bool"
  ch_statvfs :: "string \<Rightarrow> string + statvfs"
  ch_create_dir_all :: "string \<Rightarrow> string option"
  ch_canonicalize :: "string \<Rightarrow> string + string"
  ch_remove_dir_all :: "string \<Rightarrow> string option"

datatype cache_error =
    DiskNotFound string
  | NotADirectory string
  | InsufficientSpace string u32 u64
  | EmptyVolumeId
  | DotVolumeId string
  | SeparatorInVolumeId string
  | TraversalInVolumeId string
  | NullInVolumeId
  | InvalidCharsInVolumeId string
  | EscapesSsdRoot string
  | CreateDirFailed string string
  | RemoveDirFailed string string
  | DiskQueryFailed string string

definition is_ascii_alphanumeric :: "char \<Rightarrow> bool" where
  "is_ascii_alphanumeric c \<longleftrightarrow>
     is_digit c \<or> (let n = of_char c :: nat in 65 \<le> n \<and> n \<le> 90 \<or> 97 \<le> n \<and> n \<le> 122)"

definition validate_volume_id :: "string \<Rightarrow> cache_error option" where
  "validate_volume_id i =
     (if i = [] then Some EmptyVolumeId
      else if i = ''.'' \<or> i = ''..'' then Some (DotVolumeId i)
      else if CHR ''/'' \<in> set i \<or> CHR 0x5C \<in> set i then Some (SeparatorInVolumeId i)
      else if contains_str i ''..'' then Some (TraversalInVolumeId i)
      else if CHR 0x00 \<in> set i then Some NullInVolumeId
      else if \<not> list_all (\<lambda>c. is_ascii_alphanumeric c \<or> c = CHR ''-'') i then Some (InvalidCharsInVolumeId i)
      else None)"

definition disk_space :: "cache_host \<Rightarrow> string \<Rightarrow> cache_error + cache_disk_info" where
  "disk_space h path =
     (if CHR 0x00 \<in> set path then Inl (DiskQueryFailed path ''path contains null'')
      else case ch_statvfs h path of
             Inl e \<Rightarrow> Inl (DiskQueryFailed path e)
           | Inr st \<Rightarrow>
               let block_size = f_frsize st;
                   total_bytes = f_blocks st * block_size;
                   available_bytes = f_bavail st * block_size;
                   used_bytes = saturating_sub total_bytes (f_bfree st * block_size);
                   gb = 1073741824
               in Inr \<lparr>cd_total_gb = total_bytes div gb, cd_available_gb = available_bytes div gb,
                       cd_used_gb = used_bytes div gb\<rparr>)"

definition validate_cache_disk :: "cache_host \<Rightarrow> string \<Rightarrow> cache_error + cache_disk_info" where
  "validate_cache_disk h path =
     (if \<not> ch_exists h path then Inl (DiskNotFound path)
      else if \<not> ch_is_dir h path then Inl (NotADirectory path)
      else disk_space h path)"

text \<open>\<^verbatim>\<open>Path::starts_with\<close> compares whole components.\<close>

definition path_components :: "string \<Rightarrow> string list" where
  "path_components p = filter (\<lambda>c. c \<noteq> []) (split_all CHR ''/'' p)"

definition path_starts_with :: "string \<Rightarrow> string \<Rightarrow> bool" where
  "path_starts_with p base \<longleftrightarrow>
     take (length (path_components base)) (path_components p) = path_components base"

definition create_volume_cache :: "cache_host \<Rightarrow> cache_config \<Rightarrow> string \<Rightarrow> cache_error + string" where
  "create_volume_cache h cfg i =
     (case validate_volume_id i of
        Some e \<Rightarrow> Inl e
      | None \<Rightarrow>
     (case validate_cache_disk h (cc_ssd_path cfg) of
        Inl e \<Rightarrow> Inl e
      | Inr info \<Rightarrow>
     if cd_available_gb info < ucast (cc_ssd_size_gb cfg)
     then Inl (InsufficientSpace (cc_ssd_path cfg) (cc_ssd_size_gb cfg) (cd_available_gb info))
     else (let cache_dir = path_join (cc_ssd_path cfg) i
     in (case ch_create_dir_all h cache_dir of
        Some e \<Rightarrow> Inl (CreateDirFailed cache_dir e)
      | None \<Rightarrow>
     (case ch_canonicalize h (cc_ssd_path cfg) of
        Inl e \<Rightarrow> Inl (CreateDirFailed (cc_ssd_path cfg) e)
      | Inr parent \<Rightarrow>
     (case ch_canonicalize h cache_dir of
        Inl e \<Rightarrow> Inl (CreateDirFailed cache_dir e)
      | Inr child \<Rightarrow>
     if \<not> path_starts_with child parent then Inl (EscapesSsdRoot child) else Inr cache_dir))))))"

definition cleanup_volume_cache :: "cache_host \<Rightarrow> cache_config \<Rightarrow> string \<Rightarrow> cache_error option" where
  "cleanup_volume_cache h cfg i =
     (case validate_volume_id i of
        Some e \<Rightarrow> Some e
      | None \<Rightarrow>
          let cache_dir = path_join (cc_ssd_path cfg) i
          in if \<not> ch_exists h cache_dir then None
             else (case ch_remove_dir_all h cache_dir of
                     Some e \<Rightarrow> Some (RemoveDirFailed cache_dir e)
                   | None \<Rightarrow> None))"

definition zerofs_cache_args :: "cache_config \<Rightarrow> string \<Rightarrow> cache_error + string list" where
  "zerofs_cache_args cfg i =
     (case validate_volume_id i of
        Some e \<Rightarrow> Inl e
      | None \<Rightarrow>
          Inr [''--cache-dir'', path_join (cc_ssd_path cfg) i,
               ''--cache-size'', show_nat (unat (cc_ssd_size_gb cfg)),
               ''--memory-size'', show_nat (unat (cc_memory_size_gb cfg))])"

section \<open>Containment\<close>

text \<open>
  An accepted identifier is one path component: joined to a directory it names a direct
  child of that directory, so the recursive removal of a cache directory never reaches
  anything outside the cache.
\<close>

lemma split_all_free: "d \<notin> set s \<Longrightarrow> split_all d s = [s]"
  by (induction s) auto

lemma split_all_append: "split_all d (a @ d # b) = split_all d a @ split_all d b"
proof (induction a)
  case (Cons c a)
  have "split_all d a \<noteq> []" by (cases a) (auto split: list.split)
  with Cons show ?case by (auto split: list.splits)
qed simp

lemma path_components_join:
  assumes "i \<noteq> []" "CHR ''/'' \<notin> set i"
  shows "path_components (path_join base i) = path_components base @ [i]"
proof -
  have one: "path_components i = [i]"
    using assms by (simp add: path_components_def split_all_free)
  have abs: "\<not> starts_with i ''/''"
    using assms by (auto simp: starts_with_iff)
  show ?thesis
  proof (cases "base = [] \<or> \<not> ends_with base ''/''")
    case True
    then show ?thesis
      using abs one by (auto simp: path_join_def path_components_def split_all_append)
  next
    case False
    then obtain b where "base = b @ ''/''"
      by (auto simp: ends_with_iff)
    then show ?thesis
      using False abs one by (simp add: path_join_def path_components_def split_all_append)
  qed
qed

lemma validate_volume_id_component:
  assumes "validate_volume_id i = None"
  shows "i \<noteq> [] \<and> CHR ''/'' \<notin> set i \<and> i \<noteq> ''.'' \<and> i \<noteq> ''..''"
  using assms by (auto simp: validate_volume_id_def split: if_splits)

end
