(* ===== verification/Storage_Reconciler.thy ===== *)
theory Storage_Reconciler
  imports Volume_Manager Volume_Cache Storage_State
begin

text \<open>
  The storage reconciler of a node, \<^verbatim>\<open>layers/forge/src/storage_reconciler.rs\<close>: what it
  reads from the replicated state (\<^verbatim>\<open>RaftVolumeStateReader\<close>) and one pass of
  \<^verbatim>\<open>reconcile_once_full\<close> over the volume manager.

  The four reads of a pass happen at different times, so their results are four independent
  arguments.  The hash maps of the pass are traversed in the order of their entries; the
  lemmas hold for every order.  A pass also returns the calls it made, in order; the wall
  clock duration in its report is left out.
\<close>

section \<open>Desired state\<close>

record desired_volume =
  dv_id :: string
  dv_name :: string
  dv_size_gb :: u32
  dv_placement_generation :: u64
  dv_hypervisor_id :: string
  dv_zone :: string
  dv_vm_id :: "string option"

record desired_detach =
  dd_volume_id :: string
  dd_vm_id :: string
  dd_ch_device_id :: string
  dd_force :: bool

record zone_storage_config =
  zs_s3_endpoint :: string
  zs_s3_bucket :: string
  zs_s3_access_key :: string
  zs_s3_secret_key :: string
  zs_cache_disk_path :: string
  zs_cache_disk_size_bytes :: u64
  zs_cache_memory_size_bytes :: u64

record reads =
  rd_detaches :: "desired_detach list"
  rd_desired :: "desired_volume list"
  rd_config :: "zone_storage_config option"
  rd_deleted :: "string list"

text \<open>\<^verbatim>\<open>EmptyStateReader\<close>.\<close>

definition empty_reads :: reads where
  "empty_reads = \<lparr>rd_detaches = [], rd_desired = [], rd_config = None, rd_deleted = []\<rparr>"

text \<open>
  \<^verbatim>\<open>RaftVolumeStateReader\<close>: before the state machine is injected the reader behaves like
  the empty one.
\<close>

definition assigned_here :: "string \<Rightarrow> volume_record \<Rightarrow> bool" where
  "assigned_here h vol \<longleftrightarrow> vol_attached_hypervisor_id vol = Some h"

definition to_desired :: "string \<Rightarrow> volume_record \<Rightarrow> desired_volume" where
  "to_desired h vol =
     \<lparr>dv_id = vol_id vol, dv_name = vol_name vol, dv_size_gb = vol_size_gb vol,
      dv_placement_generation = vol_placement_generation vol, dv_hypervisor_id = h,
      dv_zone = (case vol_zone vol of Some z \<Rightarrow> z | None \<Rightarrow> []),
      dv_vm_id = vol_attached_vm_id vol\<rparr>"

definition desired_volumes :: "string \<Rightarrow> storage_state option \<Rightarrow> desired_volume list" where
  "desired_volumes h sm =
     (case sm of
        None \<Rightarrow> []
      | Some st \<Rightarrow>
          map (to_desired h)
            (filter (\<lambda>vol. assigned_here h vol \<and> (vol_state vol = VolAttached \<or> vol_state vol = VolAvailable))
               (hvalues (st_volumes st))))"

definition pending_detaches :: "string \<Rightarrow> storage_state option \<Rightarrow> desired_detach list" where
  "pending_detaches h sm =
     (case sm of
        None \<Rightarrow> []
      | Some st \<Rightarrow>
          map (\<lambda>vol. \<lparr>dd_volume_id = vol_id vol,
                      dd_vm_id = (case vol_attached_vm_id vol of Some vm \<Rightarrow> vm | None \<Rightarrow> []),
                      dd_ch_device_id = ''_disk_'' @ vol_id vol, dd_force = False\<rparr>)
            (filter (\<lambda>vol. vol_state vol = VolAvailable \<and> assigned_here h vol) (hvalues (st_volumes st))))"

definition deleted_volumes :: "string \<Rightarrow> storage_state option \<Rightarrow> string list" where
  "deleted_volumes h sm =
     (case sm of
        None \<Rightarrow> []
      | Some st \<Rightarrow>
          map vol_id (filter (\<lambda>vol. vol_state vol = VolDeleted \<and> assigned_here h vol) (hvalues (st_volumes st))))"

definition zone_config :: "string \<Rightarrow> storage_state option \<Rightarrow> zone_storage_config option" where
  "zone_config zone sm =
     (case sm of
        None \<Rightarrow> None
      | Some st \<Rightarrow>
          map_option (\<lambda>cfg. \<lparr>zs_s3_endpoint = cfg_s3_endpoint cfg, zs_s3_bucket = cfg_s3_bucket cfg,
                             zs_s3_access_key = cfg_s3_access_key cfg, zs_s3_secret_key = cfg_s3_secret_key cfg,
                             zs_cache_disk_path = cfg_cache_disk_path cfg,
                             zs_cache_disk_size_bytes = ucast (cfg_cache_disk_size_gb cfg) * 1024 * 1024 * 1024,
                             zs_cache_memory_size_bytes = ucast (cfg_cache_memory_size_gb cfg) * 1024 * 1024 * 1024\<rparr>)
            (hget (st_storage_configs st) zone))"

text \<open>All four reads against one state.\<close>

definition raft_reads :: "string \<Rightarrow> string \<Rightarrow> storage_state option \<Rightarrow> reads" where
  "raft_reads h zone sm =
     \<lparr>rd_detaches = pending_detaches h sm, rd_desired = desired_volumes h sm,
      rd_config = zone_config zone sm, rd_deleted = deleted_volumes h sm\<rparr>"

section \<open>One pass\<close>

datatype reconcile_error =
    DetachRemoveDeviceErr string string
  | DetachStopErr string volume_mgr_error
  | StopStaleErr string volume_mgr_error
  | StartErr string volume_mgr_error
  | StopErr string volume_mgr_error
  | AttachErr string string string

record reconcile_report =
  rp_pass_number :: u64
  rp_started :: nat
  rp_stopped :: nat
  rp_detached :: nat
  rp_reaped :: nat
  rp_attached :: nat
  rp_cleaned_up :: nat
  rp_errors :: "reconcile_error list"

definition empty_report :: "u64 \<Rightarrow> reconcile_report" where
  "empty_report n =
     \<lparr>rp_pass_number = n, rp_started = 0, rp_stopped = 0, rp_detached = 0, rp_reaped = 0,
      rp_attached = 0, rp_cleaned_up = 0, rp_errors = []\<rparr>"

datatype node_call =
    CallRemoveDevice string string
  | CallStop string bool
  | CallStart string u64
  | CallAttach string string
  | CallCleanDirs string
  | CallCleanCache string "cache_error option"

text \<open>
  The surroundings of a pass: the host, the file system of the cache, the two Cloud
  Hypervisor interfaces (\<^verbatim>\<open>ChClientProvider::remove_device\<close> and the optional
  \<^verbatim>\<open>VmDiskAttacher::attach_disk\<close>, \<open>Some\<close> an error message), the passphrase and the result
  of the S3 probe with its clock reading.
\<close>

record surroundings =
  sr_host :: host
  sr_cache_host :: cache_host
  sr_remove_device :: "string \<Rightarrow> string \<Rightarrow> string option"
  sr_attacher :: "(string \<Rightarrow> string \<Rightarrow> string option) option"
  sr_passphrase :: string
  sr_s3_reachable :: "string \<Rightarrow> bool"
  sr_now :: instant

record pass =
  ps_node :: node
  ps_report :: reconcile_report
  ps_attached :: "string list"
  ps_calls :: "node_call list"

definition log_error :: "reconcile_error \<Rightarrow> reconcile_report \<Rightarrow> reconcile_report" where
  "log_error e r = r\<lparr>rp_errors := rp_errors r @ [e]\<rparr>"

definition call :: "node_call \<Rightarrow> pass \<Rightarrow> pass" where
  "call c ps = ps\<lparr>ps_calls := ps_calls ps @ [c]\<rparr>"

text \<open>Step 2: one pending detach.\<close>

definition detach_step :: "surroundings \<Rightarrow> desired_detach \<Rightarrow> pass \<Rightarrow> pass" where
  "detach_step s d ps =
     (let i = dd_volume_id d; flush = \<not> dd_force d
      in if dd_vm_id d = []
         then (case stop_volume_flush (sr_host s) i flush (ps_node ps) of
                (nd, None) \<Rightarrow>
                  call (CallStop i flush)
                    (ps\<lparr>ps_node := nd, ps_report := (ps_report ps)\<lparr>rp_detached := rp_detached (ps_report ps) + 1\<rparr>\<rparr>)
              | (nd, Some _) \<Rightarrow> call (CallStop i flush) (ps\<lparr>ps_node := nd\<rparr>))
         else if \<not> is_running (ps_node ps) i then ps
         else let ps1 = call (CallRemoveDevice (dd_vm_id d) (dd_ch_device_id d)) ps
         in (case sr_remove_device s (dd_vm_id d) (dd_ch_device_id d) of
              Some e \<Rightarrow> ps1\<lparr>ps_report := log_error (DetachRemoveDeviceErr i e) (ps_report ps1)\<rparr>
            | None \<Rightarrow>
                (case stop_volume_flush (sr_host s) i flush (ps_node ps1) of
                   (nd, None) \<Rightarrow>
                     call (CallStop i flush)
                       (ps1\<lparr>ps_node := nd, ps_report := (ps_report ps1)\<lparr>rp_detached := rp_detached (ps_report ps1) + 1\<rparr>\<rparr>)
                 | (nd, Some e) \<Rightarrow>
                     call (CallStop i flush)
                       (ps1\<lparr>ps_node := nd, ps_report := log_error (DetachStopErr i e) (ps_report ps1)\<rparr>))))"

text \<open>Step 5: a desired volume that ran with another generation when the pass looked.\<close>

definition fence_step :: "surroundings \<Rightarrow> (string, u64) hmap \<Rightarrow> string \<times> desired_volume \<Rightarrow> pass \<Rightarrow> pass" where
  "fence_step s running e ps =
     (let (i, vol) = e
      in case hget running i of
           None \<Rightarrow> ps
         | Some g \<Rightarrow>
             if g = dv_placement_generation vol then ps
             else case stop_volume (sr_host s) i (ps_node ps) of
                    (nd, None) \<Rightarrow>
                      call (CallStop i True)
                        (ps\<lparr>ps_node := nd, ps_attached := removeAll i (ps_attached ps),
                            ps_report := (ps_report ps)\<lparr>rp_stopped := rp_stopped (ps_report ps) + 1\<rparr>\<rparr>)
                  | (nd, Some er) \<Rightarrow>
                      call (CallStop i True)
                        (ps\<lparr>ps_node := nd, ps_report := log_error (StopStaleErr i er) (ps_report ps)\<rparr>))"

text \<open>Step 6: a desired volume that does not run.\<close>

definition start_step :: "surroundings \<Rightarrow> s3_config \<Rightarrow> string \<times> desired_volume \<Rightarrow> pass \<Rightarrow> pass" where
  "start_step s s3 e ps =
     (let (i, vol) = e; g = dv_placement_generation vol
      in if is_running (ps_node ps) i then ps
         else case start_volume (sr_host s) i s3 (sr_passphrase s) g (ps_node ps) of
                (nd, Inr _) \<Rightarrow>
                  call (CallStart i g)
                    (ps\<lparr>ps_node := nd, ps_report := (ps_report ps)\<lparr>rp_started := rp_started (ps_report ps) + 1\<rparr>\<rparr>)
              | (nd, Inl (AlreadyRunning _)) \<Rightarrow> call (CallStart i g) (ps\<lparr>ps_node := nd\<rparr>)
              | (nd, Inl er) \<Rightarrow>
                  call (CallStart i g)
                    (ps\<lparr>ps_node := nd, ps_report := log_error (StartErr i er) (ps_report ps)\<rparr>))"

text \<open>Step 7: a volume that ran when the pass looked.\<close>

definition stop_step ::
    "surroundings \<Rightarrow> (string, desired_volume) hmap \<Rightarrow> string list \<Rightarrow> string list \<Rightarrow> zone_storage_config \<Rightarrow>
     string \<times> u64 \<Rightarrow> pass \<Rightarrow> pass" where
  "stop_step s desired pending deleted cfg e ps =
     (let i = fst e
      in if hcontains desired i \<or> \<not> is_running (ps_node ps) i \<or> i \<in> set pending then ps
         else case stop_volume (sr_host s) i (ps_node ps) of
                (nd, Some er) \<Rightarrow>
                  call (CallStop i True)
                    (ps\<lparr>ps_node := nd, ps_report := log_error (StopErr i er) (ps_report ps)\<rparr>)
              | (nd, None) \<Rightarrow>
                  let ps1 = call (CallStop i True)
                        (ps\<lparr>ps_node := nd, ps_attached := removeAll i (ps_attached ps),
                            ps_report := (ps_report ps)\<lparr>rp_stopped := rp_stopped (ps_report ps) + 1\<rparr>\<rparr>)
                  in if i \<in> set deleted
                     then call (CallCleanCache i
                                  (cleanup_volume_cache (sr_cache_host s)
                                     \<lparr>cc_ssd_path = zs_cache_disk_path cfg,
                                      cc_ssd_size_gb = ucast (zs_cache_disk_size_bytes cfg div 1073741824),
                                      cc_memory_size_gb = ucast (zs_cache_memory_size_bytes cfg div 1073741824)\<rparr> i))
                            (call (CallCleanDirs i)
                            (ps1\<lparr>ps_report := (ps_report ps1)\<lparr>rp_cleaned_up := rp_cleaned_up (ps_report ps1) + 1\<rparr>\<rparr>))
                     else ps1)"

text \<open>The last step before the probe: share a running volume with its VM.\<close>

definition attach_step ::
    "(string \<Rightarrow> string \<Rightarrow> string option) \<Rightarrow> string \<times> desired_volume \<Rightarrow> pass \<Rightarrow> pass" where
  "attach_step attach e ps =
     (let (i, vol) = e
      in case dv_vm_id vol of
           None \<Rightarrow> ps
         | Some vm \<Rightarrow>
             if is_running (ps_node ps) i \<and> i \<notin> set (ps_attached ps)
             then case get_mount_path (ps_node ps) i of
                    None \<Rightarrow> ps
                  | Some mp \<Rightarrow>
                      let ps1 = call (CallAttach vm mp) ps
                      in (case attach vm mp of
                            None \<Rightarrow> ps1\<lparr>ps_attached := i # ps_attached ps1,
                                       ps_report := (ps_report ps1)\<lparr>rp_attached := rp_attached (ps_report ps1) + 1\<rparr>\<rparr>
                          | Some er \<Rightarrow> ps1\<lparr>ps_report := log_error (AttachErr i vm er) (ps_report ps1)\<rparr>)
             else ps)"

definition converge ::
    "surroundings \<Rightarrow> reads \<Rightarrow> zone_storage_config \<Rightarrow> pass \<Rightarrow> pass" where
  "converge s rd cfg ps =
     (let desired = hcollect (map (\<lambda>v. (dv_id v, v)) (rd_desired rd));
          running = hcollect (list_active (ps_node ps));
          pending = map dd_volume_id (rd_detaches rd);
          s3 = \<lparr>s3_endpoint = zs_s3_endpoint cfg, s3_bucket = zs_s3_bucket cfg,
                s3_access_key = zs_s3_access_key cfg, s3_secret_key = zs_s3_secret_key cfg\<rparr>;
          ps1 = fold (fence_step s running) desired ps;
          ps2 = fold (start_step s s3) desired ps1;
          ps3 = fold (stop_step s desired pending (rd_deleted rd) cfg) running ps2;
          ps4 = (case sr_attacher s of None \<Rightarrow> ps3 | Some attach \<Rightarrow> fold (attach_step attach) desired ps3)
      in ps4\<lparr>ps_node := record_s3_probe_all (sr_now s) (sr_s3_reachable s (zs_s3_endpoint cfg)) (ps_node ps4)\<rparr>)"

record reconciler =
  rc_pass_count :: u64
  rc_last_report :: "reconcile_report option"
  rc_attached_volumes :: "string list"

definition new_reconciler :: reconciler where
  "new_reconciler = \<lparr>rc_pass_count = 0, rc_last_report = None, rc_attached_volumes = []\<rparr>"

definition reconcile_once_full ::
    "surroundings \<Rightarrow> reads \<Rightarrow> reconciler \<times> node \<Rightarrow> (reconciler \<times> node) \<times> node_call list" where
  "reconcile_once_full s rd st =
     (let (rc, nd) = st;
          (nd1, reaped) = reap_exited (sr_host s) nd;
          ps = \<lparr>ps_node = nd1, ps_report = (empty_report (rc_pass_count rc))\<lparr>rp_reaped := length reaped\<rparr>,
                ps_attached = rc_attached_volumes rc, ps_calls = []\<rparr>;
          ps1 = fold (detach_step s) (rd_detaches rd) ps;
          ps2 = (case rd_config rd of None \<Rightarrow> ps1 | Some cfg \<Rightarrow> converge s rd cfg ps1)
      in ((\<lparr>rc_pass_count = rc_pass_count rc + 1, rc_last_report = Some (ps_report ps2),
            rc_attached_volumes = ps_attached ps2\<rparr>, ps_node ps2), ps_calls ps2))"

section \<open>Effect of a pass on the running generations\<close>

definition launchable :: "host \<Rightarrow> string option \<times> string \<Rightarrow> string \<Rightarrow> bool" where
  "launchable h cfg i \<longleftrightarrow>
     (case resolve_binary h (fst cfg) of
        Inl _ \<Rightarrow> False
      | Inr bin \<Rightarrow>
          prepare_volume h i (path_join (snd cfg) i) = None \<and>
          h_spawn h bin [''run'', ''-c'', path_join (config_dir i) ''zerofs.toml''] = None \<and>
          wait_for_path (h_appears h (config_dir i @ ''/zerofs.9p.sock'')) 0 \<and>
          (\<exists>out. h_command h ''mount'' [''-t'', ''9p'', ''-o'', ''trans=unix,version=9p2000.L'',
                 config_dir i @ ''/zerofs.9p.sock'', path_join (snd cfg) i] = CmdOk out))"

definition settings :: "node \<Rightarrow> string option \<times> string" where
  "settings nd = (mg_binary_override (nd_mgr nd), mg_volumes_base (nd_mgr nd))"

lemma start_volume_outcome:
  "isl (snd (start_volume h i s3 pw gen nd)) \<longleftrightarrow> is_running nd i \<or> \<not> launchable h (settings nd) i"
  by (auto simp: settings_def start_volume_def launch_def launchable_def is_running_def Let_def
      split: sum.splits option.splits cmd_result.splits)

lemma settings_start [simp]: "settings (fst (start_volume h i s3 pw gen nd)) = settings nd"
  by (auto simp: settings_def start_volume_def launch_def start_prewarm_def Let_def
      split: sum.splits option.splits cmd_result.splits)

lemma settings_stop [simp]:
  "settings (fst (stop_volume h i nd)) = settings nd"
  "settings (fst (stop_volume_flush h i flush nd)) = settings nd"
  "settings (fst (reap_exited h nd)) = settings nd"
  by (auto simp: settings_def stop_volume_def stop_volume_flush_def reap_exited_def Let_def
      split: option.splits wait_result.splits)

lemma call_sel [simp]:
  "ps_node (call c ps) = ps_node ps"
  "ps_attached (call c ps) = ps_attached ps"
  "ps_report (call c ps) = ps_report ps"
  "ps_calls (call c ps) = ps_calls ps @ [c]"
  by (simp_all add: call_def)

abbreviation generation :: "pass \<Rightarrow> string \<Rightarrow> u64 option" where
  "generation ps \<equiv> get_generation (ps_node ps)"

definition detachable :: "surroundings \<Rightarrow> desired_detach \<Rightarrow> bool" where
  "detachable s d \<longleftrightarrow> dd_vm_id d = [] \<or> sr_remove_device s (dd_vm_id d) (dd_ch_device_id d) = None"

lemma detach_step_node:
  "ps_node (detach_step s d ps) =
     (if dd_vm_id d = [] \<or> is_running (ps_node ps) (dd_volume_id d) \<and> detachable s d
      then fst (stop_volume_flush (sr_host s) (dd_volume_id d) (\<not> dd_force d) (ps_node ps)) else ps_node ps)"
  by (auto simp: detach_step_def detachable_def Let_def split: prod.split option.split)

lemma fence_step_node:
  "ps_node (fence_step s running (i, vol) ps) =
     (if hget running i \<noteq> None \<and> hget running i \<noteq> Some (dv_placement_generation vol)
      then fst (stop_volume (sr_host s) i (ps_node ps)) else ps_node ps)"
  by (auto simp: fence_step_def split: prod.split option.split)

lemma start_step_node:
  "ps_node (start_step s s3 (i, vol) ps) =
     (if is_running (ps_node ps) i then ps_node ps
      else fst (start_volume (sr_host s) i s3 (sr_passphrase s) (dv_placement_generation vol) (ps_node ps)))"
  by (auto simp: start_step_def Let_def split: prod.split sum.split volume_mgr_error.split)

lemma stop_step_node:
  "ps_node (stop_step s desired pending deleted cfg (i, g) ps) =
     (if hcontains desired i \<or> \<not> is_running (ps_node ps) i \<or> i \<in> set pending then ps_node ps
      else fst (stop_volume (sr_host s) i (ps_node ps)))"
  by (auto simp: stop_step_def Let_def split: prod.split option.split)

lemma attach_step_node [simp]: "ps_node (attach_step attach e ps) = ps_node ps"
  by (auto simp: attach_step_def Let_def split: prod.split option.split)

lemmas step_nodes = detach_step_node fence_step_node start_step_node stop_step_node

lemma fold_attach_node [simp]: "ps_node (fold (attach_step attach) xs ps) = ps_node ps"
  by (rule fold_frame_inv) simp

lemma start_generation:
  "get_generation (fst (start_volume h i s3 pw gen nd)) =
     (if is_running nd i \<or> \<not> launchable h (settings nd) i then get_generation nd
      else (get_generation nd)(i \<mapsto> gen))"
  using start_volume_result [of h i s3 pw gen nd] start_volume_outcome [of h i s3 pw gen nd]
  by (cases "start_volume h i s3 pw gen nd") auto

lemma detaches_generation:
  "generation (fold (detach_step s) ds ps) i =
     (if \<exists>d \<in> set ds. dd_volume_id d = i \<and> detachable s d then None else generation ps i)"
  by (induction ds arbitrary: ps)
     (auto simp: detach_step_node detachable_def is_running_iff)

lemma fences_generation:
  assumes "hm_wf desired"
  shows "generation (fold (fence_step s running) desired ps) i =
     (case hget desired i of
        Some v \<Rightarrow> if hget running i \<noteq> None \<and> hget running i \<noteq> Some (dv_placement_generation v)
                  then None else generation ps i
      | None \<Rightarrow> generation ps i)"
  by (subst fold_pointwise(2) [where P = "\<lambda>_. True" and look = generation and
        F = "\<lambda>i v g. if hget running i \<noteq> None \<and> hget running i \<noteq> Some (dv_placement_generation v) then None else g"])
     (auto simp: fence_step_node assms split: option.split)

lemma starts_generation:
  assumes "hm_wf desired"
  shows "generation (fold (start_step s s3) desired ps) i =
     (case hget desired i of
        Some v \<Rightarrow> if generation ps i = None \<and> launchable (sr_host s) (settings (ps_node ps)) i
                  then Some (dv_placement_generation v) else generation ps i
      | None \<Rightarrow> generation ps i)"
  by (subst fold_pointwise(2) [where P = "\<lambda>ps'. settings (ps_node ps') = settings (ps_node ps)" and look = generation and
        F = "\<lambda>i v g. if g = None \<and> launchable (sr_host s) (settings (ps_node ps)) i
                     then Some (dv_placement_generation v) else g"])
     (auto simp: start_step_node start_generation is_running_iff assms split: option.split)

lemma stops_generation:
  assumes "hm_wf running"
  shows "generation (fold (stop_step s desired pending deleted cfg) running ps) i =
     (if hget running i \<noteq> None \<and> hget desired i = None \<and> i \<notin> set pending then None else generation ps i)"
  by (subst fold_pointwise(2) [where P = "\<lambda>_. True" and look = generation and
        F = "\<lambda>i (_::u64) g. if hget desired i = None \<and> i \<notin> set pending then None else g"])
     (auto simp: stop_step_node is_running_iff assms split: option.split)

lemma settings_folds:
  "settings (ps_node (fold (detach_step s) ds ps)) = settings (ps_node ps)"
  "settings (ps_node (fold (fence_step s running) xs ps)) = settings (ps_node ps)"
proof -
  show "settings (ps_node (fold (detach_step s) ds ps)) = settings (ps_node ps)"
    by (rule fold_frame_inv) (simp add: detach_step_node)
  show "settings (ps_node (fold (fence_step s running) xs ps)) = settings (ps_node ps)"
    by (rule fold_frame_inv) (auto simp: fence_step_node)
qed

definition desired_map :: "reads \<Rightarrow> (string, desired_volume) hmap" where
  "desired_map rd = hcollect (map (\<lambda>v. (dv_id v, v)) (rd_desired rd))"

lemma hm_wf_desired_map [simp]: "hm_wf (desired_map rd)"
  by (simp add: desired_map_def)

lemma hget_running:
  assumes "hm_wf (processes nd)"
  shows "hget (hcollect (list_active nd)) = get_generation nd"
proof -
  have "distinct (map fst (list_active nd))"
    using assms by (simp add: list_active_def comp_def case_prod_unfold)
  then show ?thesis
    by (simp add: hget_hcollect_distinct list_active_lookup fun_eq_iff)
qed

text \<open>
  What a pass with a storage configuration leaves running: a desired volume runs with the
  desired generation if it did already or can be launched; any other volume runs only if
  its detach is still pending.
\<close>

lemma converge_generation:
  assumes "hm_wf (processes (ps_node ps))"
  shows "generation (converge s rd cfg ps) i =
     (case hget (desired_map rd) i of
        Some v \<Rightarrow>
          if generation ps i = Some (dv_placement_generation v) \<or> launchable (sr_host s) (settings (ps_node ps)) i
          then Some (dv_placement_generation v) else None
      | None \<Rightarrow> if i \<in> dd_volume_id ` set (rd_detaches rd) then generation ps i else None)"
proof -
  note run = hget_running [OF assms]
  show ?thesis
    by (cases "hget (desired_map rd) i"; cases "sr_attacher s")
       (auto simp: converge_def Let_def stops_generation starts_generation fences_generation settings_folds run
         simp flip: desired_map_def)
qed

section \<open>Whole passes\<close>

text \<open>A property of the node that the operations of the manager keep is kept by a pass.\<close>

lemma pass_rule:
  assumes init: "P nd"
    and reap: "\<And>nd. P nd \<Longrightarrow> P (fst (reap_exited (sr_host s) nd))"
    and stop: "\<And>i nd. P nd \<Longrightarrow> P (fst (stop_volume (sr_host s) i nd))"
    and stop_flush: "\<And>i f nd. P nd \<Longrightarrow> P (fst (stop_volume_flush (sr_host s) i f nd))"
    and start: "\<And>i s3 g nd. P nd \<Longrightarrow> P (fst (start_volume (sr_host s) i s3 (sr_passphrase s) g nd))"
    and probe: "\<And>now r nd. P nd \<Longrightarrow> P (record_s3_probe_all now r nd)"
  shows "P (snd (fst (reconcile_once_full s rd (rc, nd))))"
proof -
  let ?Q = "\<lambda>ps. P (ps_node ps)"
  have fold_P: "?Q (fold f xs ps)" if "\<And>x ps. ?Q ps \<Longrightarrow> ?Q (f x ps)" "?Q ps"
    for f :: "'x \<Rightarrow> pass \<Rightarrow> pass" and xs ps
    using that(2) by (induction xs arbitrary: ps) (simp_all add: that(1))
  have detach: "?Q (detach_step s d ps)" if "?Q ps" for d ps
    using that by (simp add: detach_step_node stop_flush)
  have fence: "?Q (fence_step s running e ps)" if "?Q ps" for running e ps
    using that by (cases e) (simp add: fence_step_node stop)
  have launch_P: "?Q (start_step s s3 e ps)" if "?Q ps" for s3 e ps
    using that by (cases e) (simp add: start_step_node start)
  have halt: "?Q (stop_step s desired pending deleted cfg e ps)" if "?Q ps" for desired pending deleted cfg e ps
    using that by (cases e) (simp add: stop_step_node stop)
  have conv: "?Q (converge s rd cfg ps)" if "?Q ps" for cfg ps
    using that by (cases "sr_attacher s")
      (simp_all add: converge_def Let_def probe fold_P [OF halt] fold_P [OF launch_P] fold_P [OF fence])
  show ?thesis
    using reap [OF init] conv fold_P [of "detach_step s", OF detach]
    by (cases "reap_exited (sr_host s) nd") (simp add: reconcile_once_full_def Let_def split: option.split)
qed

lemma pass_node_ok: "node_ok nd \<Longrightarrow> node_ok (snd (fst (reconcile_once_full s rd (rc, nd))))"
  by (rule pass_rule) (simp_all add: reap_ok stop_volume_ok stop_volume_flush_ok start_volume_ok probe_all_ok)

lemma pass_no_orphans:
  assumes "node_ok nd" "no_orphans nd" "host_mounts (sr_host s)" "host_stops (sr_host s)"
  shows "no_orphans (snd (fst (reconcile_once_full s rd (rc, nd))))"
proof -
  let ?P = "\<lambda>nd. node_ok nd \<and> no_orphans nd"
  have "?P (snd (fst (reconcile_once_full s rd (rc, nd))))"
    by (rule pass_rule)
       (simp_all add: assms reap_ok stop_volume_ok stop_volume_flush_ok start_volume_ok probe_all_ok)
  then show ?thesis ..
qed

text \<open>What runs when the pass turns to the desired volumes.\<close>

definition before_converge :: "surroundings \<Rightarrow> reads \<Rightarrow> node \<Rightarrow> string \<Rightarrow> u64 option" where
  "before_converge s rd nd i =
     (if \<exists>d \<in> set (rd_detaches rd). dd_volume_id d = i \<and> detachable s d then None
      else get_generation (fst (reap_exited (sr_host s) nd)) i)"

lemma detaches_wf: "hm_wf (processes (ps_node ps)) \<Longrightarrow> hm_wf (processes (ps_node (fold (detach_step s) ds ps)))"
proof (induction ds arbitrary: ps)
  case (Cons d ds)
  have "hm_wf (processes (ps_node (detach_step s d ps)))"
    using Cons.prems
    by (auto simp: detach_step_node stop_volume_flush_def stop_volume_def Let_def
        split: option.split wait_result.split)
  then show ?case by (simp add: Cons.IH)
qed simp

lemma reconcile_generation:
  assumes ok: "node_ok nd" and cfg: "rd_config rd = Some cfg"
  shows "get_generation (snd (fst (reconcile_once_full s rd (rc, nd)))) i =
     (case hget (desired_map rd) i of
        Some v \<Rightarrow>
          if before_converge s rd nd i = Some (dv_placement_generation v) \<or> launchable (sr_host s) (settings nd) i
          then Some (dv_placement_generation v) else None
      | None \<Rightarrow> if i \<in> dd_volume_id ` set (rd_detaches rd) then before_converge s rd nd i else None)"
proof -
  obtain nd1 reaped where r: "reap_exited (sr_host s) nd = (nd1, reaped)" by force
  have "hm_wf (processes nd1)"
    using reap_wf [of nd "sr_host s"] ok r by (simp add: node_ok_def)
  moreover have "settings nd1 = settings nd"
    using settings_stop(3) [of "sr_host s" nd] r by simp
  ultimately show ?thesis
    by (cases "hget (desired_map rd) i")
       (auto simp: reconcile_once_full_def r cfg converge_generation detaches_wf detaches_generation
         settings_folds before_converge_def Let_def)
qed

section \<open>Histories of an agent\<close>

text \<open>The life of a node: operations of its manager and passes of its reconciler.\<close>

datatype agent_step = Op node_op | Pass surroundings reads

fun agent_exec :: "agent_step \<Rightarrow> reconciler \<times> node \<Rightarrow> reconciler \<times> node" where
  "agent_exec (Op op) (rc, nd) = (rc, node_exec op nd)"
| "agent_exec (Pass s rd) st = fst (reconcile_once_full s rd st)"

definition agent_run :: "agent_step list \<Rightarrow> reconciler \<times> node" where
  "agent_run xs = fold agent_exec xs (new_reconciler, new_node)"

abbreviation runs :: "agent_step list \<Rightarrow> string \<Rightarrow> u64 option" where
  "runs xs \<equiv> get_generation (snd (agent_run xs))"

lemma agent_run_snoc: "agent_run (xs @ [x]) = agent_exec x (agent_run xs)"
  by (simp add: agent_run_def)

fun agent_reliable :: "agent_step \<Rightarrow> bool" where
  "agent_reliable (Op op) \<longleftrightarrow> op_reliable op"
| "agent_reliable (Pass s rd) \<longleftrightarrow> host_mounts (sr_host s) \<and> host_stops (sr_host s)"

lemma settings_op: "settings (node_exec op nd) = settings nd"
proof -
  have "settings (fst (launch h args opts i s3 pw gen nd)) = settings nd" for h args opts i s3 pw gen
    by (auto simp: settings_def launch_def Let_def split: sum.splits option.splits cmd_result.splits)
  moreover have "settings (update_tracker i f nd) = settings nd" for i f
    by (auto simp: settings_def update_tracker_def split: option.splits)
  moreover have "settings (start_prewarm i nd) = settings nd" "settings (cancel_prewarm i nd) = settings nd" for i
    by (auto simp: settings_def start_prewarm_def cancel_prewarm_def split: option.splits)
  moreover have "settings (record_s3_probe_all now r nd) = settings nd"
      "settings (end_process pid nd) = settings nd" for now r pid
    by (simp_all add: settings_def record_s3_probe_all_def)
  moreover have "settings (fst (self_fence_stale h i g nd)) = settings nd" for h i g
    using settings_stop(2) [of h i False nd]
    by (cases "stop_volume_flush h i False nd") (auto simp: self_fence_stale_def split: option.splits)
  ultimately show ?thesis
    by (cases op) (simp_all add: restore_from_checkpoint_def record_s3_probe_def add_dirty_bytes_def record_flush_def)
qed

lemma settings_pass: "settings (snd (fst (reconcile_once_full s rd (rc, nd)))) = settings nd"
  by (rule pass_rule [where P = "\<lambda>nd'. settings nd' = settings nd"])
     (simp_all, simp add: settings_def record_s3_probe_all_def)

lemma agent_ok:
  "node_ok (snd (agent_run xs))" "settings (snd (agent_run xs)) = settings new_node"
proof -
  have "node_ok (snd (agent_run xs)) \<and> settings (snd (agent_run xs)) = settings new_node"
  proof (induction xs rule: rev_induct)
    case (snoc x xs)
    obtain rc nd where "agent_run xs = (rc, nd)" by force
    with snoc show ?case
      by (cases x) (simp_all add: agent_run_snoc node_ok_exec settings_op pass_node_ok settings_pass)
  qed (simp add: agent_run_def)
  then show "node_ok (snd (agent_run xs))" "settings (snd (agent_run xs)) = settings new_node" by auto
qed

lemma agent_no_orphans:
  assumes "list_all agent_reliable xs"
  shows "no_orphans (snd (agent_run xs))"
  using assms
proof (induction xs rule: rev_induct)
  case (snoc x xs)
  obtain rc nd where "agent_run xs = (rc, nd)" by force
  with snoc agent_ok(1) [of xs] show ?case
    by (cases x) (simp_all add: agent_run_snoc no_orphans_exec pass_no_orphans)
qed (simp add: agent_run_def)

section \<open>The calls of a pass\<close>

definition keeps_calls :: "(pass \<Rightarrow> pass) \<Rightarrow> bool" where
  "keeps_calls f \<longleftrightarrow> (\<forall>ps. set (ps_calls ps) \<subseteq> set (ps_calls (f ps)))"

lemma keeps_calls_fold:
  assumes "\<And>x. keeps_calls (f x)"
  shows "keeps_calls (fold f xs)"
proof (induction xs)
  case (Cons x xs)
  with assms [of x] show ?case
    unfolding keeps_calls_def by (simp, blast)
qed (simp add: keeps_calls_def)

lemma step_keeps_calls:
  "keeps_calls (detach_step s d)" "keeps_calls (fence_step s running e)" "keeps_calls (start_step s s3 e)"
  "keeps_calls (stop_step s desired pending deleted cfg e')" "keeps_calls (attach_step attach e)"
  unfolding keeps_calls_def
  by (auto simp: detach_step_def fence_step_def start_step_def stop_step_def attach_step_def Let_def
      split: prod.split option.split sum.split volume_mgr_error.split)

lemma fold_keeps_calls:
  "keeps_calls (fold (detach_step s) ds)" "keeps_calls (fold (fence_step s running) es)"
  "keeps_calls (fold (start_step s s3) es)"
  "keeps_calls (fold (stop_step s desired pending deleted cfg) es')" "keeps_calls (fold (attach_step attach) es)"
  by (rule keeps_calls_fold, rule step_keeps_calls)+

lemma converge_keeps_calls: "set (ps_calls ps) \<subseteq> set (ps_calls (converge s rd cfg ps))"
  using fold_keeps_calls unfolding keeps_calls_def
  by (fastforce simp: converge_def Let_def split: option.split)

text \<open>A volume whose detach names no VM is stopped in every pass.\<close>

lemma orphan_detach_calls:
  assumes "d \<in> set ds" "dd_vm_id d = []"
  shows "CallStop (dd_volume_id d) (\<not> dd_force d) \<in> set (ps_calls (fold (detach_step s) ds ps))"
proof -
  obtain xs ys where ds: "ds = xs @ d # ys" using split_list [OF assms(1)] by blast
  have "CallStop (dd_volume_id d) (\<not> dd_force d) \<in> set (ps_calls (detach_step s d ps))" for ps
    using assms(2) by (auto simp: detach_step_def Let_def split: prod.split option.split)
  then show ?thesis
    using fold_keeps_calls(1) [of s ys] by (auto simp: ds keeps_calls_def)
qed

text \<open>A desired volume that does not run when its turn comes is started.\<close>

lemma start_calls:
  assumes wf: "hm_wf desired" and v: "hget desired i = Some v" and off: "generation ps i = None"
  shows "CallStart i (dv_placement_generation v) \<in> set (ps_calls (fold (start_step s s3) desired ps))"
proof -
  obtain xs ys where d: "desired = xs @ (i, v) # ys" using split_list [OF map_of_SomeD [OF v]] by blast
  have "hm_wf xs" "hget xs i = None" using wf by (auto simp: d map_of_eq_None_iff)
  then have "generation (fold (start_step s s3) xs ps) i = None"
    by (simp add: starts_generation off)
  then have "CallStart i (dv_placement_generation v)
      \<in> set (ps_calls (start_step s s3 (i, v) (fold (start_step s s3) xs ps)))"
    by (auto simp: start_step_def Let_def is_running_iff split: prod.split sum.split volume_mgr_error.split)
  then show ?thesis
    using fold_keeps_calls(3) [of s s3 ys] by (auto simp: d keeps_calls_def)
qed

lemma converge_starts:
  assumes v: "hget (desired_map rd) i = Some v" and off: "generation ps i = None"
  shows "CallStart i (dv_placement_generation v) \<in> set (ps_calls (converge s rd cfg ps))"
proof -
  let ?ps1 = "fold (fence_step s (hcollect (list_active (ps_node ps)))) (desired_map rd) ps"
  have "generation ?ps1 i = None"
    using off by (simp add: fences_generation split: option.split)
  from start_calls [OF hm_wf_desired_map v this, of s] show ?thesis
    using fold_keeps_calls(4,5)
    by (fastforce simp: converge_def Let_def keeps_calls_def simp flip: desired_map_def split: option.split)
qed

text \<open>A volume that runs and is neither desired nor pending is stopped.\<close>

lemma stop_calls:
  assumes wf: "hm_wf running" and g: "hget running i = Some g" and on: "generation ps i \<noteq> None"
    and "hget desired i = None" "i \<notin> set pending"
  shows "CallStop i True \<in> set (ps_calls (fold (stop_step s desired pending deleted cfg) running ps))"
proof -
  obtain xs ys where r: "running = xs @ (i, g) # ys" using split_list [OF map_of_SomeD [OF g]] by blast
  have "hm_wf xs" "hget xs i = None" using wf by (auto simp: r map_of_eq_None_iff)
  then have "generation (fold (stop_step s desired pending deleted cfg) xs ps) i \<noteq> None"
    using on by (simp add: stops_generation)
  then have "CallStop i True \<in> set (ps_calls (stop_step s desired pending deleted cfg (i, g)
      (fold (stop_step s desired pending deleted cfg) xs ps)))"
    using assms(4,5) by (auto simp: stop_step_def Let_def is_running_iff split: prod.split option.split)
  then show ?thesis
    using fold_keeps_calls(4) [of s desired pending deleted cfg ys] by (auto simp: r keeps_calls_def)
qed

text \<open>A device is removed only for a pending detach.\<close>

lemma converge_removes_none:
  assumes "CallRemoveDevice vm dev \<in> set (ps_calls (converge s rd cfg ps))"
  shows "CallRemoveDevice vm dev \<in> set (ps_calls ps)"
proof -
  let ?in = "\<lambda>ps. CallRemoveDevice vm dev \<in> set (ps_calls ps)"
  have fold_none: "?in (fold f xs ps) \<Longrightarrow> ?in ps" if "\<And>x ps. ?in (f x ps) \<Longrightarrow> ?in ps"
    for f :: "'x \<Rightarrow> pass \<Rightarrow> pass" and xs ps
    by (induction xs arbitrary: ps) (auto dest: that)
  have steps: "?in (fence_step s running e ps) \<Longrightarrow> ?in ps" "?in (start_step s s3 e ps) \<Longrightarrow> ?in ps"
    "?in (stop_step s desired pending deleted c e' ps) \<Longrightarrow> ?in ps" "?in (attach_step attach e ps) \<Longrightarrow> ?in ps"
    for running e ps s3 desired pending deleted c e' attach
    by (auto simp: fence_step_def start_step_def stop_step_def attach_step_def Let_def
        split: prod.splits option.splits sum.splits volume_mgr_error.splits if_splits)
  have 1: "?in (fold (fence_step s running) es ps) \<Longrightarrow> ?in ps" for running es ps
    by (rule fold_none) (rule steps(1))
  have 2: "?in (fold (start_step s s3) es ps) \<Longrightarrow> ?in ps" for s3 es ps
    by (rule fold_none) (rule steps(2))
  have 3: "?in (fold (stop_step s d p del c) es ps) \<Longrightarrow> ?in ps" for d p del c es ps
    by (rule fold_none) (rule steps(3))
  have 4: "?in (fold (attach_step a) es ps) \<Longrightarrow> ?in ps" for a es ps
    by (rule fold_none) (rule steps(4))
  from assms show ?thesis
    by (auto simp: converge_def Let_def split: option.splits dest!: 3 4) (auto dest!: 1 2)
qed

lemma removed_device:
  assumes "CallRemoveDevice vm dev \<in> set (snd (reconcile_once_full s rd st))"
  shows "\<exists>d \<in> set (rd_detaches rd). dd_vm_id d = vm \<and> dd_ch_device_id d = dev"
proof -
  let ?C = "CallRemoveDevice vm dev"
  have step: "?C \<in> set (ps_calls (detach_step s d ps)) \<Longrightarrow>
      ?C \<in> set (ps_calls ps) \<or> dd_vm_id d = vm \<and> dd_ch_device_id d = dev" for d ps
    by (auto simp: detach_step_def Let_def split: prod.splits option.splits if_splits)
  have det: "?C \<in> set (ps_calls (fold (detach_step s) ds ps)) \<Longrightarrow>
      ?C \<in> set (ps_calls ps) \<or> (\<exists>d \<in> set ds. dd_vm_id d = vm \<and> dd_ch_device_id d = dev)" for ds ps
  proof (induction ds arbitrary: ps)
    case (Cons d ds)
    then show ?case using step [of d ps] by fastforce
  qed simp
  from assms show ?thesis
    by (auto simp: reconcile_once_full_def Let_def split: prod.splits option.splits dest!: converge_removes_none det)
qed

end
