(* ===== verification/Node_Fencing.thy ===== *)
theory Node_Fencing
  imports Storage_Reconciler Machine_Properties
begin

text \<open>
  The replicated state machine and the node agents together: which hypervisor runs the
  ZeroFS process of a volume, and with which placement generation.

  The processes of generation \<open>g\<close> of a volume write to their own prefix of the object
  store, so two hypervisors may run the same volume for a while after a move, but never
  with the same generation.
\<close>

section \<open>The host of a volume\<close>

definition host_of :: "volume_record \<Rightarrow> string option" where
  "host_of v =
     (if vol_state v = VolAttached \<or> vol_state v = VolAvailable then vol_attached_hypervisor_id v else None)"

text \<open>
  Along the life of a volume a generation has one host.  A migrating volume has none, and
  leaves that state with the generation it was given when the migration began; otherwise a
  host appears only together with a new generation.
\<close>

definition host_fences :: "volume_record \<Rightarrow> volume_record \<Rightarrow> bool" where
  "host_fences v v' \<longleftrightarrow>
     vol_placement_generation v < vol_placement_generation v' \<or>
     vol_placement_generation v = vol_placement_generation v' \<and>
       (vol_state v \<noteq> VolMigrating \<longrightarrow>
          vol_state v' \<noteq> VolMigrating \<and> (host_of v' \<noteq> None \<longrightarrow> host_of v' = host_of v))"

lemma host_fences_refl [simp]: "host_fences v v"
  by (simp add: host_fences_def)

lemma host_fences_trans: "\<lbrakk>host_fences u v; host_fences v w\<rbrakk> \<Longrightarrow> host_fences u w"
  unfolding host_fences_def by (auto intro: less_trans)

lemma volume_step_host_fences:
  assumes "volume_step v v'" "unat (vol_placement_generation v) + 1 < 2 ^ 64"
  shows "host_fences v v' \<and> unat (vol_placement_generation v') \<le> unat (vol_placement_generation v) + 1"
  using assms(1) less_Suc_u64 [OF assms(2)]
  by (cases rule: volume_step.cases) (auto simp: host_fences_def host_of_def tombstone_def)

lemma volume_steps_host_fences:
  assumes "(volume_step ^^ n) v v'" "unat (vol_placement_generation v) + n < 2 ^ 64"
  shows "host_fences v v' \<and> unat (vol_placement_generation v') \<le> unat (vol_placement_generation v) + n"
  using assms
proof (induction n arbitrary: v')
  case (Suc n)
  then obtain u where u: "(volume_step ^^ n) v u" "volume_step u v'" by auto
  with Suc have "host_fences v u" "unat (vol_placement_generation u) \<le> unat (vol_placement_generation v) + n"
    by simp_all
  moreover from this Suc.prems have "unat (vol_placement_generation u) + 1 < 2 ^ 64" by simp
  ultimately show ?case
    using volume_step_host_fences [OF u(2)] host_fences_trans [of v u v'] by auto
qed simp

lemma log_host_fences:
  assumes wf: "hm_wf (st_volumes (sm_storage sm))" and np: "list_all (\<lambda>x. \<not> purges x) (log_steps l)"
    and v: "volume_at sm i = Some v"
    and room: "unat (vol_placement_generation v) + length (log_steps l) < 2 ^ 64"
  obtains v' where "volume_at (apply_log l sm) i = Some v'" "host_fences v v'"
proof -
  obtain ys where ys: "apply_log l sm = fold exec ys sm" "subseq ys (log_steps l)"
    by (rule log_executed)
  have "list_all (\<lambda>x. \<not> purges x) ys" "length ys \<le> length (log_steps l)"
    using np executed_subset [OF ys(2)] by (auto simp: list_all_iff)
  with vmachine.log_evolves [OF wf _ v, of ys] obtain v' where
    "volume_at (apply_log l sm) i = Some v'" "(volume_step ^^ length ys) v v'"
    by (auto simp: ys(1) sum_list_triv)
  moreover have "host_fences v v'"
    using volume_steps_host_fences [OF \<open>(volume_step ^^ length ys) v v'\<close>] room \<open>length ys \<le> _\<close> by simp
  ultimately show thesis using that by blast
qed

section \<open>What the reconciler reads\<close>

lemma desired_lookup:
  assumes ok: "volumes_ok st"
  shows "hget (desired_map (raft_reads h zone (Some st))) i =
     (case hget (st_volumes st) i of
        Some v \<Rightarrow> if host_of v = Some h then Some (to_desired h v) else None | None \<Rightarrow> None)"
proof -
  note wf = volumes_okD(1) [OF ok]
  let ?P = "\<lambda>v. assigned_here h v \<and> (vol_state v = VolAttached \<or> vol_state v = VolAvailable)"
  have P: "?P v \<longleftrightarrow> host_of v = Some h" for v
    by (auto simp: host_of_def assigned_here_def)
  let ?es = "filter (\<lambda>e. ?P (snd e)) (st_volumes st)"
  have id: "vol_id v = k" if "(k, v) \<in> set (st_volumes st)" for k v
    using volumes_okD(2) [OF ok] that wf by (simp add: volume_ok_def)
  then have keyed: "map (\<lambda>v. (dv_id v, v)) (rd_desired (raft_reads h zone (Some st))) =
      map (\<lambda>e. (fst e, to_desired h (snd e))) ?es"
    by (auto simp: raft_reads_def desired_volumes_def filter_map comp_def to_desired_def)
  have "hm_wf (map (\<lambda>e. (fst e, to_desired h (snd e))) ?es)"
    using hm_wf_filter [OF wf, of "\<lambda>e. ?P (snd e)"] by (simp add: comp_def)
  then have "hget (desired_map (raft_reads h zone (Some st))) i =
      map_option (to_desired h) (hget ?es i)"
    by (simp only: desired_map_def keyed hget_hcollect_distinct hget_map_snd)
  then show ?thesis
    using hget_filter_snd [OF wf, of ?P] P by (simp split: option.split)
qed

lemma pending_is_desired:
  assumes ok: "volumes_ok st" and i: "i \<in> dd_volume_id ` set (pending_detaches h (Some st))"
  shows "hget (desired_map (raft_reads h zone (Some st))) i \<noteq> None"
proof -
  from i obtain k v where v: "(k, v) \<in> set (st_volumes st)" "vol_id v = i" "host_of v = Some h"
    by (auto simp: pending_detaches_def host_of_def assigned_here_def)
  moreover from v(1) have "hget (st_volumes st) k = Some v"
    using volumes_okD(1) [OF ok] by simp
  moreover from this volumes_okD(2) [OF ok] have "vol_id v = k"
    by (auto simp: volume_ok_def)
  ultimately show ?thesis by (simp add: desired_lookup [OF ok])
qed

section \<open>Passes against the replicated state\<close>

abbreviation raft_pass :: "surroundings \<Rightarrow> string \<Rightarrow> string \<Rightarrow> storage_state \<Rightarrow> agent_step" where
  "raft_pass s h zone st \<equiv> Pass s (raft_reads h zone (Some st))"

lemma raft_pass_runs:
  assumes ok: "volumes_ok st" and cfg: "zone_config zone (Some st) \<noteq> None"
  shows "runs (p @ [raft_pass s h zone st]) i =
     (case hget (st_volumes st) i of
        Some v \<Rightarrow>
          if host_of v = Some h \<and>
             (before_converge s (raft_reads h zone (Some st)) (snd (agent_run p)) i = Some (vol_placement_generation v) \<or>
              launchable (sr_host s) (settings new_node) i)
          then Some (vol_placement_generation v) else None
      | None \<Rightarrow> None)"
proof -
  obtain rc nd where r: "agent_run p = (rc, nd)" by force
  have nd: "node_ok nd" "settings nd = settings new_node"
    using agent_ok [of p] r by simp_all
  from cfg obtain c where c: "rd_config (raft_reads h zone (Some st)) = Some c"
    by (auto simp: raft_reads_def)
  have "i \<notin> dd_volume_id ` set (rd_detaches (raft_reads h zone (Some st)))"
    if "hget (desired_map (raft_reads h zone (Some st))) i = None"
    using pending_is_desired [OF ok, of i h zone] that by (auto simp: raft_reads_def)
  then show ?thesis
    using nd by (auto simp: agent_run_snoc r reconcile_generation [OF nd(1) c] desired_lookup [OF ok] to_desired_def
      split: option.splits if_splits)
qed

lemma raft_pass_host:
  assumes "volumes_ok st" "zone_config zone (Some st) \<noteq> None"
    and "runs (p @ [raft_pass s h zone st]) i = Some g"
  obtains v where "hget (st_volumes st) i = Some v" "host_of v = Some h" "vol_placement_generation v = g"
  using assms(3) raft_pass_runs [OF assms(1,2), of p s h i] by (auto split: option.splits if_splits)

definition host_launches :: "host \<Rightarrow> bool" where
  "host_launches h \<longleftrightarrow> (\<forall>i. launchable h (settings new_node) i)"

lemma raft_pass_converges:
  assumes "volumes_ok st" "zone_config zone (Some st) \<noteq> None" "host_launches (sr_host s)"
  shows "runs (p @ [raft_pass s h zone st]) i =
     (case hget (st_volumes st) i of
        Some v \<Rightarrow> if host_of v = Some h then Some (vol_placement_generation v) else None | None \<Rightarrow> None)"
  using raft_pass_runs [OF assms(1,2), of p s h i] assms(3)
  by (auto simp: host_launches_def split: option.splits)

lemma reached_volumes_ok: "volumes_ok (sm_storage (apply_log l full_replica))"
  by (rule mi_volumes.log_inv [OF _ log_all]) (simp add: volumes_ok_empty)

end
