(* ===== verification/Node_Properties.thy ===== *)
theory Node_Properties
  imports Node_Fencing
begin

text \<open>
  What the node agents promise together with the replicated state machine, and four runs in
  which they do not do what their comments say.
\<close>

section \<open>Samples\<close>

definition good_host :: host where
  "good_host =
     \<lparr>h_is_executable = (\<lambda>_. True), h_exists = (\<lambda>_. True), h_which = (\<lambda>_. None), h_create_dir = (\<lambda>_. None),
      h_set_mode = (\<lambda>_ _. None), h_write = (\<lambda>_. None), h_spawn = (\<lambda>_ _. None), h_appears = (\<lambda>_ _. True),
      h_command = (\<lambda>_ _. CmdOk []), h_wait = (\<lambda>_. WaitExited), h_kill = (\<lambda>_. None),
      h_try_wait_fails = (\<lambda>_. False)\<rparr>"

definition idle_cache_host :: cache_host where
  "idle_cache_host =
     \<lparr>ch_exists = (\<lambda>_. False), ch_is_dir = (\<lambda>_. False), ch_statvfs = (\<lambda>_. Inl []),
      ch_create_dir_all = (\<lambda>_. None), ch_canonicalize = Inr, ch_remove_dir_all = (\<lambda>_. None)\<rparr>"

definition sample_surroundings :: surroundings where
  "sample_surroundings =
     \<lparr>sr_host = good_host, sr_cache_host = idle_cache_host, sr_remove_device = (\<lambda>_ _. None),
      sr_attacher = Some (\<lambda>_ _. None), sr_passphrase = ''secret'', sr_s3_reachable = (\<lambda>_. True), sr_now = 0\<rparr>"

definition sample_zone :: storage_command where
  "sample_zone = SetStorageConfig ''eu'' ''z1''
     \<lparr>cfg_s3_endpoint = ''https://s3'', cfg_s3_bucket = ''b'', cfg_s3_access_key = ''a'', cfg_s3_secret_key = ''k'',
      cfg_cache_disk_path = ''/mnt/cache'', cfg_cache_disk_size_gb = 100, cfg_cache_memory_size_gb = 4\<rparr>"

definition attached_log :: log where
  "attached_log = storage_log
     [sample_zone, CreateVolume ''v1'' ''data'' 10 ''o'' ''p'' ''e'' Data None None, VolumeAttach ''v1'' ''vm'' ''h1'']"

definition more_log :: log where
  "more_log = storage_log [CreateVolume ''v2'' ''logs'' 10 ''o'' ''p'' ''e'' Data None None]"

abbreviation state_after :: "log \<Rightarrow> storage_state" where
  "state_after l \<equiv> sm_storage (apply_log l full_replica)"

definition placement_of :: "string \<Rightarrow> storage_state \<Rightarrow> (string option \<times> u64) option" where
  "placement_of i st = map_option (\<lambda>v. (host_of v, vol_placement_generation v)) (hget (st_volumes st) i)"

lemma good_host_reliable: "host_launches good_host" "host_mounts good_host" "host_stops good_host"
  by (simp_all add: host_launches_def launchable_def good_host_def resolve_binary_def prepare_volume_def
      settings_def new_node_def new_volume_mgr_def host_mounts_def host_stops_def)

lemma sample_host [simp]: "sr_host sample_surroundings = good_host"
  by (simp add: sample_surroundings_def)

lemma node_samples:
  "hget (st_storage_configs (state_after attached_log)) ''z1'' \<noteq> None \<and>
   hget (st_storage_configs (sm_storage (apply_log more_log (apply_log attached_log full_replica)))) ''z1'' \<noteq> None \<and>
   placement_of ''v1'' (state_after attached_log) = Some (Some ''h1'', 1) \<and>
   placement_of ''v1'' (sm_storage (apply_log more_log (apply_log attached_log full_replica))) = Some (Some ''h1'', 1) \<and>
   list_all (\<lambda>x. \<not> purges x) (log_steps more_log) \<and> length (log_steps more_log) = 1"
  by code_simp

lemma zone_config_iff: "zone_config z (Some st) \<noteq> None \<longleftrightarrow> hget (st_storage_configs st) z \<noteq> None"
  by (simp add: zone_config_def)

lemma sample_zones:
  "zone_config ''z1'' (Some (state_after attached_log)) \<noteq> None"
  "zone_config ''z1'' (Some (sm_storage (apply_log more_log (apply_log attached_log full_replica)))) \<noteq> None"
  unfolding zone_config_iff using node_samples by blast+

lemma sample_pass_runs:
  assumes "placement_of i (state_after l) = Some (Some h, g)" "zone_config z (Some (state_after l)) \<noteq> None"
  shows "runs (p @ [raft_pass sample_surroundings h z (state_after l)]) i = Some g"
proof -
  obtain v where "hget (st_volumes (state_after l)) i = Some v" "host_of v = Some h" "vol_placement_generation v = g"
    using assms(1) by (auto simp: placement_of_def)
  with raft_pass_converges [OF reached_volumes_ok assms(2), of sample_surroundings p h i] show ?thesis
    by (simp add: good_host_reliable)
qed

section \<open>Placement\<close>

text \<open>
  C2: Take any replica state and any later one, without a purge of tombstones in between.
  If the reconciler of hypervisor \<open>a\<close>, after any history and whatever the host answers, ends a
  pass against the earlier state with volume \<open>i\<close> running at generation \<open>g\<close>, and the
  reconciler of \<open>b\<close> ends a pass against the later state with the same volume running at the
  same generation, then \<open>a\<close> and \<open>b\<close> are the same hypervisor.  Nodes may lag behind each other
  by any number of commands.
\<close>

theorem one_host_per_generation:
  fixes l0 l :: log and p q :: "agent_step list" and g :: u64 and a b i :: string
  defines "sm \<equiv> apply_log l0 full_replica"
  assumes first: "runs (p @ [raft_pass s a za (sm_storage sm)]) i = Some g"
    and second: "runs (q @ [raft_pass s' b zb (sm_storage (apply_log l sm))]) i = Some g"
    and config: "zone_config za (Some (sm_storage sm)) \<noteq> None"
      "zone_config zb (Some (sm_storage (apply_log l sm))) \<noteq> None"
    and np: "list_all (\<lambda>x. \<not> purges x) (log_steps l)"
    and room: "unat g + length (log_steps l) < 2 ^ 64"
  shows "a = b"
proof -
  have ok: "volumes_ok (sm_storage sm)" "volumes_ok (sm_storage (apply_log l sm))"
    using reached_volumes_ok [of l0] reached_volumes_ok [of "l0 @ l"] by (simp_all add: sm_def)
  obtain v where v: "volume_at sm i = Some v" "host_of v = Some a" "vol_placement_generation v = g"
    by (rule raft_pass_host [OF ok(1) config(1) first])
  obtain w where w: "volume_at (apply_log l sm) i = Some w" "host_of w = Some b" "vol_placement_generation w = g"
    by (rule raft_pass_host [OF ok(2) config(2) second])
  obtain v' where "volume_at (apply_log l sm) i = Some v'" "host_fences v v'"
    by (rule log_host_fences [OF volumes_okD(1) [OF ok(1)] np v(1)]) (use room v(3) in simp)
  with w v(2,3) have "host_of w = host_of v"
    by (auto simp: host_fences_def host_of_def split: if_splits)
  with v(2) w(2) show ?thesis by simp
qed

theorem one_host_per_generation_witness:
  "runs ([] @ [raft_pass sample_surroundings ''h1'' ''z1'' (state_after attached_log)]) ''v1'' = Some 1 \<and>
   runs ([] @ [raft_pass sample_surroundings ''h1'' ''z1''
     (sm_storage (apply_log more_log (apply_log attached_log full_replica)))]) ''v1'' = Some 1 \<and> ''h1'' = ''h1''"
proof -
  have 1: "runs ([] @ [raft_pass sample_surroundings ''h1'' ''z1'' (state_after attached_log)]) ''v1'' = Some 1"
    by (rule sample_pass_runs) (use node_samples sample_zones in blast)+
  have 2: "runs ([] @ [raft_pass sample_surroundings ''h1'' ''z1''
      (sm_storage (apply_log more_log (apply_log attached_log full_replica)))]) ''v1'' = Some 1"
    using sample_pass_runs [of "''v1''" "attached_log @ more_log" "''h1''" 1 "''z1''" "[]"] node_samples sample_zones
    unfolding log_simps by blast
  have np: "list_all (\<lambda>x. \<not> purges x) (log_steps more_log)" and len: "length (log_steps more_log) = 1"
    using node_samples by blast+
  have "''h1'' = ''h1''"
    by (rule one_host_per_generation [OF 1 2 sample_zones np]) (simp add: len)
  with 1 2 show ?thesis by blast
qed

text \<open>
  C5: On a host where processes can be launched, one pass is enough: whatever ran before, a
  pass of hypervisor \<open>a\<close> against a reachable replica state leaves exactly the volumes running
  that the state places on \<open>a\<close>, each with its current generation.
\<close>

theorem reconciler_converges:
  assumes "host_launches (sr_host s)" "zone_config z (Some (state_after l)) \<noteq> None"
  shows "runs (p @ [raft_pass s a z (state_after l)]) i =
     (case hget (st_volumes (state_after l)) i of
        Some v \<Rightarrow> if host_of v = Some a then Some (vol_placement_generation v) else None | None \<Rightarrow> None)"
  by (rule raft_pass_converges [OF reached_volumes_ok assms(2,1)])

theorem reconciler_converges_witness:
  "host_launches (sr_host sample_surroundings) \<and> zone_config ''z1'' (Some (state_after attached_log)) \<noteq> None \<and>
   runs ([] @ [raft_pass sample_surroundings ''h1'' ''z1'' (state_after attached_log)]) ''v1'' = Some 1"
proof -
  note z = sample_zones(1)
  have h: "host_launches (sr_host sample_surroundings)" by (simp add: good_host_reliable)
  obtain v where "hget (st_volumes (state_after attached_log)) ''v1'' = Some v"
    "host_of v = Some ''h1''" "vol_placement_generation v = 1"
    using node_samples by (auto simp: placement_of_def)
  with reconciler_converges [OF h z, of "[]" "''h1''" "''v1''"] h z show ?thesis by simp
qed

section \<open>Processes\<close>

text \<open>
  C8: Take any history of a node on a host that can always execute \<^verbatim>\<open>mount\<close> and end a
  process.  Two live ZeroFS processes of a volume are one process, the manager tracks it, and
  its generation is the recorded one: there is at most one writer of a volume on a node.
\<close>

theorem one_process_per_volume:
  assumes "list_all agent_reliable xs"
    and "hget (nd_live (snd (agent_run xs))) pid = Some (i, g)"
    and "hget (nd_live (snd (agent_run xs))) pid' = Some (i, g')"
  shows "pid = pid' \<and> g = g' \<and> runs xs i = Some g"
  by (rule one_process [OF agent_ok(1) agent_no_orphans [OF assms(1)] assms(2,3)])

abbreviation start_v1 :: "host \<Rightarrow> agent_step" where
  "start_v1 h \<equiv> Op (OpStart h ''v1''
     \<lparr>s3_endpoint = ''https://s3'', s3_bucket = ''b'', s3_access_key = ''a'', s3_secret_key = ''k''\<rparr> ''pw'' 1)"

definition no_mount_host :: host where
  "no_mount_host = good_host\<lparr>h_command := (\<lambda>c _. if c = ''mount'' then CmdNotRun ''fork failed'' else CmdOk [])\<rparr>"

lemma process_samples:
  "nd_live (snd (agent_run [start_v1 good_host])) = [(1, ''v1'', 1)] \<and>
   nd_live (snd (agent_run [start_v1 no_mount_host, start_v1 no_mount_host])) = [(1, ''v1'', 1), (2, ''v1'', 1)] \<and>
   processes (snd (agent_run [start_v1 no_mount_host, start_v1 no_mount_host])) = []"
  by code_simp

theorem one_process_per_volume_witness:
  "list_all agent_reliable [start_v1 good_host] \<and>
   hget (nd_live (snd (agent_run [start_v1 good_host]))) 1 = Some (''v1'', 1) \<and>
   runs [start_v1 good_host] ''v1'' = Some 1"
proof -
  have r: "list_all agent_reliable [start_v1 good_host]"
    by (simp add: op_reliable_def good_host_reliable)
  have l: "hget (nd_live (snd (agent_run [start_v1 good_host]))) 1 = Some (''v1'', 1)"
    using process_samples by simp
  show ?thesis using r l one_process_per_volume [OF r l l] by blast
qed

section \<open>Where the agents differ from their comments\<close>

text \<open>
  \<^verbatim>\<open>start_volume\<close> kills the process it spawned when the mount fails, except when the
  \<^verbatim>\<open>mount\<close> command cannot be executed: then the process stays alive and untracked, and the
  next pass starts a second one with the same generation.
\<close>

theorem failed_mount_leaves_writer:
  "nd_live (snd (agent_run [start_v1 no_mount_host, start_v1 no_mount_host])) = [(1, ''v1'', 1), (2, ''v1'', 1)] \<and>
   processes (snd (agent_run [start_v1 no_mount_host, start_v1 no_mount_host])) = []"
  using process_samples by blast

text \<open>
  \<^verbatim>\<open>deleted_volumes\<close> selects the deleted volumes that are still assigned to the node, but
  deleting a volume clears the assignment: no local directory is ever cleaned up.
\<close>

theorem deleted_volumes_never_reported: "deleted_volumes h (Some (state_after l)) = []"
proof -
  have "vol_attached_hypervisor_id v = None" if "(i, v) \<in> set (st_volumes (state_after l))" "vol_state v = VolDeleted" for i v
    using volumes_okD(2) [OF reached_volumes_ok, of l i v] volumes_okD(1) [OF reached_volumes_ok, of l] that
    by (simp add: volume_ok_def)
  then show ?thesis
    by (force simp: deleted_volumes_def assigned_here_def filter_empty_conv)
qed

text \<open>
  A volume that is available and assigned to a node, as \<^verbatim>\<open>CreateVolume\<close> with a hypervisor
  leaves it, is at once desired and pending detach: every pass stops its process and starts
  it again.
\<close>

theorem idle_volume_restarted:
  assumes v: "hget (st_volumes (state_after l)) i = Some v"
    and idle: "vol_state v = VolAvailable" "vol_attached_hypervisor_id v = Some h" "vol_attached_vm_id v = None"
    and z: "zone_config z (Some (state_after l)) \<noteq> None"
  shows "{CallStop i True, CallStart i (vol_placement_generation v)} \<subseteq>
    set (snd (reconcile_once_full s (raft_reads h z (Some (state_after l))) st))"
proof -
  let ?rd = "raft_reads h z (Some (state_after l))"
  have ok: "volumes_ok (state_after l)" by (rule reached_volumes_ok)
  have id: "vol_id v = i" using volumes_okD(2) [OF ok v] by (simp add: volume_ok_def)
  obtain rc nd nd1 reaped where st: "st = (rc, nd)" "reap_exited (sr_host s) nd = (nd1, reaped)" by force
  define ps where "ps = \<lparr>ps_node = nd1, ps_report = (empty_report (rc_pass_count rc))\<lparr>rp_reaped := length reaped\<rparr>,
                ps_attached = rc_attached_volumes rc, ps_calls = []\<rparr>"
  define ps1 where "ps1 = fold (detach_step s) (rd_detaches ?rd) ps"
  have "v \<in> snd ` set (st_volumes (state_after l))"
    using map_of_SomeD [OF v] by force
  then obtain d where d: "d \<in> set (rd_detaches ?rd)" "dd_volume_id d = i" "dd_vm_id d = []" "\<not> dd_force d"
    using idle id by (force simp: raft_reads_def pending_detaches_def assigned_here_def)
  have stopped: "CallStop i True \<in> set (ps_calls ps1)"
    using orphan_detach_calls [OF d(1,3), of s ps] d(2,4) by (simp add: ps1_def)
  have off: "generation ps1 i = None"
    using d by (auto simp: ps1_def detaches_generation detachable_def)
  have want: "hget (desired_map ?rd) i = Some (to_desired h v)"
    using desired_lookup [OF ok, of h z i] v idle by (simp add: host_of_def)
  from z obtain cfg where cfg: "rd_config ?rd = Some cfg" by (auto simp: raft_reads_def)
  have res: "snd (reconcile_once_full s ?rd st) = ps_calls (converge s ?rd cfg ps1)"
    by (simp add: reconcile_once_full_def st cfg ps_def ps1_def Let_def)
  have "CallStart i (vol_placement_generation v) \<in> set (ps_calls (converge s ?rd cfg ps1))"
    by (rule converge_starts [OF want off, unfolded to_desired_def, simplified])
  with stopped converge_keeps_calls [of ps1 s ?rd cfg] show ?thesis by (auto simp: res)
qed

text \<open>
  \<^verbatim>\<open>VolumeDetach\<close> clears the assignment as well, so a detached volume is pending on no node:
  the process is stopped as one that is no longer desired, and the device is not removed from
  the VM first.
\<close>

theorem detach_never_pending:
  fixes l :: log and ctxs :: contexts and i :: string
  defines "x \<equiv> (ctxs, Basic (StorageCommand (VolumeDetach i)))"
  assumes "snd (apply_command (fst x) (snd x) (apply_log l full_replica)) = Ok"
  shows "i \<notin> dd_volume_id ` set (pending_detaches h (Some (state_after (l @ [x]))))"
proof -
  let ?st = "state_after (l @ [x])"
  have ok: "volumes_ok ?st" by (rule reached_volumes_ok)
  obtain v where v: "hget (st_volumes ?st) i = Some v" "vol_attached_hypervisor_id v = None"
    using assms(2) by (auto simp: x_def apply_VolumeDetach_def split: option.splits if_splits)
  have "w = v" if "(k, w) \<in> set (st_volumes ?st)" "vol_id w = i" for k w
    using that v(1) volumes_okD(1) [OF ok] volumes_okD(2) [OF ok, of k w] by (simp add: volume_ok_def)
  with v(2) show ?thesis
    by (auto simp: pending_detaches_def assigned_here_def)
qed

end
