(* ===== verification/Capacity.thy ===== *)
theory Capacity
  imports Node_Prelude
begin

text \<open>
  Admission control of a node, \<^verbatim>\<open>layers/forge/src/capacity.rs\<close>: reservations that expire
  after sixty seconds, used resources, and the check-and-reserve step that
  \<^verbatim>\<open>create_instance\<close> in \<^verbatim>\<open>layers/forge/src/api.rs\<close> takes before it creates a VM.

  The sums of the source are sums of machine words and wrap around; the invariant bounds them
  by the totals, so that under it they do not.  \<open>commit\<close> and \<open>release\<close> take their locks one
  after the other; the sections between are steps of their own, so that they can be
  interleaved with other calls.
\<close>

section \<open>The tracker\<close>

record reservation =
  rs_vcpus :: u32
  rs_memory_mb :: u64
  rs_created_at :: instant

record capacity_tracker =
  ct_total_vcpus :: u32
  ct_total_memory_mb :: u64
  ct_physical_vcpus :: u32
  ct_physical_memory_mb :: u64
  ct_reserved_vcpus :: u32
  ct_reserved_memory_mb :: u64
  ct_used_vcpus :: u32
  ct_used_memory_mb :: u64
  ct_reservations :: "(string, reservation) hmap"

definition reservation_expiry :: duration where
  "reservation_expiry = from_secs 60"

definition active :: "instant \<Rightarrow> reservation \<Rightarrow> bool" where
  "active now r \<longleftrightarrow> elapsed now (rs_created_at r) < reservation_expiry"

text \<open>
  \<^verbatim>\<open>(n as f64 * 1.0) as u64\<close>: 53 significant bits, ties to even.  The memory size is a
  number of kibibytes divided by 1024, below \<open>2 ^ 54\<close>, where only odd numbers are inexact.
  Twice a 32-bit number is exact, and \<^verbatim>\<open>as u32\<close> saturates.
\<close>

definition memory_as_f64 :: "u64 \<Rightarrow> u64" where
  "memory_as_f64 n =
     (if n < 9007199254740992 \<or> n mod 2 = 0 then n else if n mod 4 = 1 then n - 1 else n + 1)"

definition overcommit_vcpus :: "u32 \<Rightarrow> u32" where
  "overcommit_vcpus n = (if n \<le> 2147483647 then 2 * n else - 1)"

definition new_tracker_for :: "u32 \<Rightarrow> u64 \<Rightarrow> capacity_tracker" where
  "new_tracker_for sys_cpus sys_mem =
     \<lparr>ct_total_vcpus = (if sys_cpus > 1 then overcommit_vcpus (sys_cpus - 1) else 1),
      ct_total_memory_mb = (if sys_mem > 1024 then memory_as_f64 (sys_mem - 1024) else sys_mem),
      ct_physical_vcpus = sys_cpus, ct_physical_memory_mb = sys_mem,
      ct_reserved_vcpus = 1, ct_reserved_memory_mb = 1024,
      ct_used_vcpus = 0, ct_used_memory_mb = 0, ct_reservations = []\<rparr>"

definition with_capacity :: "u32 \<Rightarrow> u64 \<Rightarrow> capacity_tracker" where
  "with_capacity total_vcpus total_memory_mb =
     \<lparr>ct_total_vcpus = total_vcpus, ct_total_memory_mb = total_memory_mb,
      ct_physical_vcpus = total_vcpus, ct_physical_memory_mb = total_memory_mb,
      ct_reserved_vcpus = 0, ct_reserved_memory_mb = 0,
      ct_used_vcpus = 0, ct_used_memory_mb = 0, ct_reservations = []\<rparr>"

definition active_reservations :: "instant \<Rightarrow> capacity_tracker \<Rightarrow> (string, reservation) hmap" where
  "active_reservations now t = filter (\<lambda>e. active now (snd e)) (ct_reservations t)"

definition pending_vcpus :: "instant \<Rightarrow> capacity_tracker \<Rightarrow> u32" where
  "pending_vcpus now t = sum_list (map rs_vcpus (hvalues (active_reservations now t)))"

definition pending_memory_mb :: "instant \<Rightarrow> capacity_tracker \<Rightarrow> u64" where
  "pending_memory_mb now t = sum_list (map rs_memory_mb (hvalues (active_reservations now t)))"

definition available_vcpus :: "instant \<Rightarrow> capacity_tracker \<Rightarrow> u32" where
  "available_vcpus now t = saturating_sub (ct_total_vcpus t) (ct_used_vcpus t + pending_vcpus now t)"

definition available_memory_mb :: "instant \<Rightarrow> capacity_tracker \<Rightarrow> u64" where
  "available_memory_mb now t = saturating_sub (ct_total_memory_mb t) (ct_used_memory_mb t + pending_memory_mb now t)"

definition can_admit :: "instant \<Rightarrow> u32 \<Rightarrow> u64 \<Rightarrow> capacity_tracker \<Rightarrow> bool" where
  "can_admit now v m t \<longleftrightarrow> available_vcpus now t \<ge> v \<and> available_memory_mb now t \<ge> m"

definition purge_expired :: "instant \<Rightarrow> capacity_tracker \<Rightarrow> capacity_tracker \<times> nat" where
  "purge_expired now t =
     (let kept = active_reservations now t
      in (t\<lparr>ct_reservations := kept\<rparr>, length (ct_reservations t) - length kept))"

definition reserve :: "instant \<Rightarrow> string \<Rightarrow> u32 \<Rightarrow> u64 \<Rightarrow> capacity_tracker \<Rightarrow> capacity_tracker" where
  "reserve now i v m t =
     t\<lparr>ct_reservations :=
        hinsert i \<lparr>rs_vcpus = v, rs_memory_mb = m, rs_created_at = now\<rparr> (active_reservations now t)\<rparr>"

text \<open>The expired reservations are dropped whether the request is admitted or not.\<close>

definition try_reserve ::
    "instant \<Rightarrow> string \<Rightarrow> u32 \<Rightarrow> u64 \<Rightarrow> capacity_tracker \<Rightarrow> capacity_tracker \<times> bool" where
  "try_reserve now i v m t =
     (let t1 = fst (purge_expired now t);
          reserved_v = sum_list (map rs_vcpus (hvalues (ct_reservations t1)));
          reserved_m = sum_list (map rs_memory_mb (hvalues (ct_reservations t1)));
          avail_v = saturating_sub (ct_total_vcpus t1) (ct_used_vcpus t1 + reserved_v);
          avail_m = saturating_sub (ct_total_memory_mb t1) (ct_used_memory_mb t1 + reserved_m)
      in if avail_v \<ge> v \<and> avail_m \<ge> m
         then (t1\<lparr>ct_reservations :=
                 hinsert i \<lparr>rs_vcpus = v, rs_memory_mb = m, rs_created_at = now\<rparr> (ct_reservations t1)\<rparr>, True)
         else (t1, False))"

definition list_reservations :: "instant \<Rightarrow> capacity_tracker \<Rightarrow> (string \<times> reservation) list" where
  "list_reservations now t = active_reservations now t"

text \<open>The lock sections of \<^verbatim>\<open>commit\<close> and \<^verbatim>\<open>release\<close>.\<close>

definition drop_reservation :: "string \<Rightarrow> capacity_tracker \<Rightarrow> capacity_tracker" where
  "drop_reservation i t = t\<lparr>ct_reservations := hremove i (ct_reservations t)\<rparr>"

definition use_vcpus :: "u32 \<Rightarrow> capacity_tracker \<Rightarrow> capacity_tracker" where
  "use_vcpus v t = t\<lparr>ct_used_vcpus := ct_used_vcpus t + v\<rparr>"

definition use_memory :: "u64 \<Rightarrow> capacity_tracker \<Rightarrow> capacity_tracker" where
  "use_memory m t = t\<lparr>ct_used_memory_mb := ct_used_memory_mb t + m\<rparr>"

definition free_vcpus :: "u32 \<Rightarrow> capacity_tracker \<Rightarrow> capacity_tracker" where
  "free_vcpus v t = t\<lparr>ct_used_vcpus := saturating_sub (ct_used_vcpus t) v\<rparr>"

definition free_memory :: "u64 \<Rightarrow> capacity_tracker \<Rightarrow> capacity_tracker" where
  "free_memory m t = t\<lparr>ct_used_memory_mb := saturating_sub (ct_used_memory_mb t) m\<rparr>"

definition commit :: "string \<Rightarrow> u32 \<Rightarrow> u64 \<Rightarrow> capacity_tracker \<Rightarrow> capacity_tracker" where
  "commit i v m t = use_memory m (use_vcpus v (drop_reservation i t))"

definition release_resources :: "string \<Rightarrow> u32 \<Rightarrow> u64 \<Rightarrow> capacity_tracker \<Rightarrow> capacity_tracker" where
  "release_resources i v m t = free_memory m (free_vcpus v (drop_reservation i t))"

definition sync_used :: "u32 \<Rightarrow> u64 \<Rightarrow> capacity_tracker \<Rightarrow> capacity_tracker" where
  "sync_used v m t = t\<lparr>ct_used_vcpus := v, ct_used_memory_mb := m\<rparr>"

text \<open>
  \<^verbatim>\<open>snapshot\<close>; the ratios of overcommitment, which are constants, are left out and the
  answer of \<^verbatim>\<open>df\<close> is an argument, as are the processor count and the contents of
  \<^verbatim>\<open>/proc/meminfo\<close> for \<^verbatim>\<open>new\<close>.
\<close>

record node_capacity =
  nc_total_vcpus :: u32
  nc_total_memory_mb :: u64
  nc_used_vcpus :: u32
  nc_used_memory_mb :: u64
  nc_physical_vcpus :: u32
  nc_physical_memory_mb :: u64
  nc_reserved_vcpus :: u32
  nc_reserved_memory_mb :: u64
  nc_allocatable_vcpus :: u32
  nc_allocatable_memory_mb :: u64
  nc_available_vcpus :: u32
  nc_available_memory_mb :: u64
  nc_disk_total_gb :: u64
  nc_disk_used_gb :: u64
  nc_disk_available_gb :: u64

definition snapshot_capacity :: "instant \<Rightarrow> u64 \<times> u64 \<times> u64 \<Rightarrow> capacity_tracker \<Rightarrow> node_capacity" where
  "snapshot_capacity now disk t = (case disk of (disk_total, disk_used, disk_avail) \<Rightarrow>
     \<lparr>nc_total_vcpus = ct_total_vcpus t, nc_total_memory_mb = ct_total_memory_mb t,
      nc_used_vcpus = ct_used_vcpus t, nc_used_memory_mb = ct_used_memory_mb t,
      nc_physical_vcpus = ct_physical_vcpus t, nc_physical_memory_mb = ct_physical_memory_mb t,
      nc_reserved_vcpus = ct_reserved_vcpus t, nc_reserved_memory_mb = ct_reserved_memory_mb t,
      nc_allocatable_vcpus = ct_total_vcpus t, nc_allocatable_memory_mb = ct_total_memory_mb t,
      nc_available_vcpus = available_vcpus now t, nc_available_memory_mb = available_memory_mb now t,
      nc_disk_total_gb = disk_total, nc_disk_used_gb = disk_used, nc_disk_available_gb = disk_avail\<rparr>)"

section \<open>Sums without wrap-around\<close>

lemma unat_sum_list:
  fixes ws :: "'a::len word list"
  assumes "sum_list (map unat ws) < 2 ^ LENGTH('a)"
  shows "unat (sum_list ws) = sum_list (map unat ws)"
  using assms
proof (induction ws)
  case (Cons w ws)
  then have "unat (sum_list ws) = sum_list (map unat ws)" by simp
  with Cons.prems show ?case by (simp add: unat_word_ariths)
qed simp

text \<open>
  One resource: if what is used and pending fits into the total, then a request no larger
  than the available amount fits as well, and conversely.
\<close>

lemma admit_iff:
  fixes total used v :: "'a::len word"
  assumes fits: "unat used + sum_list (map unat ws) \<le> unat total"
  shows "v \<le> saturating_sub total (used + sum_list ws) \<longleftrightarrow>
    unat used + sum_list (map unat ws) + unat v \<le> unat total"
proof -
  have lt: "unat used + sum_list (map unat ws) < 2 ^ LENGTH('a)"
    by (rule le_less_trans [OF fits unsigned_less])
  then have sum: "unat (sum_list ws) = sum_list (map unat ws)" by (simp add: unat_sum_list)
  from lt have "unat (used + sum_list ws) = unat used + sum_list (map unat ws)"
    by (simp add: unat_word_ariths sum)
  with fits show ?thesis
    by (auto simp: word_le_nat_alt unat_saturating_sub)
qed

lemma sum_filter_le: "(\<Sum>x\<leftarrow>filter P xs. f x) \<le> (\<Sum>x\<leftarrow>xs. f x)" for f :: "'a \<Rightarrow> nat"
  by (induction xs) auto

lemma sum_hinsert_le:
  fixes f :: "'v \<Rightarrow> nat"
  assumes "hm_wf m"
  shows "(\<Sum>e\<leftarrow>hinsert k v m. f (snd e)) \<le> (\<Sum>e\<leftarrow>m. f (snd e)) + f v"
proof (cases "hget m k")
  case None
  with hm.sum_entries_put_new [OF assms, of k "\<lambda>e. f (snd e)" v] show ?thesis by simp
next
  case (Some w)
  with hm.sum_entries_put_upd [OF assms, of k w "\<lambda>e. f (snd e)" v] show ?thesis by simp
qed

section \<open>The tracker is never overcommitted\<close>

definition demand :: "(reservation \<Rightarrow> nat) \<Rightarrow> instant \<Rightarrow> capacity_tracker \<Rightarrow> nat" where
  "demand f now t = (\<Sum>e\<leftarrow>active_reservations now t. f (snd e))"

abbreviation vcpu_demand :: "instant \<Rightarrow> capacity_tracker \<Rightarrow> nat" where
  "vcpu_demand \<equiv> demand (\<lambda>r. unat (rs_vcpus r))"

abbreviation memory_demand :: "instant \<Rightarrow> capacity_tracker \<Rightarrow> nat" where
  "memory_demand \<equiv> demand (\<lambda>r. unat (rs_memory_mb r))"

definition within_capacity :: "instant \<Rightarrow> capacity_tracker \<Rightarrow> bool" where
  "within_capacity now t \<longleftrightarrow>
     hm_wf (ct_reservations t) \<and>
     unat (ct_used_vcpus t) + vcpu_demand now t \<le> unat (ct_total_vcpus t) \<and>
     unat (ct_used_memory_mb t) + memory_demand now t \<le> unat (ct_total_memory_mb t)"

lemma active_later: "\<lbrakk>active now' r; now \<le> now'\<rbrakk> \<Longrightarrow> active now r"
  by (auto simp: active_def elapsed_def)

lemma active_reservations_later:
  "now \<le> now' \<Longrightarrow> active_reservations now' t = filter (\<lambda>e. active now' (snd e)) (active_reservations now t)"
  by (auto simp: active_reservations_def filter_filter dest: active_later intro: filter_cong)

lemma demand_later: "now \<le> now' \<Longrightarrow> demand f now' t \<le> demand f now t"
  by (simp add: demand_def active_reservations_later [of now now'] sum_filter_le)

lemma within_capacity_later:
  assumes "within_capacity now t" "now \<le> now'"
  shows "within_capacity now' t"
  using assms demand_later [OF assms(2), of _ t] unfolding within_capacity_def
  by (meson add_left_mono order_trans)

lemma active_idem: "filter (\<lambda>e. active now (snd e)) (active_reservations now t) = active_reservations now t"
  by (simp add: active_reservations_def)

lemma hm_wf_active: "hm_wf (ct_reservations t) \<Longrightarrow> hm_wf (active_reservations now t)"
  by (simp add: active_reservations_def hm_wf_filter)

lemma try_reserve_admits:
  assumes "within_capacity now t"
  shows "snd (try_reserve now i v m t) \<longleftrightarrow>
    unat (ct_used_vcpus t) + vcpu_demand now t + unat v \<le> unat (ct_total_vcpus t) \<and>
    unat (ct_used_memory_mb t) + memory_demand now t + unat m \<le> unat (ct_total_memory_mb t)"
proof -
  let ?v = "map rs_vcpus (hvalues (active_reservations now t))"
  let ?m = "map rs_memory_mb (hvalues (active_reservations now t))"
  have d: "vcpu_demand now t = sum_list (map unat ?v)" "memory_demand now t = sum_list (map unat ?m)"
    by (simp_all add: demand_def comp_def)
  from assms have
    "unat (ct_used_vcpus t) + sum_list (map unat ?v) \<le> unat (ct_total_vcpus t)"
    "unat (ct_used_memory_mb t) + sum_list (map unat ?m) \<le> unat (ct_total_memory_mb t)"
    by (simp_all add: within_capacity_def d)
  from admit_iff [OF this(1), of v] admit_iff [OF this(2), of m] show ?thesis
    by (simp add: try_reserve_def purge_expired_def Let_def d)
qed

lemma try_reserve_fields [simp]:
  "ct_used_vcpus (fst (try_reserve now i v m t)) = ct_used_vcpus t"
  "ct_used_memory_mb (fst (try_reserve now i v m t)) = ct_used_memory_mb t"
  "ct_total_vcpus (fst (try_reserve now i v m t)) = ct_total_vcpus t"
  "ct_total_memory_mb (fst (try_reserve now i v m t)) = ct_total_memory_mb t"
  by (simp_all add: try_reserve_def purge_expired_def Let_def)

lemma try_reserve_reservations:
  "ct_reservations (fst (try_reserve now i v m t)) =
     (if snd (try_reserve now i v m t)
      then hinsert i \<lparr>rs_vcpus = v, rs_memory_mb = m, rs_created_at = now\<rparr> (active_reservations now t)
      else active_reservations now t)"
  by (simp add: try_reserve_def purge_expired_def Let_def)

lemma demand_le_sum: "demand f now t \<le> (\<Sum>e\<leftarrow>ct_reservations t. f (snd e))"
  by (simp add: demand_def active_reservations_def sum_filter_le)

lemma try_reserve_demand:
  assumes "hm_wf (ct_reservations t)"
  shows "demand f now (fst (try_reserve now i v m t)) \<le>
    demand f now t + (if snd (try_reserve now i v m t)
      then f \<lparr>rs_vcpus = v, rs_memory_mb = m, rs_created_at = now\<rparr> else 0)"
  using demand_le_sum [of f now "fst (try_reserve now i v m t)"]
    sum_hinsert_le [OF hm_wf_active [OF assms, of now], of f i
      "\<lparr>rs_vcpus = v, rs_memory_mb = m, rs_created_at = now\<rparr>"]
  by (cases "snd (try_reserve now i v m t)") (simp_all add: try_reserve_reservations demand_def)

lemma within_capacity_try_reserve:
  assumes ok: "within_capacity now t"
  shows "within_capacity now (fst (try_reserve now i v m t))"
proof -
  from ok have wf: "hm_wf (ct_reservations t)" by (simp add: within_capacity_def)
  show ?thesis
    using ok try_reserve_admits [OF ok, of i v m]
      try_reserve_demand [OF wf, of "\<lambda>r. unat (rs_vcpus r)" now i v m]
      try_reserve_demand [OF wf, of "\<lambda>r. unat (rs_memory_mb r)" now i v m]
    unfolding within_capacity_def
    by (simp add: try_reserve_reservations hm_wf_active [OF wf] split: if_splits)
qed

lemma active_drop: "active_reservations now (drop_reservation i t) = hremove i (active_reservations now t)"
  by (simp add: active_reservations_def drop_reservation_def AList.delete_eq filter_filter conj_commute)

lemma active_frame [simp]:
  "active_reservations now (use_vcpus v t) = active_reservations now t"
  "active_reservations now (use_memory m t) = active_reservations now t"
  "active_reservations now (free_vcpus v t) = active_reservations now t"
  "active_reservations now (free_memory m t) = active_reservations now t"
  by (simp_all add: active_reservations_def use_vcpus_def use_memory_def free_vcpus_def free_memory_def)

lemma demand_commit:
  assumes "hm_wf (ct_reservations t)" "hget (active_reservations now t) i = Some r"
  shows "demand f now (commit i v m t) + f r = demand f now t"
  using hm.sum_entries_del [OF hm_wf_active [OF assms(1), of now] assms(2), of "\<lambda>e. f (snd e)"]
  by (simp add: commit_def demand_def active_drop)

lemma demand_release: "demand f now (release_resources i v m t) \<le> demand f now t"
  by (simp add: release_resources_def demand_def active_drop AList.delete_eq sum_filter_le)

lemma within_capacity_commit:
  assumes ok: "within_capacity now t" and r: "hget (active_reservations now t) i = Some r"
  shows "within_capacity now (commit i (rs_vcpus r) (rs_memory_mb r) t)"
proof -
  let ?t = "commit i (rs_vcpus r) (rs_memory_mb r) t"
  from ok have wf: "hm_wf (ct_reservations t)" by (simp add: within_capacity_def)
  note d = demand_commit [OF wf r, of "\<lambda>r. unat (rs_vcpus r)" "rs_vcpus r" "rs_memory_mb r"]
    demand_commit [OF wf r, of "\<lambda>r. unat (rs_memory_mb r)" "rs_vcpus r" "rs_memory_mb r"]
  have "unat (ct_used_vcpus ?t) \<le> unat (ct_used_vcpus t) + unat (rs_vcpus r)"
    "unat (ct_used_memory_mb ?t) \<le> unat (ct_used_memory_mb t) + unat (rs_memory_mb r)"
    by (simp_all add: commit_def use_vcpus_def use_memory_def drop_reservation_def unat_word_ariths)
  with ok d wf show ?thesis
    by (simp add: within_capacity_def)
      (simp add: commit_def use_vcpus_def use_memory_def drop_reservation_def)
qed

lemma within_capacity_release:
  assumes ok: "within_capacity now t"
  shows "within_capacity now (release_resources i v m t)"
proof -
  have u: "unat (ct_used_vcpus (release_resources i v m t)) \<le> unat (ct_used_vcpus t)"
    "unat (ct_used_memory_mb (release_resources i v m t)) \<le> unat (ct_used_memory_mb t)"
    by (simp_all add: release_resources_def free_vcpus_def free_memory_def drop_reservation_def
        unat_saturating_sub)
  from ok have "hm_wf (ct_reservations (release_resources i v m t))"
    by (simp add: within_capacity_def release_resources_def free_vcpus_def free_memory_def
        drop_reservation_def)
  moreover have "ct_total_vcpus (release_resources i v m t) = ct_total_vcpus t"
    "ct_total_memory_mb (release_resources i v m t) = ct_total_memory_mb t"
    by (simp_all add: release_resources_def free_vcpus_def free_memory_def drop_reservation_def)
  ultimately show ?thesis
    using ok u demand_release [of "\<lambda>r. unat (rs_vcpus r)" now i v m t]
      demand_release [of "\<lambda>r. unat (rs_memory_mb r)" now i v m t]
    unfolding within_capacity_def by auto
qed

section \<open>Histories\<close>

text \<open>
  The calls \<^verbatim>\<open>create_instance\<close>, \<^verbatim>\<open>delete_instance\<close> and the background loops make, one after
  the other, with time passing between them.
\<close>

datatype capacity_op =
    CapWait duration
  | CapTryReserve string u32 u64
  | CapCommit string u32 u64
  | CapRelease string u32 u64
  | CapPurge

fun capacity_exec :: "capacity_op \<Rightarrow> instant \<times> capacity_tracker \<Rightarrow> instant \<times> capacity_tracker" where
  "capacity_exec (CapWait d) (now, t) = (now + max 0 d, t)"
| "capacity_exec (CapTryReserve i v m) (now, t) = (now, fst (try_reserve now i v m t))"
| "capacity_exec (CapCommit i v m) (now, t) = (now, commit i v m t)"
| "capacity_exec (CapRelease i v m) (now, t) = (now, release_resources i v m t)"
| "capacity_exec CapPurge (now, t) = (now, fst (purge_expired now t))"

text \<open>A commit of what was reserved, before the reservation has expired.\<close>

fun commits_reservation :: "capacity_op \<Rightarrow> instant \<times> capacity_tracker \<Rightarrow> bool" where
  "commits_reservation (CapCommit i v m) (now, t) =
     (case hget (active_reservations now t) i of
        Some r \<Rightarrow> rs_vcpus r = v \<and> rs_memory_mb r = m
      | None \<Rightarrow> False)"
| "commits_reservation _ _ = True"

fun commits_reserved :: "capacity_op list \<Rightarrow> instant \<times> capacity_tracker \<Rightarrow> bool" where
  "commits_reserved [] s = True"
| "commits_reserved (op # ops) s = (commits_reservation op s \<and> commits_reserved ops (capacity_exec op s))"

lemma within_capacity_purge: "within_capacity now t \<Longrightarrow> within_capacity now (fst (purge_expired now t))"
  by (simp add: within_capacity_def purge_expired_def Let_def demand_def active_idem hm_wf_active)
    (simp add: active_reservations_def)

lemma within_capacity_exec:
  assumes "commits_reservation op s" "case_prod within_capacity s"
  shows "case_prod within_capacity (capacity_exec op s)"
  using assms
  by (cases "(op, s)" rule: capacity_exec.cases)
    (auto simp: within_capacity_try_reserve within_capacity_release within_capacity_purge
      intro: within_capacity_later within_capacity_commit split: option.splits)

lemma within_capacity_run:
  "\<lbrakk>commits_reserved ops s; case_prod within_capacity s\<rbrakk> \<Longrightarrow>
    case_prod within_capacity (fold capacity_exec ops s)"
proof (induction ops arbitrary: s)
  case (Cons op ops)
  then show ?case using within_capacity_exec [of op s] by simp
qed simp

lemma within_capacity_new: "within_capacity now (new_tracker_for cpus mem)"
  by (simp add: within_capacity_def new_tracker_for_def demand_def active_reservations_def)

lemma can_admit_try_reserve: "can_admit now v m t \<longleftrightarrow> snd (try_reserve now i v m t)"
  by (simp add: can_admit_def available_vcpus_def available_memory_mb_def pending_vcpus_def
      pending_memory_mb_def try_reserve_def purge_expired_def Let_def)

end
