(* ===== verification/Capacity_Properties.thy ===== *)
theory Capacity_Properties
  imports Capacity
begin

text \<open>
  What admission control guarantees: a history whose commits are of live reservations never
  promises more than the node has, and the check of \<^verbatim>\<open>try_reserve\<close>, computed on machine words,
  is the exact one.  The three ways out of that hypothesis the code leaves open follow.
\<close>

section \<open>Admission control\<close>


definition busy_ops :: "capacity_op list" where
  "busy_ops =
    [CapTryReserve ''a'' 2 2048, CapTryReserve ''b'' 1 1024, CapCommit ''a'' 2 2048,
     CapWait (from_secs 61), CapTryReserve ''c'' 3 1024, CapTryReserve ''d'' 2 1024]"

definition busy_tracker :: capacity_tracker where
  "busy_tracker = snd (fold capacity_exec busy_ops (0, new_tracker_for 3 5120))"


section \<open>Where the hypothesis fails\<close>

text \<open>
  \<^verbatim>\<open>create_instance\<close> answers a failure after the reservation with \<^verbatim>\<open>release\<close>, which also
  subtracts from the used resources, although nothing of the failed VM was counted there.
  A failed creation of one vCPU beside a running VM of three frees one of its three: two
  more are admitted on a node of four.
\<close>

theorem failed_create_frees_running:
  "let t1 = commit ''a'' 3 1024 (fst (try_reserve 0 ''a'' 3 1024 (with_capacity 4 8192)));
       t2 = release_resources ''b'' 1 1024 (fst (try_reserve 0 ''b'' 1 1024 t1))
   in ct_used_vcpus t1 = 3 \<and> \<not> snd (try_reserve 0 ''c'' 2 1024 t1) \<and>
      ct_used_vcpus t2 = 2 \<and> snd (try_reserve 0 ''c'' 2 1024 t2)"
  by code_simp

text \<open>
  \<^verbatim>\<open>commit\<close> gives the reservation up before it counts the resources as used; a creation that
  is admitted between the two lock sections is admitted twice over.
\<close>

theorem admitted_during_commit:
  "let t1 = drop_reservation ''a'' (fst (try_reserve 0 ''a'' 3 1024 (with_capacity 4 8192)));
       t2 = use_memory 1024 (use_vcpus 3 (fst (try_reserve 0 ''b'' 3 1024 t1)))
   in snd (try_reserve 0 ''b'' 3 1024 t1) \<and> ct_used_vcpus t2 = 3 \<and> pending_vcpus 0 t2 = 3 \<and>
      \<not> within_capacity 0 t2"
  by code_simp

text \<open>A creation that takes longer than a minute commits what was promised to another since.\<close>

theorem late_commit_overcommits:
  "let t1 = fst (try_reserve 0 ''a'' 3 1024 (with_capacity 4 8192));
       t2 = commit ''a'' 3 1024 (fst (try_reserve (from_secs 60) ''b'' 3 1024 t1))
   in snd (try_reserve (from_secs 60) ''b'' 3 1024 t1) \<and> ct_used_vcpus t2 = 3 \<and>
      pending_vcpus (from_secs 60) t2 = 3 \<and> \<not> within_capacity (from_secs 60) t2"
  by code_simp

end
