(* ===== verification/Health_Properties.thy ===== *)
theory Health_Properties
  imports Volume_Health Volume_Cache
begin

text \<open>Properties of the health tracking of volumes and of their cache directories.\<close>

section \<open>Health follows the outage\<close>


definition long_outage :: "(instant \<times> health_event) list" where
  "long_outage =
    [(0, ProbeFailed), (from_secs 1, ProbeOk), (from_secs 30, ProbeFailed), (from_secs 90, Write 10),
     (from_secs 3600, ProbeFailed)]"


section \<open>Cache directories stay in the cache\<close>


definition ssd_cache :: cache_config where
  "ssd_cache = \<lparr>cc_ssd_path = ''/mnt/cache'', cc_ssd_size_gb = 10, cc_memory_size_gb = 1\<rparr>"

text \<open>A file system with one cache directory, and one in which nothing outside the cache may be removed.\<close>

definition quiet_fs :: cache_host where
  "quiet_fs =
    \<lparr>ch_exists = (\<lambda>p. path_components p \<in> {[''mnt'', ''cache''], [''mnt'', ''cache'', ''vol-1'']}),
     ch_is_dir = (\<lambda>_. True),
     ch_statvfs = (\<lambda>_. Inr \<lparr>f_frsize = 4096, f_blocks = 52428800, f_bavail = 26214400, f_bfree = 26214400\<rparr>),
     ch_create_dir_all = (\<lambda>_. None), ch_canonicalize = Inr, ch_remove_dir_all = (\<lambda>_. None)\<rparr>"

definition strict_fs :: cache_host where
  "strict_fs = quiet_fs
    \<lparr>ch_exists := (\<lambda>p. length (path_components p) \<noteq> 3 \<or> ch_exists quiet_fs p),
     ch_remove_dir_all := (\<lambda>p. if length (path_components p) = 3 then None else Some ''denied'')\<rparr>"


end
