(* ===== verification/Log_Store.thy ===== *)
theory Log_Store
  imports Layer_Db
begin

text \<open>
  The Raft log on disk, \<^verbatim>\<open>layers/controlplane/src/log_storage.rs\<close>: entries, vote, committed and
  purged positions in three redb tables, with a copy of the log in a \<^verbatim>\<open>BTreeMap\<close>.

  Log identifiers, entries and votes are types of openraft; what the code uses of them is the
  argument \<open>log_codec\<close>, together with \<^verbatim>\<open>serde_json\<close> for entries.  A \<^verbatim>\<open>BTreeMap\<close> is a
  table: its entries in key order.  Every write to redb is a transaction of its own, so a process that
  stops in the middle of a call leaves the tables as after some number of them;
  \<open>log_partial\<close> is the store at such a point and \<open>new_log_store\<close> what the next start makes of it.
\<close>

section \<open>State\<close>

record ('l, 'e) log_codec =
  index_of :: "'l \<Rightarrow> u64"
  log_id_of :: "'e \<Rightarrow> 'l"
  to_json :: "'e \<Rightarrow> string + string"
  from_json :: "string \<Rightarrow> string + 'e"

record ('l, 'v) log_db =
  ld_log :: "(string, string) table"
  ld_vote :: "(string, 'v) table"
  ld_meta :: "(string, 'l) table"

record ('l, 'v) log_store =
  ls_db :: "('l, 'v) log_db"
  ls_log :: "(u64, string) table"
  ls_last_purged :: "'l option"
  ls_committed :: "'l option"
  ls_vote :: "'v option"

datatype log_io_error = InvalidData string | RangePanic

abbreviation vote_key :: string where "vote_key \<equiv> ''current_vote''"
abbreviation purged_key :: string where "purged_key \<equiv> ''last_purged''"
abbreviation committed_key :: string where "committed_key \<equiv> ''committed''"

definition index_key :: "u64 \<Rightarrow> string" where
  "index_key i = show_nat (unat i)"

text \<open>\<^verbatim>\<open>str::parse::<u64>\<close>, computed on integers.\<close>

definition decimal_value :: "string \<Rightarrow> int" where
  "decimal_value s = foldl (\<lambda>n c. 10 * n + int (of_char c - 48)) 0 s"

definition parse_u64 :: "string \<Rightarrow> u64 option" where
  "parse_u64 s =
     (let ds = (case s of CHR ''+'' # t \<Rightarrow> t | _ \<Rightarrow> s)
      in if ds \<noteq> [] \<and> list_all is_digit ds \<and> decimal_value ds \<le> 18446744073709551615
         then Some (of_int (decimal_value ds)) else None)"

section \<open>Operations\<close>

definition load_entry :: "string \<times> string \<Rightarrow> (u64, string) table \<Rightarrow> (u64, string) table" where
  "load_entry e log = (case parse_u64 (fst e) of Some idx \<Rightarrow> tbl_put idx (snd e) log | None \<Rightarrow> log)"

definition new_log_store :: "('l, 'v) log_db \<Rightarrow> ('l, 'v) log_store" where
  "new_log_store db =
     \<lparr>ls_db = db, ls_log = fold load_entry (db_list (ld_log db)) [],
      ls_last_purged = db_get (ld_meta db) purged_key,
      ls_committed = db_get (ld_meta db) committed_key,
      ls_vote = db_get (ld_vote db) vote_key\<rparr>"

text \<open>\<^verbatim>\<open>BTreeMap::range\<close> panics when the range starts after its end.\<close>

datatype bound = Included u64 | Excluded u64 | Unbounded

fun range_panics :: "bound \<Rightarrow> bound \<Rightarrow> bool" where
  "range_panics (Included a) (Included b) = (a > b)"
| "range_panics (Included a) (Excluded b) = (a > b)"
| "range_panics (Excluded a) (Included b) = (a > b)"
| "range_panics (Excluded a) (Excluded b) = (a \<ge> b)"
| "range_panics _ _ = False"

definition in_bounds :: "bound \<Rightarrow> bound \<Rightarrow> u64 \<Rightarrow> bool" where
  "in_bounds lo hi i \<longleftrightarrow>
     (case lo of Included a \<Rightarrow> a \<le> i | Excluded a \<Rightarrow> a < i | Unbounded \<Rightarrow> True) \<and>
     (case hi of Included b \<Rightarrow> i \<le> b | Excluded b \<Rightarrow> i < b | Unbounded \<Rightarrow> True)"

fun decode_all :: "('l, 'e) log_codec \<Rightarrow> string list \<Rightarrow> log_io_error + 'e list" where
  "decode_all J [] = Inr []"
| "decode_all J (s # ss) =
     (case from_json J s of
        Inl m \<Rightarrow> Inl (InvalidData m)
      | Inr e \<Rightarrow> (case decode_all J ss of Inl er \<Rightarrow> Inl er | Inr es \<Rightarrow> Inr (e # es)))"

definition try_get_log_entries ::
    "('l, 'e) log_codec \<Rightarrow> bound \<Rightarrow> bound \<Rightarrow> ('l, 'v) log_store \<Rightarrow> log_io_error + 'e list" where
  "try_get_log_entries J lo hi s =
     (if range_panics lo hi then Inl RangePanic
      else decode_all J (map snd (filter (\<lambda>(i, _). in_bounds lo hi i) (ls_log s))))"

definition limited_get_log_entries ::
    "('l, 'e) log_codec \<Rightarrow> u64 \<Rightarrow> u64 \<Rightarrow> ('l, 'v) log_store \<Rightarrow> log_io_error + 'e list" where
  "limited_get_log_entries J start stop s = try_get_log_entries J (Included start) (Excluded stop) s"

definition read_vote :: "('l, 'v) log_store \<Rightarrow> 'v option" where
  "read_vote s = ls_vote s"

definition read_committed :: "('l, 'v) log_store \<Rightarrow> 'l option" where
  "read_committed s = ls_committed s"

record 'l log_state =
  last_purged_log_id :: "'l option"
  last_log_id :: "'l option"

definition get_log_state :: "('l, 'e) log_codec \<Rightarrow> ('l, 'v) log_store \<Rightarrow> log_io_error + 'l log_state" where
  "get_log_state J s =
     (if ls_log s = []
      then Inr \<lparr>last_purged_log_id = ls_last_purged s, last_log_id = ls_last_purged s\<rparr>
      else case from_json J (snd (last (ls_log s))) of
             Inl m \<Rightarrow> Inl (InvalidData m)
           | Inr e \<Rightarrow> Inr \<lparr>last_purged_log_id = ls_last_purged s, last_log_id = Some (log_id_of J e)\<rparr>)"

definition save_vote :: "'v \<Rightarrow> ('l, 'v) log_store \<Rightarrow> ('l, 'v) log_store" where
  "save_vote v s =
     s\<lparr>ls_vote := Some v, ls_db := (ls_db s)\<lparr>ld_vote := db_set vote_key v (ld_vote (ls_db s))\<rparr>\<rparr>"

definition save_committed :: "'l option \<Rightarrow> ('l, 'v) log_store \<Rightarrow> ('l, 'v) log_store" where
  "save_committed c s =
     (let s1 = s\<lparr>ls_committed := c\<rparr>
      in case c of
           Some l \<Rightarrow> s1\<lparr>ls_db := (ls_db s1)\<lparr>ld_meta := db_set committed_key l (ld_meta (ls_db s1))\<rparr>\<rparr>
         | None \<Rightarrow> s1)"

text \<open>The loops of \<^verbatim>\<open>append\<close>, \<^verbatim>\<open>truncate_after\<close> and \<^verbatim>\<open>purge\<close>, one transaction in each round.\<close>

definition put_entry :: "u64 \<Rightarrow> string \<Rightarrow> ('l, 'v) log_store \<Rightarrow> ('l, 'v) log_store" where
  "put_entry idx js s =
     s\<lparr>ls_log := tbl_put idx js (ls_log s),
       ls_db := (ls_db s)\<lparr>ld_log := db_set (index_key idx) js (ld_log (ls_db s))\<rparr>\<rparr>"

definition remove_entry :: "u64 \<Rightarrow> ('l, 'v) log_store \<Rightarrow> ('l, 'v) log_store" where
  "remove_entry idx s =
     s\<lparr>ls_log := tbl_del idx (ls_log s),
       ls_db := (ls_db s)\<lparr>ld_log := snd (db_delete (index_key idx) (ld_log (ls_db s)))\<rparr>\<rparr>"

fun append_log ::
    "('l, 'e) log_codec \<Rightarrow> 'e list \<Rightarrow> ('l, 'v) log_store \<Rightarrow> ('l, 'v) log_store \<times> log_io_error option" where
  "append_log J [] s = (s, None)"
| "append_log J (e # es) s =
     (case to_json J e of
        Inl m \<Rightarrow> (s, Some (InvalidData m))
      | Inr js \<Rightarrow> append_log J es (put_entry (index_of J (log_id_of J e)) js s))"

definition log_keys :: "(u64 \<Rightarrow> bool) \<Rightarrow> ('l, 'v) log_store \<Rightarrow> u64 list" where
  "log_keys P s = map fst (filter (\<lambda>(i, _). P i) (ls_log s))"

definition truncate_start :: "('l, 'e) log_codec \<Rightarrow> 'l option \<Rightarrow> u64" where
  "truncate_start J l = (case l of Some l \<Rightarrow> index_of J l + 1 | None \<Rightarrow> 0)"

definition truncate_after :: "('l, 'e) log_codec \<Rightarrow> 'l option \<Rightarrow> ('l, 'v) log_store \<Rightarrow> ('l, 'v) log_store" where
  "truncate_after J l s = fold remove_entry (log_keys (\<lambda>i. truncate_start J l \<le> i) s) s"

definition mark_purged :: "'l \<Rightarrow> ('l, 'v) log_store \<Rightarrow> ('l, 'v) log_store" where
  "mark_purged l s =
     s\<lparr>ls_last_purged := Some l,
       ls_db := (ls_db s)\<lparr>ld_meta := db_set purged_key l (ld_meta (ls_db s))\<rparr>\<rparr>"

definition purge :: "('l, 'e) log_codec \<Rightarrow> 'l \<Rightarrow> ('l, 'v) log_store \<Rightarrow> ('l, 'v) log_store" where
  "purge J l s = (let s1 = mark_purged l s in fold remove_entry (log_keys (\<lambda>i. i \<le> index_of J l) s1) s1)"

section \<open>Histories and interruptions\<close>

datatype ('l, 'e, 'v) log_op =
    SaveVote 'v
  | SaveCommitted "'l option"
  | Append "'e list"
  | TruncateAfter "'l option"
  | Purge 'l

fun log_exec :: "('l, 'e) log_codec \<Rightarrow> ('l, 'e, 'v) log_op \<Rightarrow> ('l, 'v) log_store \<Rightarrow> ('l, 'v) log_store" where
  "log_exec J (SaveVote v) s = save_vote v s"
| "log_exec J (SaveCommitted c) s = save_committed c s"
| "log_exec J (Append es) s = fst (append_log J es s)"
| "log_exec J (TruncateAfter l) s = truncate_after J l s"
| "log_exec J (Purge l) s = purge J l s"

definition empty_log_db :: "('l, 'v) log_db" where
  "empty_log_db = \<lparr>ld_log = [], ld_vote = [], ld_meta = []\<rparr>"

definition log_run :: "('l, 'e) log_codec \<Rightarrow> ('l, 'e, 'v) log_op list \<Rightarrow> ('l, 'v) log_store" where
  "log_run J ops = fold (log_exec J) ops (new_log_store empty_log_db)"

text \<open>The store after the first \<open>n\<close> transactions of a call.\<close>

fun log_partial ::
    "('l, 'e) log_codec \<Rightarrow> nat \<Rightarrow> ('l, 'e, 'v) log_op \<Rightarrow> ('l, 'v) log_store \<Rightarrow> ('l, 'v) log_store" where
  "log_partial J n (Append es) s = fst (append_log J (take n es) s)"
| "log_partial J n (TruncateAfter l) s =
     fold remove_entry (take n (log_keys (\<lambda>i. truncate_start J l \<le> i) s)) s"
| "log_partial J n (Purge l) s =
     (case n of
        0 \<Rightarrow> s
      | Suc k \<Rightarrow>
          let s1 = mark_purged l s
          in fold remove_entry (take k (log_keys (\<lambda>i. i \<le> index_of J l) s1)) s1)"
| "log_partial J n op s = (case n of 0 \<Rightarrow> s | Suc _ \<Rightarrow> log_exec J op s)"

section \<open>Disk and memory agree\<close>

lemma index_key_inject [simp]: "index_key i = index_key j \<longleftrightarrow> i = j"
  by (simp add: index_key_def word_unat_eq_iff)

lemma decimal_value_digits: "decimal_value s = int (digits_value s)"
  by (induction s rule: rev_induct) (simp_all add: decimal_value_def digits_value_def)

lemma parse_index_key [simp]: "parse_u64 (index_key i) = Some i"
proof -
  have v: "decimal_value (show_nat (unat i)) = int (unat i)"
    by (simp add: decimal_value_digits)
  have "CHR ''+'' \<notin> set (show_nat (unat i))" by (rule digit_not_in_show) (simp add: is_digit_def)
  then have "(case show_nat (unat i) of CHR ''+'' # t \<Rightarrow> t | _ \<Rightarrow> show_nat (unat i)) = show_nat (unat i)"
    by (cases "show_nat (unat i)") (auto split: char.splits bool.splits)
  moreover have "unat i < 2 ^ 64" using unsigned_less [of i] by simp
  then have "int (unat i) < int (2 ^ 64)" by (simp only: of_nat_less_iff)
  then have "int (unat i) \<le> 18446744073709551615" by simp
  ultimately show ?thesis
    by (simp add: parse_u64_def index_key_def v show_nat_digits Let_def)
qed

definition mirrors :: "('l, 'v) log_store \<Rightarrow> bool" where
  "mirrors s \<longleftrightarrow>
     tbl_wf (ls_log s) \<and> tbl_wf (ld_log (ls_db s)) \<and>
     (\<forall>i. db_get (ld_log (ls_db s)) (index_key i) = map_of (ls_log s) i) \<and>
     (\<forall>k. k \<notin> range index_key \<longrightarrow> db_get (ld_log (ls_db s)) k = None) \<and>
     db_get (ld_meta (ls_db s)) purged_key = ls_last_purged s \<and>
     db_get (ld_vote (ls_db s)) vote_key = ls_vote s"

lemma map_of_load:
  assumes "distinct (map fst es)" "\<forall>k \<in> fst ` set es. k \<in> range index_key"
  shows "map_of (fold load_entry es m) i = (case map_of es (index_key i) of Some v \<Rightarrow> Some v | None \<Rightarrow> map_of m i)"
  using assms
proof (induction es arbitrary: m)
  case (Cons e es)
  then obtain j where j: "fst e = index_key j" by auto
  with Cons.prems have "map_of es (index_key j) = None" by (simp add: map_of_eq_None_iff)
  with Cons j show ?case by (cases e) (auto simp: load_entry_def split: option.split)
qed simp

lemma tbl_wf_load: "tbl_wf m \<Longrightarrow> tbl_wf (fold load_entry es m)"
  by (induction es arbitrary: m) (auto simp: load_entry_def split: option.split)

lemma load_mirrored:
  assumes "mirrors s"
  shows "fold load_entry (db_list (ld_log (ls_db s))) [] = ls_log s"
proof (rule tbl_eqI)
  from assms have wf: "tbl_wf (ld_log (ls_db s))"
    and n: "k \<notin> range index_key \<Longrightarrow> db_get (ld_log (ls_db s)) k = None" for k
    by (simp_all add: mirrors_def)
  have k: "\<forall>k \<in> fst ` set (ld_log (ls_db s)). k \<in> range index_key"
    using in_db_list_iff [OF wf] n by (fastforce simp: db_list_def)
  from assms have d: "distinct (map fst (ld_log (ls_db s)))"
    and g: "db_get (ld_log (ls_db s)) (index_key i) = map_of (ls_log s) i" for i
    by (auto simp: mirrors_def tbl_wf_def)
  show "map_of (fold load_entry (db_list (ld_log (ls_db s))) []) = map_of (ls_log s)"
    using g map_of_load [OF d k, of "[]"] by (auto simp: fun_eq_iff db_defs split: option.splits)
qed (use assms in \<open>auto simp: mirrors_def tbl_wf_load\<close>)

lemma restart_mirrored:
  assumes "mirrors s"
  shows "ls_log (new_log_store (ls_db s)) = ls_log s"
    and "ls_last_purged (new_log_store (ls_db s)) = ls_last_purged s"
    and "ls_vote (new_log_store (ls_db s)) = ls_vote s"
  using assms by (simp_all add: new_log_store_def load_mirrored) (simp_all add: mirrors_def)

lemma mirrors_empty: "mirrors (new_log_store empty_log_db)"
  by (simp add: mirrors_def new_log_store_def empty_log_db_def db_list_def)

lemma mirrors_put_entry: "mirrors s \<Longrightarrow> mirrors (put_entry i js s)"
  by (auto simp: mirrors_def put_entry_def)

lemma mirrors_remove_entry: "mirrors s \<Longrightarrow> mirrors (remove_entry i s)"
  by (auto simp: mirrors_def remove_entry_def)

lemma mirrors_fold_remove: "mirrors s \<Longrightarrow> mirrors (fold remove_entry ks s)"
  by (induction ks arbitrary: s) (auto intro: mirrors_remove_entry)

lemma mirrors_append: "mirrors s \<Longrightarrow> mirrors (fst (append_log J es s))"
  by (induction J es s rule: append_log.induct) (auto intro: mirrors_put_entry split: sum.split)

lemma mirrors_fields:
  "mirrors s \<Longrightarrow> mirrors (mark_purged l s)" "mirrors s \<Longrightarrow> mirrors (save_vote v s)"
  "mirrors s \<Longrightarrow> mirrors (save_committed c s)"
  by (simp_all add: mirrors_def mark_purged_def save_vote_def save_committed_def Let_def split: option.split)

lemma mirrors_exec: "mirrors s \<Longrightarrow> mirrors (log_exec J op s)"
  by (cases op)
    (simp_all add: mirrors_fields mirrors_append truncate_after_def purge_def Let_def mirrors_fold_remove)

lemma mirrors_partial: "mirrors s \<Longrightarrow> mirrors (log_partial J n op s)"
  by (cases op)
    (auto simp: mirrors_fields mirrors_append mirrors_fold_remove mirrors_exec Let_def split: nat.split)

lemma mirrors_run: "mirrors (log_run J ops)"
  unfolding log_run_def by (induction ops rule: rev_induct) (auto simp: mirrors_empty mirrors_exec)

section \<open>Calls of openraft leave no holes\<close>

text \<open>
  openraft appends entries with consecutive indices that follow the last entry of the log.
\<close>

fun consecutive :: "('l, 'e) log_codec \<Rightarrow> u64 \<Rightarrow> 'e list \<Rightarrow> bool" where
  "consecutive J i [] = True"
| "consecutive J i (e # es) \<longleftrightarrow>
     index_of J (log_id_of J e) = i \<and> (es = [] \<or> i < i + 1 \<and> consecutive J (i + 1) es)"

fun raft_call :: "('l, 'e) log_codec \<Rightarrow> ('l, 'e, 'v) log_op \<Rightarrow> ('l, 'v) log_store \<Rightarrow> bool" where
  "raft_call J (Append (e # es)) s \<longleftrightarrow>
     (let i = index_of J (log_id_of J e)
      in consecutive J i (e # es) \<and>
         (ls_log s = [] \<or> (let l = fst (last (ls_log s)) in l < l + 1 \<and> i = l + 1)))"
| "raft_call J _ s = True"

fun raft_calls :: "('l, 'e) log_codec \<Rightarrow> ('l, 'e, 'v) log_op list \<Rightarrow> ('l, 'v) log_store \<Rightarrow> bool" where
  "raft_calls J [] s = True"
| "raft_calls J (op # ops) s \<longleftrightarrow> raft_call J op s \<and> raft_calls J ops (log_exec J op s)"

definition indices :: "('l, 'v) log_store \<Rightarrow> u64 set" where
  "indices s = dom (map_of (ls_log s))"

definition no_holes :: "('l, 'v) log_store \<Rightarrow> bool" where
  "no_holes s \<longleftrightarrow> (\<forall>i j k. i \<in> indices s \<and> k \<in> indices s \<and> i \<le> j \<and> j \<le> k \<longrightarrow> j \<in> indices s)"

lemma indices_entry [simp]:
  "indices (put_entry i js s) = insert i (indices s)" "indices (remove_entry i s) = indices s - {i}"
  "indices (mark_purged l s) = indices s" "indices (save_vote v s) = indices s"
  "indices (save_committed c s) = indices s"
  by (auto simp: indices_def put_entry_def remove_entry_def mark_purged_def save_vote_def
      save_committed_def Let_def split: if_splits option.splits)

lemma indices_fold_remove: "indices (fold remove_entry ks s) = indices s - set ks"
  by (induction ks arbitrary: s) auto

lemma indices_set: "indices s = set (map fst (ls_log s))"
  by (simp add: indices_def dom_map_of_conv_image_fst)

lemma set_log_keys: "set (log_keys P s) = {i \<in> indices s. P i}"
  by (force simp: log_keys_def indices_set)

lemma sorted_log_keys: "tbl_wf (ls_log s) \<Longrightarrow> sorted (log_keys P s) \<and> distinct (log_keys P s)"
  by (simp add: tbl_wf_def log_keys_def sorted_filter distinct_map_filter)

text \<open>The last entry of a table has its greatest key.\<close>

lemma last_is_greatest:
  assumes "tbl_wf t" "k \<in> fst ` set t"
  shows "k \<le> fst (last t)"
proof -
  from assms(2) have ne: "t \<noteq> []" by auto
  have "sorted (map fst t)" "k \<in> set (map fst t)" using assms by (simp_all add: tbl_wf_def)
  then have "k \<le> last (map fst t)"
    by (cases "map fst t" rule: rev_cases) (auto simp: sorted_append)
  with ne show ?thesis by (simp add: last_map)
qed

definition ends_at :: "u64 \<Rightarrow> ('l, 'v) log_store \<Rightarrow> bool" where
  "ends_at l s \<longleftrightarrow> l \<in> indices s \<and> (\<forall>i \<in> indices s. i \<le> l)"

lemma ends_at_last: "\<lbrakk>tbl_wf (ls_log s); ls_log s \<noteq> []\<rbrakk> \<Longrightarrow> ends_at (fst (last (ls_log s))) s"
  using last_is_greatest by (force simp: ends_at_def indices_set)

lemma put_next:
  assumes holes: "no_holes s" and next_: "indices s = {} \<or> (\<exists>l. ends_at l s \<and> l < l + 1 \<and> i = l + 1)"
  shows "no_holes (put_entry i js s) \<and> ends_at i (put_entry i js s)"
  using next_
proof
  assume "indices s = {}"
  then show ?thesis by (auto simp: no_holes_def ends_at_def)
next
  assume "\<exists>l. ends_at l s \<and> l < l + 1 \<and> i = l + 1"
  then obtain l where l: "l \<in> indices s" "\<forall>j \<in> indices s. j \<le> l" "l < l + 1" and i: "i = l + 1"
    by (auto simp: ends_at_def)
  have near: "j \<le> l \<or> j = i" if "j \<le> i" for j
    using that inc_le [of l j] i by (cases "l < j") (auto intro: antisym)
  have "no_holes (put_entry i js s)"
    unfolding no_holes_def indices_entry
  proof (intro allI impI)
    fix a j k
    assume a: "a \<in> insert i (indices s) \<and> k \<in> insert i (indices s) \<and> a \<le> j \<and> j \<le> k"
    with l i have "j \<le> i" by (auto intro: order_trans)
    from near [OF this] show "j \<in> insert i (indices s)"
    proof
      assume j: "j \<le> l"
      with a l i have "a \<in> indices s" by (auto simp: not_le)
      with j a l holes have "j \<in> indices s" unfolding no_holes_def by blast
      then show ?thesis by simp
    qed simp
  qed
  moreover have "ends_at i (put_entry i js s)"
    using l i by (auto simp: ends_at_def intro: order_trans)
  ultimately show ?thesis ..
qed

lemma append_next:
  assumes "no_holes s" "consecutive J i es"
    and "es = [] \<or> indices s = {} \<or> (\<exists>l. ends_at l s \<and> l < l + 1 \<and> i = l + 1)"
  shows "no_holes (fst (append_log J es s))"
  using assms
proof (induction es arbitrary: s i)
  case (Cons e es)
  show ?case
  proof (cases "to_json J e")
    case (Inr js)
    let ?s = "put_entry (index_of J (log_id_of J e)) js s"
    from Cons.prems have i: "index_of J (log_id_of J e) = i" by simp
    with put_next [OF Cons.prems(1), of i js] Cons.prems(3) have s: "no_holes ?s" "ends_at i ?s" by auto
    show ?thesis
    proof (cases "es = []")
      case False
      with Cons.prems(2) have "i < i + 1" "consecutive J (i + 1) es" by simp_all
      with Cons.IH [OF s(1), of "i + 1"] s(2) Inr show ?thesis by auto
    qed (use s Inr in simp)
  qed (use Cons.prems in simp)
qed simp

lemma consecutive_take: "consecutive J i es \<Longrightarrow> consecutive J i (take n es)"
proof (induction es arbitrary: i n)
  case (Cons e es)
  then show ?case by (cases n) auto
qed simp

lemma raft_append_no_holes:
  assumes "mirrors s" "no_holes s" "raft_call J (Append es) s"
  shows "no_holes (fst (append_log J (take n es) s))"
proof (cases es)
  case (Cons e es')
  from assms(1) have wf: "tbl_wf (ls_log s)" by (simp add: mirrors_def)
  let ?i = "index_of J (log_id_of J e)"
  from assms(3) Cons have c: "consecutive J ?i (take n es)"
    by (auto simp: Let_def intro: consecutive_take)
  have "indices s = {} \<or> (\<exists>l. ends_at l s \<and> l < l + 1 \<and> ?i = l + 1)"
  proof (cases "ls_log s = []")
    case False
    with ends_at_last [OF wf] assms(3) Cons show ?thesis by (auto simp: Let_def)
  qed (simp add: indices_def)
  with append_next [OF assms(2) c] show ?thesis by blast
qed (use assms in simp)

lemma take_lower:
  assumes "sorted xs" "distinct xs" "j \<in> set (take k xs)" "i \<in> set xs" "i \<le> j"
  shows "i \<in> set (take k xs)"
proof (rule ccontr)
  assume "i \<notin> set (take k xs)"
  moreover have "set xs = set (take k xs) \<union> set (drop k xs)" by (metis append_take_drop_id set_append)
  ultimately have d: "i \<in> set (drop k xs)" using assms(4) by blast
  have "sorted (take k xs @ drop k xs)" using assms(1) by simp
  with assms(3) d have "j \<le> i" by (simp only: sorted_append)
  with assms(5) have "i = j" by simp
  moreover have "distinct (take k xs @ drop k xs)" using assms(2) by simp
  ultimately show False using assms(3) d by (simp only: distinct_append) blast
qed

lemma purge_no_holes:
  assumes "tbl_wf (ls_log s)" "no_holes s"
  shows "no_holes (fold remove_entry (take k (log_keys (\<lambda>i. i \<le> b) s)) s)"
  unfolding no_holes_def indices_fold_remove
proof (intro allI impI)
  let ?ks = "log_keys (\<lambda>i. i \<le> b) s"
  fix i j m
  assume a: "i \<in> indices s - set (take k ?ks) \<and> m \<in> indices s - set (take k ?ks) \<and> i \<le> j \<and> j \<le> m"
  with assms(2) have "j \<in> indices s" unfolding no_holes_def by blast
  moreover have "j \<notin> set (take k ?ks)"
  proof
    assume j: "j \<in> set (take k ?ks)"
    then have "j \<le> b" using set_take_subset [of k ?ks] by (auto simp: set_log_keys)
    with a have "i \<in> set ?ks" by (auto simp: set_log_keys)
    with sorted_log_keys [OF assms(1)] j a show False by (blast dest: take_lower)
  qed
  ultimately show "j \<in> indices s - set (take k ?ks)" by blast
qed

lemma truncate_no_holes:
  assumes "no_holes s"
  shows "no_holes (truncate_after J l s)"
  unfolding no_holes_def truncate_after_def indices_fold_remove set_log_keys
proof (intro allI impI)
  let ?gone = "{i \<in> indices s. truncate_start J l \<le> i}"
  fix i j k
  assume a: "i \<in> indices s - ?gone \<and> k \<in> indices s - ?gone \<and> i \<le> j \<and> j \<le> k"
  with assms have "j \<in> indices s" unfolding no_holes_def by blast
  moreover from a have "\<not> truncate_start J l \<le> j" by (auto dest: order_trans)
  ultimately show "j \<in> indices s - ?gone" by simp
qed

lemma log_partial_all: "\<exists>n. log_partial J n op s = log_exec J op s"
proof (cases op)
  case (Append es)
  then show ?thesis by (auto intro: exI [of _ "length es"])
next
  case (TruncateAfter l)
  then show ?thesis
    by (auto simp: truncate_after_def intro: exI [of _ "length (log_keys (\<lambda>i. truncate_start J l \<le> i) s)"])
next
  case (Purge l)
  then show ?thesis
    by (auto simp: purge_def Let_def
        intro!: exI [of _ "Suc (length (log_keys (\<lambda>i. i \<le> index_of J l) (mark_purged l s)))"])
qed (auto intro: exI [of _ 1])

lemma no_holes_frame [simp]:
  "no_holes (mark_purged l s) = no_holes s" "no_holes (save_vote v s) = no_holes s"
  "no_holes (save_committed c s) = no_holes s"
  by (simp_all only: no_holes_def indices_entry)

lemma no_holes_exec:
  assumes "mirrors s" "no_holes s" "raft_call J op s"
  shows "no_holes (log_exec J op s)"
proof (cases op)
  case (Append es)
  with raft_append_no_holes [of s J es "length es"] assms show ?thesis by simp
next
  case (Purge l)
  have "tbl_wf (ls_log (mark_purged l s))" using assms(1) by (simp add: mirrors_def mark_purged_def)
  moreover have "no_holes (mark_purged l s)" using assms(2) by simp
  ultimately show ?thesis
    using Purge purge_no_holes [of "mark_purged l s" "length (log_keys (\<lambda>i. i \<le> index_of J l) (mark_purged l s))" "index_of J l"]
    by (simp add: purge_def Let_def)
qed (use assms in \<open>simp_all add: truncate_no_holes\<close>)

lemma raft_calls_append:
  "raft_calls J (ops @ ops') s \<longleftrightarrow> raft_calls J ops s \<and> raft_calls J ops' (fold (log_exec J) ops s)"
  by (induction ops arbitrary: s) auto

lemma no_holes_run: "raft_calls J ops (new_log_store empty_log_db) \<Longrightarrow> no_holes (log_run J ops)"
proof (induction ops rule: rev_induct)
  case Nil
  show ?case by (simp add: log_run_def no_holes_def indices_def new_log_store_def empty_log_db_def db_list_def)
next
  case (snoc op ops)
  have "log_run J (ops @ [op]) = log_exec J op (log_run J ops)" by (simp add: log_run_def)
  moreover from snoc.prems have "raft_calls J ops (new_log_store empty_log_db)" "raft_call J op (log_run J ops)"
    by (simp_all add: raft_calls_append log_run_def)
  ultimately show ?case using snoc.IH mirrors_run [of J ops] no_holes_exec by metis
qed

fun is_truncation :: "('l, 'e, 'v) log_op \<Rightarrow> bool" where
  "is_truncation (TruncateAfter _) = True"
| "is_truncation _ = False"

lemma no_holes_partial:
  assumes "mirrors s" "no_holes s" "raft_call J op s" "\<not> is_truncation op"
  shows "no_holes (log_partial J n op s)"
proof (cases op)
  case (Append es)
  with raft_append_no_holes [of s J es n] assms show ?thesis by simp
next
  case (Purge l)
  have "tbl_wf (ls_log (mark_purged l s))" using assms(1) by (simp add: mirrors_def mark_purged_def)
  moreover have "no_holes (mark_purged l s)" using assms(2) by simp
  ultimately show ?thesis
    using Purge assms(2) purge_no_holes [of "mark_purged l s"] by (simp add: Let_def split: nat.split)
qed (use assms in \<open>simp_all split: nat.split\<close>)

section \<open>The log as a function from indices to entries\<close>

text \<open>\<^verbatim>\<open>serde_json\<close> reads back what it has written.\<close>

definition faithful_codec :: "('l, 'e) log_codec \<Rightarrow> bool" where
  "faithful_codec J \<longleftrightarrow> (\<forall>e. \<exists>js. to_json J e = Inr js \<and> from_json J js = Inr e)"

fun spec_exec :: "('l, 'e) log_codec \<Rightarrow> ('l, 'e, 'v) log_op \<Rightarrow> (u64 \<rightharpoonup> 'e) \<Rightarrow> (u64 \<rightharpoonup> 'e)" where
  "spec_exec J (Append es) m = fold (\<lambda>e m. m(index_of J (log_id_of J e) \<mapsto> e)) es m"
| "spec_exec J (TruncateAfter l) m = m |` {i. \<not> truncate_start J l \<le> i}"
| "spec_exec J (Purge l) m = m |` {i. \<not> i \<le> index_of J l}"
| "spec_exec J _ m = m"

definition stores :: "('l, 'e) log_codec \<Rightarrow> ('l, 'v) log_store \<Rightarrow> (u64 \<rightharpoonup> 'e) \<Rightarrow> bool" where
  "stores J s m \<longleftrightarrow>
     tbl_wf (ls_log s) \<and> map_of (ls_log s) = map_option (\<lambda>e. projr (to_json J e)) \<circ> m"

lemma stores_put:
  "stores J s m \<Longrightarrow> to_json J e = Inr js \<Longrightarrow> stores J (put_entry i js s) (m(i \<mapsto> e))"
  by (auto simp: stores_def put_entry_def fun_eq_iff)

lemma stores_remove: "stores J s m \<Longrightarrow> stores J (remove_entry i s) (m(i := None))"
  by (auto simp: stores_def remove_entry_def fun_eq_iff)

lemma stores_fold_remove: "stores J s m \<Longrightarrow> stores J (fold remove_entry ks s) (m |` (- set ks))"
proof (induction ks arbitrary: s m)
  case (Cons k ks)
  have m: "(m(k := None)) |` (- set ks) = m |` (- set (k # ks))" by (auto simp: restrict_map_def fun_eq_iff)
  from Cons.IH [OF stores_remove [OF Cons.prems, of k]] show ?case by (simp only: m fold_simps)
qed (simp add: restrict_map_def)

lemma stores_append:
  assumes "faithful_codec J" "stores J s m"
  shows "stores J (fst (append_log J es s)) (spec_exec J (Append es) m)"
  using assms(2)
proof (induction es arbitrary: s m)
  case (Cons e es)
  from assms(1) obtain js where js: "to_json J e = Inr js" by (auto simp: faithful_codec_def)
  from Cons.IH [OF stores_put [OF Cons.prems js, of "index_of J (log_id_of J e)"]] js show ?case
    by (simp only: append_log.simps sum.case spec_exec.simps fold_simps)
qed simp

lemma stores_indices: "stores J s m \<Longrightarrow> indices s = dom m"
  by (auto simp: stores_def indices_def)

lemma stores_drop:
  assumes "stores J s m"
  shows "stores J (fold remove_entry (log_keys P s) s) (m |` {i. \<not> P i})"
proof -
  have "m |` (- set (log_keys P s)) = m |` {i. \<not> P i}"
    using stores_indices [OF assms] by (auto simp: set_log_keys restrict_map_def fun_eq_iff)
  with stores_fold_remove [OF assms, of "log_keys P s"] show ?thesis by simp
qed

lemma stores_frame:
  "stores J (mark_purged l s) m = stores J s m" "stores J (save_vote v s) m = stores J s m"
  "stores J (save_committed c s) m = stores J s m"
  by (simp_all add: stores_def mark_purged_def save_vote_def save_committed_def Let_def split: option.split)

lemma stores_exec:
  assumes "faithful_codec J" "stores J s m"
  shows "stores J (log_exec J op s) (spec_exec J op m)"
proof (cases op)
  case (Append es)
  with stores_append [OF assms] show ?thesis by simp
next
  case (TruncateAfter l)
  with stores_drop [OF assms(2)] show ?thesis by (simp add: truncate_after_def)
next
  case (Purge l)
  from assms(2) have "stores J (mark_purged l s) m" by (simp add: stores_frame)
  from stores_drop [OF this] Purge show ?thesis by (simp add: purge_def Let_def)
qed (simp_all add: assms stores_frame)

lemma stores_run: "faithful_codec J \<Longrightarrow> stores J (log_run J ops) (fold (spec_exec J) ops Map.empty)"
proof (induction ops rule: rev_induct)
  case Nil
  show ?case by (simp add: log_run_def stores_def new_log_store_def empty_log_db_def db_list_def fun_eq_iff)
next
  case (snoc op ops)
  then show ?case by (simp add: log_run_def stores_exec)
qed

text \<open>Reading.\<close>

lemma stored_decodes:
  assumes "faithful_codec J" "stores J s m" "(i, js) \<in> set (ls_log s)"
  shows "from_json J js = Inr (the (m i)) \<and> m i \<noteq> None"
proof -
  from assms(2) have "tbl_wf (ls_log s)" by (simp add: stores_def)
  with assms(3) have "map_of (ls_log s) i = Some js" by (simp only: tb.in_entries_iff)
  with assms(2) obtain e where "m i = Some e" "js = projr (to_json J e)" by (auto simp: stores_def)
  moreover from assms(1) obtain js' where "to_json J e = Inr js'" "from_json J js' = Inr e"
    unfolding faithful_codec_def by blast
  ultimately show ?thesis by simp
qed

lemma decode_all_map:
  "\<forall>js \<in> set jss. from_json J js = Inr (f js) \<Longrightarrow> decode_all J jss = Inr (map f jss)"
  by (induction jss) auto

lemma decode_entries:
  "\<forall>(i, js) \<in> set t. from_json J js = Inr (f i) \<Longrightarrow> decode_all J (map snd t) = Inr (map f (map fst t))"
  by (induction t) auto

lemma try_get_stored:
  assumes "faithful_codec J" "stores J s m" "\<not> range_panics lo hi"
  shows "try_get_log_entries J lo hi s =
    Inr (map (\<lambda>i. the (m i)) (sorted_list_of_set {i \<in> dom m. in_bounds lo hi i}))"
proof -
  let ?t = "filter (\<lambda>(i, _). in_bounds lo hi i) (ls_log s)"
  from assms(2) have wf: "sorted (map fst (ls_log s))" "distinct (map fst (ls_log s))"
    by (simp_all add: stores_def tbl_wf_def)
  have "decode_all J (map snd ?t) = Inr (map (\<lambda>i. the (m i)) (map fst ?t))"
    using stored_decodes [OF assms(1,2)] by (intro decode_entries) auto
  moreover have "map fst ?t = sorted_list_of_set {i \<in> dom m. in_bounds lo hi i}"
    using sorted_log_keys [of s "in_bounds lo hi"] set_log_keys [of "in_bounds lo hi" s] wf
      stores_indices [OF assms(2)]
    by (metis log_keys_def sorted_list_of_set.idem_if_sorted_distinct tbl_wf_def)
  ultimately show ?thesis using assms(3) by (simp add: try_get_log_entries_def)
qed

lemma log_state_stored:
  assumes "faithful_codec J" "stores J s m"
  shows "get_log_state J s =
    Inr \<lparr>last_purged_log_id = ls_last_purged s,
         last_log_id = (if m = Map.empty then ls_last_purged s else Some (log_id_of J (the (m (Max (dom m))))))\<rparr>"
proof (cases "ls_log s = []")
  case True
  with assms(2) have "m = Map.empty" by (auto simp: stores_def fun_eq_iff)
  with True show ?thesis by (simp add: get_log_state_def)
next
  case False
  obtain i js where l: "last (ls_log s) = (i, js)" by fastforce
  with False have "(i, js) \<in> set (ls_log s)" by (metis last_in_set)
  note d = stored_decodes [OF assms this]
  from assms(2) have "ends_at i s" using ends_at_last [of s] False l by (simp add: stores_def)
  then have "Max (dom m) = i"
    using stores_indices [OF assms(2)] by (intro Max_eqI) (auto simp: ends_at_def)
  with d False l show ?thesis by (auto simp: get_log_state_def)
qed

end
