(* ===== verification/Log_Properties.thy ===== *)
theory Log_Properties
  imports Log_Store
begin

text \<open>What the Raft log store guarantees across restarts and to its readers.\<close>

section \<open>A concrete codec\<close>

text \<open>Entries that are their index and a payload, written as the index, a colon and the payload.\<close>

definition line_codec :: "(u64, u64 \<times> string) log_codec" where
  "line_codec =
    \<lparr>index_of = (\<lambda>l. l), log_id_of = fst, to_json = (\<lambda>(i, p). Inr (index_key i @ '':'' @ p)),
     from_json = (\<lambda>s. case split_once CHR '':'' s of
        None \<Rightarrow> Inl ''no colon''
      | Some (a, b) \<Rightarrow> (case parse_u64 a of None \<Rightarrow> Inl ''no index'' | Some i \<Rightarrow> Inr (i, b)))\<rparr>"

lemma line_codec_faithful: "faithful_codec line_codec"
proof -
  have "split_once CHR '':'' (index_key i @ CHR '':'' # p) = Some (index_key i, p)" for i p
    by (simp add: index_key_def split_once_append digit_not_in_show is_digit_def)
  then show ?thesis by (simp add: faithful_codec_def line_codec_def)
qed

definition sample_ops :: "(u64, u64 \<times> string, string) log_op list" where
  "sample_ops =
    [SaveVote ''v1'', Append [(1, ''a''), (2, ''b''), (3, ''c''), (4, ''d'')], SaveCommitted (Some 3),
     TruncateAfter (Some 3), Append [(4, ''e''), (5, ''f'')], Purge 2]"

section \<open>Restarts\<close>

text \<open>
  C11: for every history of calls that openraft makes and every further call that is
  interrupted after any number of its transactions, the store that the next start reads from the
  disk has the log, the vote and the purge mark that were in memory at the interruption; and unless
  the interrupted call was a truncation, the indices of the log have no hole.
\<close>

theorem log_survives_interruption:
  assumes "raft_calls J (ops @ [op]) (new_log_store empty_log_db)"
    and "stopped = log_partial J n op (log_run J ops)"
    and "restarted = new_log_store (ls_db stopped)"
  shows "ls_log restarted = ls_log stopped \<and> ls_vote restarted = ls_vote stopped \<and>
    ls_last_purged restarted = ls_last_purged stopped \<and> (is_truncation op \<or> no_holes restarted)"
proof -
  have m: "mirrors stopped" unfolding assms(2) by (intro mirrors_partial mirrors_run)
  note r = restart_mirrored [OF m, folded assms(3)]
  from assms(1) have ops: "raft_calls J ops (new_log_store empty_log_db)" "raft_call J op (log_run J ops)"
    by (simp_all add: raft_calls_append log_run_def)
  have "no_holes stopped" if "\<not> is_truncation op"
    unfolding assms(2) by (intro no_holes_partial mirrors_run no_holes_run ops that)
  then show ?thesis using r by (auto simp: no_holes_def indices_def)
qed

theorem log_survives_interruption_witness:
  "raft_calls line_codec (sample_ops @ [Purge 4]) (new_log_store empty_log_db) \<and>
   map fst (ls_log (log_run line_codec sample_ops)) = [3, 4, 5] \<and>
   map fst (ls_log (log_partial line_codec 2 (Purge 4) (log_run line_codec sample_ops))) = [4, 5] \<and>
   no_holes (new_log_store (ls_db (log_partial line_codec 2 (Purge 4) (log_run line_codec sample_ops))))"
proof -
  have c: "raft_calls line_codec (sample_ops @ [Purge 4]) (new_log_store empty_log_db)" by code_simp
  have "map fst (ls_log (log_run line_codec sample_ops)) = [3, 4, 5]" by code_simp
  moreover have "map fst (ls_log (log_partial line_codec 2 (Purge 4) (log_run line_codec sample_ops))) = [4, 5]"
    by code_simp
  ultimately show ?thesis using c log_survives_interruption [OF c refl refl, of 2] by simp
qed

section \<open>Reading\<close>

text \<open>
  C36: with a serializer that reads back what it has written, after every history of calls
  the store answers like a function from indices to entries on which an append sets, a truncation
  and a purge restrict: a range of it is read in the order of the indices, and the state names the
  greatest index, or the purge mark when the log is empty.
\<close>

theorem log_implements_map:
  assumes "faithful_codec J" and "m = fold (spec_exec J) ops Map.empty"
  shows "(\<not> range_panics lo hi \<longrightarrow>
      try_get_log_entries J lo hi (log_run J ops) =
        Inr (map (\<lambda>i. the (m i)) (sorted_list_of_set {i \<in> dom m. in_bounds lo hi i}))) \<and>
    get_log_state J (log_run J ops) =
      Inr \<lparr>last_purged_log_id = ls_last_purged (log_run J ops),
           last_log_id = (if m = Map.empty then ls_last_purged (log_run J ops)
                          else Some (log_id_of J (the (m (Max (dom m))))))\<rparr>"
proof -
  have "stores J (log_run J ops) m" unfolding assms(2) by (rule stores_run [OF assms(1)])
  from try_get_stored [OF assms(1) this] log_state_stored [OF assms(1) this] show ?thesis by blast
qed

theorem log_implements_map_witness:
  "try_get_log_entries line_codec (Included 4) Unbounded (log_run line_codec sample_ops) =
     Inr [(4, ''e''), (5, ''f'')] \<and>
   (\<exists>m. m = fold (spec_exec line_codec) sample_ops Map.empty \<and>
     try_get_log_entries line_codec (Included 4) Unbounded (log_run line_codec sample_ops) =
       Inr (map (\<lambda>i. the (m i)) (sorted_list_of_set {i \<in> dom m. in_bounds (Included 4) Unbounded i})))"
proof
  show "try_get_log_entries line_codec (Included 4) Unbounded (log_run line_codec sample_ops) =
     Inr [(4, ''e''), (5, ''f'')]" by code_simp
  show "\<exists>m. m = fold (spec_exec line_codec) sample_ops Map.empty \<and>
     try_get_log_entries line_codec (Included 4) Unbounded (log_run line_codec sample_ops) =
       Inr (map (\<lambda>i. the (m i)) (sorted_list_of_set {i \<in> dom m. in_bounds (Included 4) Unbounded i}))"
    using log_implements_map [OF line_codec_faithful refl, of "Included 4" Unbounded sample_ops] by simp
qed

section \<open>Interrupted truncations and forgotten commits\<close>

text \<open>
  A truncation removes from the lower end: stopped after one of its transactions it leaves a log
  with a hole, and the next start takes the entries beyond it for part of the log.
\<close>

theorem interrupted_truncation_leaves_hole:
  "let s = log_run line_codec [Append [(1, ''a''), (2, ''b''), (3, ''c''), (4, ''d'') :: u64 \<times> string]]
         :: (u64, string) log_store;
       t = new_log_store (ls_db (log_partial line_codec 1 (TruncateAfter (Some 2)) s))
   in map fst (ls_log t) = [1, 2, 4] \<and>
      get_log_state line_codec t = Inr \<lparr>last_purged_log_id = None, last_log_id = Some 4\<rparr>"
  by code_simp

text \<open>\<^verbatim>\<open>save_committed(None)\<close> leaves the old position on the disk.\<close>

theorem cleared_commit_comes_back:
  "let s = save_committed None (save_committed (Some 7) (new_log_store empty_log_db)) :: (u64, string) log_store
   in read_committed s = None \<and> read_committed (new_log_store (ls_db s)) = Some 7"
  by code_simp

end
