(* ===== verification/Idempotency.thy ===== *)
theory Idempotency
  imports Node_Prelude
begin

text \<open>
  The journal of request keys, \<^verbatim>\<open>layers/controlplane/src/idempotency.rs\<close>.  The type of the cached
  responses is a parameter, and the fingerprint of a payload is an argument: it is a hash of its JSON
  text.  The clock counts seconds in 64 bits.
\<close>

definition key_ttl_secs :: u64 where
  "key_ttl_secs = 24 * 3600"

record 'r journal_entry =
  je_key :: string
  je_payload_fingerprint :: u64
  je_response :: 'r
  je_created_at :: u64

datatype 'r idempotency_check = NewKey | Duplicate 'r | Conflict

type_synonym 'r journal = "(string, 'r journal_entry) hmap"

definition expired :: "u64 \<Rightarrow> 'r journal_entry \<Rightarrow> bool" where
  "expired now e \<longleftrightarrow> saturating_sub now (je_created_at e) > key_ttl_secs"

definition journal_check :: "u64 \<Rightarrow> string \<Rightarrow> u64 \<Rightarrow> 'r journal \<Rightarrow> 'r idempotency_check" where
  "journal_check now key fp j =
     (case hget j key of
        None \<Rightarrow> NewKey
      | Some e \<Rightarrow>
          if expired now e then NewKey
          else if je_payload_fingerprint e = fp then Duplicate (je_response e)
          else Conflict)"

definition journal_record :: "u64 \<Rightarrow> string \<Rightarrow> u64 \<Rightarrow> 'r \<Rightarrow> 'r journal \<Rightarrow> 'r journal" where
  "journal_record now key fp r j =
     hinsert key \<lparr>je_key = key, je_payload_fingerprint = fp, je_response = r, je_created_at = now\<rparr> j"

definition journal_gc :: "u64 \<Rightarrow> 'r journal \<Rightarrow> 'r journal \<times> nat" where
  "journal_gc now j =
     (let kept = filter (\<lambda>(_, e). saturating_sub now (je_created_at e) \<le> key_ttl_secs) j
      in (kept, length j - length kept))"

definition to_entries :: "'r journal \<Rightarrow> 'r journal_entry list" where
  "to_entries j = hvalues j"

definition journal_restore :: "'r journal_entry list \<Rightarrow> 'r journal \<Rightarrow> 'r journal" where
  "journal_restore es j = fold (\<lambda>e. hinsert (je_key e) e) es []"

section \<open>Snapshots keep the journal\<close>

definition journal_ok :: "'r journal \<Rightarrow> bool" where
  "journal_ok j \<longleftrightarrow> hm_wf j \<and> (\<forall>k e. hget j k = Some e \<longrightarrow> je_key e = k)"

lemma journal_ok_Nil [simp]: "journal_ok []"
  by (simp add: journal_ok_def)

lemma journal_ok_record: "journal_ok j \<Longrightarrow> journal_ok (journal_record now key fp r j)"
  by (simp add: journal_ok_def journal_record_def)

lemma hget_gc:
  assumes "hm_wf j"
  shows "hget (fst (journal_gc now j)) k =
    (case hget j k of Some e \<Rightarrow> if expired now e then None else Some e | None \<Rightarrow> None)"
proof -
  have "filter (\<lambda>(_, e). saturating_sub now (je_created_at e) \<le> key_ttl_secs) j =
      filter (\<lambda>x. \<not> expired now (snd x)) j"
    by (rule filter_cong) (auto simp: expired_def not_less)
  then show ?thesis
    using hget_filter_snd [OF assms, of "\<lambda>e. \<not> expired now e" k]
    by (simp add: journal_gc_def Let_def split: option.split)
qed

lemma journal_ok_gc: "journal_ok j \<Longrightarrow> journal_ok (fst (journal_gc now j))"
  using hget_gc [of j now]
  by (auto simp: journal_ok_def split: option.splits if_splits)
    (simp add: journal_gc_def Let_def hm_wf_filter)

lemma restore_fold:
  assumes "distinct (map fst es)" "\<forall>(k, e) \<in> set es. je_key e = k"
  shows "hget (fold (\<lambda>e. hinsert (je_key e) e) (map snd es) m) k =
    (case map_of es k of Some e \<Rightarrow> Some e | None \<Rightarrow> hget m k)"
  using assms
proof (induction es arbitrary: m)
  case (Cons x es)
  obtain i e where x: "x = (i, e)" by fastforce
  with Cons.prems have "map_of es i = None" "je_key e = i" by (auto simp: map_of_eq_None_iff)
  with Cons x show ?case by (auto split: option.split)
qed simp

lemma hm_wf_restore: "hm_wf m \<Longrightarrow> hm_wf (fold (\<lambda>e. hinsert (je_key e) e) es m)"
  by (induction es arbitrary: m) auto

lemma hget_restore:
  assumes "journal_ok j"
  shows "hget (journal_restore (to_entries j) j') = hget j"
proof
  fix k
  from assms have wf: "hm_wf j" and keys: "hget j k = Some e \<Longrightarrow> je_key e = k" for k e
    by (simp_all add: journal_ok_def)
  have "\<forall>(k, e) \<in> set j. je_key e = k"
  proof safe
    fix k e assume "(k, e) \<in> set j"
    then show "je_key e = k" using keys by (simp only: hm.in_entries_iff [OF wf])
  qed
  with wf have "distinct (map fst j)" "\<forall>(k, e) \<in> set j. je_key e = k" by simp_all
  from restore_fold [OF this, of "[]" k] show "hget (journal_restore (to_entries j) j') k = hget j k"
    by (simp add: journal_restore_def to_entries_def split: option.split)
qed

lemma journal_ok_restore: "journal_ok j \<Longrightarrow> journal_ok (journal_restore (to_entries j) j')"
  using hget_restore [of j j'] hm_wf_restore [of "[]"] by (simp add: journal_ok_def journal_restore_def)

section \<open>Histories\<close>

datatype 'r journal_op =
    JRecord u64 string u64 'r
  | JGc u64
  | JReload

fun journal_exec :: "'r journal_op \<Rightarrow> 'r journal \<Rightarrow> 'r journal" where
  "journal_exec (JRecord now key fp r) j = journal_record now key fp r j"
| "journal_exec (JGc now) j = fst (journal_gc now j)"
| "journal_exec JReload j = journal_restore (to_entries j) j"

text \<open>Operations that leave the entry of a key made at a given time alone.\<close>

fun spares :: "string \<Rightarrow> u64 \<Rightarrow> 'r journal_op \<Rightarrow> bool" where
  "spares key made (JRecord now k fp r) \<longleftrightarrow> k \<noteq> key"
| "spares key made (JGc now) \<longleftrightarrow> saturating_sub now made \<le> key_ttl_secs"
| "spares key made JReload \<longleftrightarrow> True"

lemma journal_ok_exec: "journal_ok j \<Longrightarrow> journal_ok (journal_exec op j)"
  by (cases op) (simp_all add: journal_ok_record journal_ok_gc journal_ok_restore)

lemma journal_ok_run: "journal_ok j \<Longrightarrow> journal_ok (fold journal_exec ops j)"
  by (induction ops arbitrary: j) (auto intro: journal_ok_exec)

lemma entry_spared:
  assumes "journal_ok j" "hget j key = Some e" "spares key (je_created_at e) op"
  shows "hget (journal_exec op j) key = Some e"
proof (cases op)
  case (JGc now)
  with assms show ?thesis by (simp add: hget_gc journal_ok_def expired_def not_less)
qed (use assms in \<open>simp_all add: journal_record_def hget_restore\<close>)

lemma entry_kept:
  assumes "journal_ok j" "hget j key = Some e" "list_all (spares key (je_created_at e)) ops"
  shows "hget (fold journal_exec ops j) key = Some e"
  using assms by (induction ops arbitrary: j) (auto intro: entry_spared journal_ok_exec)

section \<open>A repeated request is answered once\<close>

text \<open>
  C28: after a request with a key was executed and recorded, through any further requests with
  other keys, collections within a day and snapshot transfers, the same request is answered from
  the journal for a day, a different one with the key is a conflict, and after the day the key is new.
\<close>

theorem repeated_request_answered:
  fixes earlier later :: "'r journal_op list"
  assumes "list_all (spares key made) later"
    and "j = fold journal_exec (earlier @ JRecord made key fp r # later) []"
  shows "journal_check now key fp' j =
    (if saturating_sub now made > key_ttl_secs then NewKey
     else if fp' = fp then Duplicate r else Conflict)"
proof -
  let ?e = "\<lparr>je_key = key, je_payload_fingerprint = fp, je_response = r, je_created_at = made\<rparr>"
  let ?j = "journal_record made key fp r (fold journal_exec earlier [])"
  have "journal_ok ?j" by (simp add: journal_ok_record journal_ok_run)
  moreover have "hget ?j key = Some ?e" by (simp add: journal_record_def)
  ultimately have "hget j key = Some ?e" using entry_kept [of ?j key ?e later] assms by simp
  then show ?thesis by (simp add: journal_check_def expired_def)
qed

theorem repeated_request_answered_witness:
  "list_all (spares ''k'' 100) [JRecord 200 ''l'' 9 True, JGc 80000, JReload] \<and>
   (\<exists>j. j = fold journal_exec ([JGc 5] @ JRecord 100 ''k'' 7 False # [JRecord 200 ''l'' 9 True, JGc 80000, JReload]) [] \<and>
     journal_check 86000 ''k'' 7 j = Duplicate False \<and> journal_check 86000 ''k'' 8 j = Conflict \<and>
     journal_check 87000 ''k'' 7 j = NewKey)"
proof -
  have s: "list_all (spares ''k'' 100) [JRecord 200 ''l'' 9 True, JGc 80000, JReload]" by code_simp
  have "saturating_sub (86000 :: u64) 100 \<le> key_ttl_secs" "saturating_sub (87000 :: u64) 100 > key_ttl_secs"
    by code_simp+
  with s repeated_request_answered [OF s refl, of 86000 7 "[JGc 5]" 7 False]
    repeated_request_answered [OF s refl, of 86000 8 "[JGc 5]" 7 False]
    repeated_request_answered [OF s refl, of 87000 7 "[JGc 5]" 7 False]
  show ?thesis by (auto simp: not_less)
qed

end
