(* ===== verification/Float64.thy ===== *)
theory Float64
  imports Complex_Main
begin

text \<open>
  The arithmetic of \<^verbatim>\<open>f64\<close> as far as the scheduler uses it: finite numbers, rounded to 53
  significant bits, ties to even.  A number is its rational value.  The operands of the scheduler lie
  between \<open>2 ^ - 70\<close> and \<open>2 ^ 70\<close> in magnitude or are zero, so neither overflow nor
  subnormal numbers occur and the exponent is not bounded here; the sign of zero is not kept, since
  comparison ignores it.
\<close>

definition pow2 :: "int \<Rightarrow> rat" where
  "pow2 e = (if 0 \<le> e then 2 ^ nat e else inverse (2 ^ nat (- e)))"

function bit_length :: "int \<Rightarrow> int" where
  "bit_length n = (if n \<le> 0 then 0 else 1 + bit_length (n div 2))"
  by pat_completeness simp
termination
proof (relation "measure nat")
  fix n :: int
  assume "\<not> n \<le> 0"
  then have "n div 2 < n" "0 < n" by linarith+
  then show "(n div 2, n) \<in> measure nat" by simp
qed simp

declare bit_length.simps [simp del]

definition ilog2 :: "rat \<Rightarrow> int" where
  "ilog2 x = (let (n, d) = quotient_of x; k = bit_length n - bit_length d in if pow2 k \<le> x then k else k - 1)"

definition round_even :: "rat \<Rightarrow> int" where
  "round_even x =
     (let f = \<lfloor>x\<rfloor>; r = x - of_int f
      in if r < 1 / 2 then f else if r > 1 / 2 then f + 1 else if even f then f else f + 1)"

definition round_f64 :: "rat \<Rightarrow> rat" where
  "round_f64 x = (if x = 0 then 0 else let e = ilog2 \<bar>x\<bar> - 52 in of_int (round_even (x / pow2 e)) * pow2 e)"

definition f64_add :: "rat \<Rightarrow> rat \<Rightarrow> rat" where "f64_add a b = round_f64 (a + b)"
definition f64_sub :: "rat \<Rightarrow> rat \<Rightarrow> rat" where "f64_sub a b = round_f64 (a - b)"
definition f64_mul :: "rat \<Rightarrow> rat \<Rightarrow> rat" where "f64_mul a b = round_f64 (a * b)"
definition f64_div :: "rat \<Rightarrow> rat \<Rightarrow> rat" where "f64_div a b = round_f64 (a / b)"

section \<open>Integers are exact below \<open>2 ^ 53\<close>\<close>

lemma pow2_powi: "pow2 e = 2 powi e"
  by (simp only: pow2_def power_int_def power_inverse)

lemma pow2_pos [simp]: "0 < pow2 e"
  by (simp add: pow2_def)

lemma pow2_nonzero [simp]: "pow2 e \<noteq> 0"
  using pow2_pos [of e] by linarith

lemma pow2_add: "pow2 (a + b) = pow2 a * pow2 b"
  by (simp add: pow2_powi power_int_add)

lemma pow2_mono: "a \<le> b \<Longrightarrow> pow2 a \<le> pow2 b"
  by (simp add: pow2_powi power_int_increasing)

lemma pow2_strict_mono: "a < b \<Longrightarrow> pow2 a < pow2 b"
  by (simp add: pow2_powi power_int_strict_increasing)

lemma bit_length_bounds:
  "0 < n \<Longrightarrow> pow2 (bit_length n - 1) \<le> of_int n \<and> of_int n < pow2 (bit_length n) \<and> 0 < bit_length n"
proof (induction n rule: bit_length.induct)
  case (1 n)
  show ?case
  proof (cases "n = 1")
    case True
    have z: "bit_length 0 = 0" by (subst bit_length.simps) simp
    have "bit_length 1 = 1" by (subst bit_length.simps) (simp add: z)
    with True show ?thesis by (simp add: pow2_def)
  next
    case False
    with 1(2) have pos: "0 < n div 2" by linarith
    let ?b = "bit_length (n div 2)"
    have "\<not> n \<le> 0" using 1(2) by simp
    from 1(1) [OF this pos] have ih: "pow2 (?b - 1) \<le> of_int (n div 2)" "of_int (n div 2) < pow2 ?b" "0 < ?b"
      by blast+
    have b: "bit_length n = ?b + 1" using 1(2) by (subst bit_length.simps) simp
    have p: "pow2 (bit_length n - 1) = 2 * pow2 (?b - 1)" "pow2 (bit_length n) = 2 * pow2 ?b"
      using pow2_add [of "?b - 1" 1] pow2_add [of ?b 1] by (simp_all add: b pow2_def)
    from ih(3) have "pow2 ?b = of_int (2 ^ nat ?b)" by (simp add: pow2_def)
    with ih(2) have "n div 2 < 2 ^ nat ?b" by (simp only: of_int_less_iff)
    then have "n < 2 * 2 ^ nat ?b" by linarith
    then have "(of_int n :: rat) < of_int (2 * 2 ^ nat ?b)" by (simp only: of_int_less_iff)
    with \<open>pow2 ?b = of_int (2 ^ nat ?b)\<close> have up: "(of_int n :: rat) < 2 * pow2 ?b" by simp
    have "2 * (n div 2) \<le> n" by simp
    then have "(of_int (2 * (n div 2)) :: rat) \<le> of_int n" by (simp only: of_int_le_iff)
    then have "2 * of_int (n div 2) \<le> (of_int n :: rat)" by simp
    with ih(1) p up b ih(3) show ?thesis by simp
  qed
qed

lemma ilog2_lower:
  assumes "0 < x"
  shows "pow2 (ilog2 x) \<le> x"
proof -
  obtain n d where q: "quotient_of x = (n, d)" by fastforce
  have d: "0 < d" and x: "x = of_int n / of_int d"
    using quotient_of_denom_pos [OF q] quotient_of_div [OF q] by simp_all
  with assms have n: "0 < n" by (simp add: zero_less_divide_iff)
  let ?k = "bit_length n - bit_length d"
  have "pow2 (?k - 1) * pow2 (bit_length d) = pow2 (bit_length n - 1)"
    using pow2_add [of "?k - 1" "bit_length d"] by simp
  also have "\<dots> \<le> of_int n" using bit_length_bounds [OF n] by simp
  also have "of_int n = x * of_int d" using d x by simp
  also have "\<dots> \<le> x * pow2 (bit_length d)"
    using bit_length_bounds [OF d] assms by (intro mult_left_mono) simp_all
  finally have "pow2 (?k - 1) \<le> x" by simp
  with q show ?thesis by (simp add: ilog2_def Let_def)
qed

lemma round_even_int [simp]: "round_even (of_int n) = n"
  by (simp add: round_even_def)

lemma round_f64_int:
  assumes "\<bar>n\<bar> < 2 ^ 53"
  shows "round_f64 (of_int n) = of_int n"
proof (cases "n = 0")
  case False
  let ?e = "ilog2 \<bar>of_int n\<bar> - 52"
  have "pow2 (ilog2 \<bar>of_int n\<bar>) \<le> of_int \<bar>n\<bar>" using ilog2_lower [of "\<bar>of_int n\<bar>"] False by simp
  also have "(of_int \<bar>n\<bar> :: rat) < of_int (2 ^ 53)" using assms by (simp only: of_int_less_iff)
  also have "(of_int (2 ^ 53) :: rat) = pow2 53" by (simp add: pow2_def)
  finally have "ilog2 \<bar>of_int n\<bar> < 53" using pow2_mono [of 53 "ilog2 \<bar>of_int n\<bar>"] by linarith
  then have e: "?e \<le> 0" by simp
  have "pow2 ?e * pow2 (- ?e) = 1" using pow2_add [of ?e "- ?e"] by (simp add: pow2_def)
  then have "inverse (pow2 ?e) = pow2 (- ?e)" by (rule inverse_unique)
  then have "of_int n / pow2 ?e = of_int n * pow2 (- ?e)" by (simp only: divide_inverse)
  also have "pow2 (- ?e) = of_int (2 ^ nat (- ?e))" using e by (simp add: pow2_def)
  finally have q: "of_int n / pow2 ?e = of_int (n * 2 ^ nat (- ?e))" by simp
  have "round_f64 (of_int n) = of_int (round_even (of_int n / pow2 ?e)) * pow2 ?e"
    using False by (simp add: round_f64_def Let_def)
  also have "\<dots> = of_int n / pow2 ?e * pow2 ?e" by (simp only: q round_even_int)
  also have "\<dots> = of_int n" by simp
  finally show ?thesis .
qed (simp add: round_f64_def)

lemma round_f64_small [simp]:
  "(numeral k :: int) < 2 ^ 53 \<Longrightarrow> round_f64 (numeral k) = numeral k"
  "(numeral k :: int) < 2 ^ 53 \<Longrightarrow> round_f64 (- numeral k) = - numeral k"
  "round_f64 0 = 0" "round_f64 1 = 1"
  using round_f64_int [of "numeral k"] round_f64_int [of "- numeral k"] round_f64_int [of 0] round_f64_int [of 1]
  by simp_all

end
