(* ===== verification/Gossip.thy ===== *)
theory Gossip
  imports Node_Prelude Float64
begin

text \<open>
  The shared state of the gossip layer, \<^verbatim>\<open>layers/controlplane/src/gossip.rs\<close>: reports of the
  hypervisors and states of the members, as \<^verbatim>\<open>foca\<close> announces them.  The protocol is third-party code;
  its notifications are the operations on the cluster.  A socket address is a parameter
  type.
\<close>

section \<open>Identities\<close>

record 'a gossip_node_id =
  gn_addr :: 'a
  gn_bump :: u16

definition renew :: "'a gossip_node_id \<Rightarrow> 'a gossip_node_id option" where
  "renew g = Some (g\<lparr>gn_bump := gn_bump g + 1\<rparr>)"

definition win_addr_conflict :: "'a gossip_node_id \<Rightarrow> 'a gossip_node_id \<Rightarrow> bool" where
  "win_addr_conflict g other \<longleftrightarrow> gn_bump g > gn_bump other"

datatype member_state = Alive | Suspect | Down

section \<open>Reports\<close>

record cache_metrics =
  cm_cache_hit_rate :: rat
  cm_dirty_bytes :: u64
  cm_cache_used_gb :: rat
  cm_eviction_rate :: rat
  cm_volumes_attached :: u32
  cm_s3_health :: bool

record gossip_report =
  gr_hypervisor_id :: string
  gr_node_name :: string
  gr_region :: string
  gr_zone :: string
  gr_state :: string
  gr_allocatable_vcpus :: u32
  gr_allocatable_memory_mb :: u64
  gr_used_vcpus :: u32
  gr_used_memory_mb :: u64
  gr_instance_count :: u32
  gr_drain_status :: bool
  gr_timestamp :: u64
  gr_s3_reachable :: "bool option"
  gr_s3_put_latency_ms :: "u64 option"
  gr_s3_get_latency_ms :: "u64 option"
  gr_s3_degradation_level :: "string option"
  gr_storage_health :: "string option"
  gr_storage_dirty_bytes :: u64
  gr_cache_metrics :: "cache_metrics option"

definition report_cpu_utilization :: "gossip_report \<Rightarrow> rat" where
  "report_cpu_utilization r =
     (if gr_allocatable_vcpus r = 0 then 0
      else f64_div (rat_of_int (uint (gr_used_vcpus r))) (rat_of_int (uint (gr_allocatable_vcpus r))))"

definition report_memory_utilization :: "gossip_report \<Rightarrow> rat" where
  "report_memory_utilization r =
     (if gr_allocatable_memory_mb r = 0 then 0
      else f64_div (round_f64 (rat_of_int (uint (gr_used_memory_mb r))))
                   (round_f64 (rat_of_int (uint (gr_allocatable_memory_mb r)))))"

definition report_available_vcpus :: "gossip_report \<Rightarrow> u32" where
  "report_available_vcpus r = saturating_sub (gr_allocatable_vcpus r) (gr_used_vcpus r)"

definition report_available_memory_mb :: "gossip_report \<Rightarrow> u64" where
  "report_available_memory_mb r = saturating_sub (gr_allocatable_memory_mb r) (gr_used_memory_mb r)"

section \<open>The cluster\<close>

record gossip_cluster =
  gc_reports :: "(string, gossip_report) hmap"
  gc_member_states :: "(string, member_state) hmap"
  gc_messages_sent :: u64
  gc_messages_received :: u64

definition new_cluster :: gossip_cluster where
  "new_cluster = \<lparr>gc_reports = [], gc_member_states = [], gc_messages_sent = 0, gc_messages_received = 0\<rparr>"

definition inc_messages_sent :: "gossip_cluster \<Rightarrow> gossip_cluster" where
  "inc_messages_sent c = c\<lparr>gc_messages_sent := gc_messages_sent c + 1\<rparr>"

definition inc_messages_received :: "gossip_cluster \<Rightarrow> gossip_cluster" where
  "inc_messages_received c = c\<lparr>gc_messages_received := gc_messages_received c + 1\<rparr>"

record gossip_metrics =
  gm_members_alive :: u64
  gm_members_suspect :: u64
  gm_members_down :: u64
  gm_messages_sent :: u64
  gm_messages_received :: u64

definition count_members :: "member_state \<Rightarrow> gossip_cluster \<Rightarrow> u64" where
  "count_members st c = of_nat (length (filter (\<lambda>s. s = st) (hvalues (gc_member_states c))))"

definition metrics_snapshot :: "gossip_cluster \<Rightarrow> gossip_metrics" where
  "metrics_snapshot c =
     \<lparr>gm_members_alive = count_members Alive c, gm_members_suspect = count_members Suspect c,
      gm_members_down = count_members Down c, gm_messages_sent = gc_messages_sent c,
      gm_messages_received = gc_messages_received c\<rparr>"

definition update_report :: "gossip_report \<Rightarrow> gossip_cluster \<Rightarrow> gossip_cluster" where
  "update_report r c = c\<lparr>gc_reports := hinsert (gr_node_name r) r (gc_reports c)\<rparr>"

definition set_member_state :: "string \<Rightarrow> member_state \<Rightarrow> gossip_cluster \<Rightarrow> gossip_cluster" where
  "set_member_state addr st c = c\<lparr>gc_member_states := hinsert addr st (gc_member_states c)\<rparr>"

definition all_reports :: "gossip_cluster \<Rightarrow> gossip_report list" where
  "all_reports c = hvalues (gc_reports c)"

definition get_report :: "string \<Rightarrow> gossip_cluster \<Rightarrow> gossip_report option" where
  "get_report n c = hget (gc_reports c) n"

definition get_member_state :: "string \<Rightarrow> gossip_cluster \<Rightarrow> member_state option" where
  "get_member_state addr c = hget (gc_member_states c) addr"

definition down_members :: "gossip_cluster \<Rightarrow> string list" where
  "down_members c = map fst (filter (\<lambda>(_, s). s = Down) (gc_member_states c))"

definition mark_down :: "string \<Rightarrow> gossip_cluster \<Rightarrow> gossip_cluster" where
  "mark_down n c =
     (let c1 = (case hget (gc_reports c) n of
                  Some r \<Rightarrow> c\<lparr>gc_member_states :=
                    hinsert (''['' @ gr_hypervisor_id r @ '']:'' @ show_nat 7300) Down (gc_member_states c)\<rparr>
                | None \<Rightarrow> c)
      in c1\<lparr>gc_member_states := hinsert n Down (gc_member_states c1)\<rparr>)"

definition remove_report :: "string \<Rightarrow> gossip_cluster \<Rightarrow> gossip_cluster" where
  "remove_report n c = c\<lparr>gc_reports := hremove n (gc_reports c)\<rparr>"

text \<open>The report a node publishes about itself every ten seconds.\<close>

definition local_report ::
    "string \<Rightarrow> string \<Rightarrow> string \<Rightarrow> string \<Rightarrow> u32 \<times> u64 \<times> u32 \<times> u64 \<times> u32 \<Rightarrow>
     (bool \<times> u64 option \<times> u64 option \<times> string) option \<Rightarrow> (string option \<times> u64) option \<Rightarrow> u64 \<Rightarrow> gossip_report" where
  "local_report hv_id name region zone capacity s3 storage now =
     (let (alloc_v, alloc_m, used_v, used_m, vm_count) = capacity;
          (s3r, s3p, s3g, s3d) =
            (case s3 of Some (r, p, g, d) \<Rightarrow> (Some r, p, g, Some d) | None \<Rightarrow> (None, None, None, None));
          (sh, sdb) = (case storage of Some x \<Rightarrow> x | None \<Rightarrow> (None, 0))
      in \<lparr>gr_hypervisor_id = hv_id, gr_node_name = name, gr_region = region, gr_zone = zone,
          gr_state = ''Available'', gr_allocatable_vcpus = alloc_v, gr_allocatable_memory_mb = alloc_m,
          gr_used_vcpus = used_v, gr_used_memory_mb = used_m, gr_instance_count = vm_count,
          gr_drain_status = False, gr_timestamp = now, gr_s3_reachable = s3r, gr_s3_put_latency_ms = s3p,
          gr_s3_get_latency_ms = s3g, gr_s3_degradation_level = s3d, gr_storage_health = sh,
          gr_storage_dirty_bytes = sdb, gr_cache_metrics = None\<rparr>)"

section \<open>Reports by name\<close>

definition reports_ok :: "gossip_cluster \<Rightarrow> bool" where
  "reports_ok c \<longleftrightarrow> hm_wf (gc_reports c) \<and> (\<forall>n r. hget (gc_reports c) n = Some r \<longrightarrow> gr_node_name r = n)"

lemma reports_ok_new [simp]: "reports_ok new_cluster"
  by (simp add: reports_ok_def new_cluster_def)

lemma reports_ok_ops:
  assumes "reports_ok c"
  shows "reports_ok (update_report r c)" "reports_ok (remove_report n c)" "reports_ok (mark_down n c)"
    "reports_ok (set_member_state a st c)"
  using assms
  by (auto simp: reports_ok_def update_report_def remove_report_def mark_down_def set_member_state_def
      Let_def split: option.split if_splits)

lemma in_all_reports_iff:
  assumes "reports_ok c"
  shows "r \<in> set (all_reports c) \<longleftrightarrow> get_report (gr_node_name r) c = Some r"
proof -
  from assms have wf: "hm_wf (gc_reports c)" and n: "hget (gc_reports c) m = Some r \<Longrightarrow> gr_node_name r = m" for m
    by (simp_all add: reports_ok_def)
  have "r \<in> set (all_reports c) \<longleftrightarrow> (\<exists>m. hget (gc_reports c) m = Some r)"
    by (force simp: all_reports_def hm.in_entries_iff [OF wf, symmetric])
  with n show ?thesis unfolding get_report_def by metis
qed

text \<open>A down member keeps its report.\<close>

lemma mark_down_keeps_report: "get_report m (mark_down n c) = get_report m c"
  by (simp add: get_report_def mark_down_def Let_def split: option.split)

end
