(* ===== verification/Scheduler.thy ===== *)
theory Scheduler
  imports Hypervisor_Store Gossip
begin

text \<open>
  The placement scheduler, \<^verbatim>\<open>layers/controlplane/src/scheduler.rs\<close>, and the rescheduling of the VMs
  of a failed hypervisor, \<^verbatim>\<open>reschedule.rs\<close>: filter, score, sort, take the first.  The scores are
  \<^verbatim>\<open>f64\<close> numbers of \<open>Float64\<close>; none of them is a NaN, so \<^verbatim>\<open>partial_cmp\<close> is a total order of them
  and the stable sort of the source is a sort by score, descending, and name.
\<close>

section \<open>Constraints and candidates\<close>

record placement_constraints =
  pc_zone :: "string option"
  pc_node_selector :: "(string, string) hmap"
  pc_tolerations :: "string list"
  pc_anti_affinity_group :: "string option"
  pc_spread_topology :: "string option"

definition default_constraints :: placement_constraints where
  "default_constraints =
     \<lparr>pc_zone = None, pc_node_selector = [], pc_tolerations = [], pc_anti_affinity_group = None,
      pc_spread_topology = None\<rparr>"

definition from_cli ::
    "string option \<Rightarrow> string list \<Rightarrow> string option \<Rightarrow> string option \<Rightarrow> placement_constraints" where
  "from_cli zone node_selector anti_affinity spread_topology =
     \<lparr>pc_zone = zone,
      pc_node_selector =
        fold (\<lambda>sel labels. case split_once CHR ''='' sel of Some (k, v) \<Rightarrow> hinsert k v labels | None \<Rightarrow> labels)
          node_selector [],
      pc_tolerations = [], pc_anti_affinity_group = anti_affinity, pc_spread_topology = spread_topology\<rparr>"

fun join_strs :: "string \<Rightarrow> string list \<Rightarrow> string" where
  "join_strs sep [] = []"
| "join_strs sep [s] = s"
| "join_strs sep (s # ss) = s @ sep @ join_strs sep ss"

definition summary :: "placement_constraints \<Rightarrow> string" where
  "summary c =
     (let parts = (case pc_zone c of Some z \<Rightarrow> [''zone='' @ z] | None \<Rightarrow> []) @
                  map (\<lambda>(k, v). k @ ''='' @ v) (pc_node_selector c)
      in if parts = [] then ''none'' else join_strs '', '' parts)"

record placement_decision =
  pd_hypervisor_id :: string
  pd_hypervisor_addr :: string
  pd_score :: rat
  pd_is_local_fallback :: bool

record scheduler_error =
  se_message :: string
  se_constraints_summary :: string

record hypervisor_candidate =
  cand_id :: string
  cand_name :: string
  cand_region :: string
  cand_zone :: string
  cand_state :: string
  cand_labels :: "(string, string) hmap"
  cand_taints :: "string list"
  cand_allocatable_vcpus :: u32
  cand_allocatable_memory_mb :: u64
  cand_used_vcpus :: u32
  cand_used_memory_mb :: u64
  cand_instance_count :: u32
  cand_fabric_ipv6 :: string

definition taint_text :: "taint \<Rightarrow> string" where
  "taint_text t =
     (let effect = (case taint_effect_of t of NoSchedule \<Rightarrow> ''NoSchedule'' | NoExecute \<Rightarrow> ''NoExecute'')
      in case taint_value t of
           Some v \<Rightarrow> taint_key t @ ''='' @ v @ '':'' @ effect
         | None \<Rightarrow> taint_key t @ '':'' @ effect)"

definition from_hypervisor :: "hypervisor \<Rightarrow> hypervisor_candidate" where
  "from_hypervisor hv =
     \<lparr>cand_id = hv_id hv, cand_name = hv_name hv, cand_region = hv_region hv, cand_zone = hv_zone hv,
      cand_state = hypervisor_state_to_string (hv_state hv), cand_labels = hv_labels hv,
      cand_taints = map taint_text (hv_taints hv),
      cand_allocatable_vcpus = cap_allocatable_vcpus (hv_capacity hv),
      cand_allocatable_memory_mb = cap_allocatable_memory_mb (hv_capacity hv),
      cand_used_vcpus = cap_used_vcpus (hv_capacity hv),
      cand_used_memory_mb = cap_used_memory_mb (hv_capacity hv),
      cand_instance_count = 0, cand_fabric_ipv6 = hv_fabric_ipv6 hv\<rparr>"

definition from_gossip_report :: "gossip_report \<Rightarrow> string \<Rightarrow> hypervisor_candidate" where
  "from_gossip_report r fabric_ipv6 =
     \<lparr>cand_id = gr_hypervisor_id r, cand_name = gr_node_name r, cand_region = gr_region r,
      cand_zone = gr_zone r, cand_state = gr_state r, cand_labels = [], cand_taints = [],
      cand_allocatable_vcpus = gr_allocatable_vcpus r,
      cand_allocatable_memory_mb = gr_allocatable_memory_mb r, cand_used_vcpus = gr_used_vcpus r,
      cand_used_memory_mb = gr_used_memory_mb r, cand_instance_count = gr_instance_count r,
      cand_fabric_ipv6 = fabric_ipv6\<rparr>"

definition cand_available_vcpus :: "hypervisor_candidate \<Rightarrow> u32" where
  "cand_available_vcpus c = saturating_sub (cand_allocatable_vcpus c) (cand_used_vcpus c)"

definition cand_available_memory_mb :: "hypervisor_candidate \<Rightarrow> u64" where
  "cand_available_memory_mb c = saturating_sub (cand_allocatable_memory_mb c) (cand_used_memory_mb c)"

definition cpu_utilization :: "hypervisor_candidate \<Rightarrow> rat" where
  "cpu_utilization c =
     (if cand_allocatable_vcpus c = 0 then 1
      else f64_div (rat_of_int (uint (cand_used_vcpus c))) (rat_of_int (uint (cand_allocatable_vcpus c))))"

definition memory_utilization :: "hypervisor_candidate \<Rightarrow> rat" where
  "memory_utilization c =
     (if cand_allocatable_memory_mb c = 0 then 1
      else f64_div (round_f64 (rat_of_int (uint (cand_used_memory_mb c))))
                   (round_f64 (rat_of_int (uint (cand_allocatable_memory_mb c)))))"

section \<open>Filter and score\<close>

record scheduler =
  sch_local_node :: string
  sch_local_addr :: string

definition capacity_unknown :: "hypervisor_candidate \<Rightarrow> bool" where
  "capacity_unknown c \<longleftrightarrow> cand_allocatable_vcpus c = 0 \<and> cand_allocatable_memory_mb c = 0"

definition eligible :: "u32 \<Rightarrow> u64 \<Rightarrow> placement_constraints \<Rightarrow> string list \<Rightarrow> hypervisor_candidate \<Rightarrow> bool" where
  "eligible vcpus memory_mb cs excluded c \<longleftrightarrow>
     (if cand_state c \<noteq> ''Available'' then False
      else if cand_name c \<in> set excluded then False
      else if (case pc_zone cs of Some z \<Rightarrow> cand_zone c \<noteq> z | None \<Rightarrow> False) then False
      else if \<not> list_all (\<lambda>(k, v). hget (cand_labels c) k = Some v) (pc_node_selector cs) then False
      else if list_ex (\<lambda>t. contains_str t ''NoSchedule'' \<and> t \<notin> set (pc_tolerations cs)) (cand_taints c) then False
      else if \<not> capacity_unknown c then
        (if cand_available_vcpus c < vcpus then False
         else if cand_available_memory_mb c < memory_mb then False
         else True)
      else True)"

definition filter_candidates ::
    "hypervisor_candidate list \<Rightarrow> u32 \<Rightarrow> u64 \<Rightarrow> placement_constraints \<Rightarrow> string list \<Rightarrow>
     hypervisor_candidate list" where
  "filter_candidates cands vcpus memory_mb cs excluded = filter (eligible vcpus memory_mb cs excluded) cands"

definition score ::
    "scheduler \<Rightarrow> placement_constraints \<Rightarrow> (string, u32) hmap \<Rightarrow> hypervisor_candidate \<Rightarrow> rat" where
  "score s cs existing c =
     (let s0 = (if capacity_unknown c then f64_sub 0 200 else 0);
          avg_util = f64_div (f64_add (cpu_utilization c) (memory_utilization c)) 2;
          s1 = f64_add s0 (f64_mul (f64_sub 1 avg_util) 100);
          s2 = (if cand_name c = sch_local_node s then f64_sub s1 5 else s1);
          s3 = (if pc_spread_topology cs \<noteq> None \<or> pc_anti_affinity_group cs \<noteq> None
                then let count = (case hget existing (cand_name c) of Some n \<Rightarrow> n | None \<Rightarrow> 0)
                     in f64_sub s2 (f64_mul (rat_of_int (uint count)) 20)
                else s2)
      in f64_sub s3 (f64_mul (rat_of_int (uint (cand_instance_count c))) 2))"

text \<open>The stable sort by score, descending, then name; the first is the winner.\<close>

definition precedes :: "hypervisor_candidate \<times> rat \<Rightarrow> hypervisor_candidate \<times> rat \<Rightarrow> bool" where
  "precedes a b \<longleftrightarrow> snd a > snd b \<or> snd a = snd b \<and> cand_name (fst a) \<le> cand_name (fst b)"

fun insert_scored ::
    "hypervisor_candidate \<times> rat \<Rightarrow> (hypervisor_candidate \<times> rat) list \<Rightarrow> (hypervisor_candidate \<times> rat) list" where
  "insert_scored x [] = [x]"
| "insert_scored x (y # ys) = (if precedes x y then x # y # ys else y # insert_scored x ys)"

definition sort_scored :: "(hypervisor_candidate \<times> rat) list \<Rightarrow> (hypervisor_candidate \<times> rat) list" where
  "sort_scored xs = foldr insert_scored xs []"

definition local_fallback :: "scheduler \<Rightarrow> placement_decision" where
  "local_fallback s =
     \<lparr>pd_hypervisor_id = sch_local_node s, pd_hypervisor_addr = sch_local_addr s, pd_score = 0,
      pd_is_local_fallback = True\<rparr>"

definition pick ::
    "scheduler \<Rightarrow> placement_constraints \<Rightarrow> (string, u32) hmap \<Rightarrow> hypervisor_candidate list \<Rightarrow> placement_decision" where
  "pick s cs existing cands =
     (let (winner, sc) = hd (sort_scored (map (\<lambda>c. (c, score s cs existing c)) cands))
      in \<lparr>pd_hypervisor_id = cand_name winner, pd_hypervisor_addr = cand_fabric_ipv6 winner,
          pd_score = sc, pd_is_local_fallback = False\<rparr>)"

section \<open>Scheduling\<close>

text \<open>The texts of the source contain an em dash, three bytes in UTF-8.\<close>

definition em_dash :: string where
  "em_dash = [CHR 0xE2, CHR 0x80, CHR 0x94]"

definition configure_hint :: "string \<Rightarrow> string" where
  "configure_hint zone =
     CHR 0x0A # ''Run: syfrah storage configure --zone '' @ zone @
     '' --s3-endpoint <url> --s3-bucket <bucket> --s3-access-key <key> --s3-secret-key <secret>''"

definition no_match :: "string \<Rightarrow> scheduler_error" where
  "no_match text = \<lparr>se_message = ''no hypervisor matches constraints: '' @ text, se_constraints_summary = text\<rparr>"

definition storage_preflight ::
    "placement_constraints \<Rightarrow> string list option \<Rightarrow> hypervisor_candidate list \<Rightarrow>
     scheduler_error + hypervisor_candidate list" where
  "storage_preflight cs zones cands =
     (case zones of
        None \<Rightarrow> Inr cands
      | Some zs \<Rightarrow>
          (case pc_zone cs of
             Some z \<Rightarrow>
               if z \<notin> set zs
               then Inl \<lparr>se_message = ''cannot create VM in zone '' @ z @ '' '' @ em_dash @
                           '' storage is not configured for this zone.'' @ configure_hint z,
                         se_constraints_summary = ''zone='' @ z @ '', storage=unconfigured''\<rparr>
               else Inr cands
           | None \<Rightarrow>
               let kept = filter (\<lambda>c. cand_zone c \<in> set zs) cands
               in if kept = []
                  then Inl \<lparr>se_message = ''cannot create VM '' @ em_dash @ '' no zone has storage configured.'' @
                              configure_hint ''<zone>'',
                            se_constraints_summary = ''storage=unconfigured''\<rparr>
                  else Inr kept))"

definition schedule_from_store_with_storage ::
    "scheduler \<Rightarrow> u32 \<Rightarrow> u64 \<Rightarrow> placement_constraints \<Rightarrow> hypervisor_store \<Rightarrow> string list \<Rightarrow>
     (string, u32) hmap \<Rightarrow> string list option \<Rightarrow> scheduler_error + placement_decision" where
  "schedule_from_store_with_storage s vcpus memory_mb cs store excluded existing zones =
     (let hypervisors = hypervisor_list store
      in if hypervisors = [] then Inr (local_fallback s)
         else let filtered = filter_candidates (map from_hypervisor hypervisors) vcpus memory_mb cs excluded
         in if filtered = [] then Inl (no_match (summary cs))
            else (case storage_preflight cs zones filtered of
                    Inl e \<Rightarrow> Inl e
                  | Inr cands \<Rightarrow> Inr (pick s cs existing cands)))"

definition schedule_from_store ::
    "scheduler \<Rightarrow> u32 \<Rightarrow> u64 \<Rightarrow> placement_constraints \<Rightarrow> hypervisor_store \<Rightarrow> string list \<Rightarrow>
     (string, u32) hmap \<Rightarrow> scheduler_error + placement_decision" where
  "schedule_from_store s vcpus memory_mb cs store excluded existing =
     schedule_from_store_with_storage s vcpus memory_mb cs store excluded existing None"

definition schedule ::
    "scheduler \<Rightarrow> u32 \<Rightarrow> u64 \<Rightarrow> placement_constraints \<Rightarrow> gossip_cluster \<Rightarrow> string list \<Rightarrow>
     (string, u32) hmap \<Rightarrow> scheduler_error + placement_decision" where
  "schedule s vcpus memory_mb cs cluster excluded existing =
     (let reports = all_reports cluster
      in if reports = [] then Inr (local_fallback s)
         else let filtered = filter_candidates (map (\<lambda>r. from_gossip_report r (gr_hypervisor_id r)) reports)
                               vcpus memory_mb cs excluded
         in if filtered = []
            then let parts = (case pc_zone cs of Some z \<Rightarrow> [''zone='' @ z] | None \<Rightarrow> []) @
                             map (\<lambda>(k, v). ''selector='' @ k @ ''='' @ v) (pc_node_selector cs)
                 in Inl (no_match (if parts = [] then ''no constraints'' else join_strs '', '' parts))
            else Inr (pick s cs existing filtered))"

text \<open>
  \<^verbatim>\<open>schedule_with_retry\<close>; the admission check may have state, so it is a function of the attempt
  and the decision.  \<open>n\<close> attempts remain.
\<close>

fun retry_loop ::
    "scheduler \<Rightarrow> u32 \<Rightarrow> u64 \<Rightarrow> placement_constraints \<Rightarrow> gossip_cluster \<Rightarrow> (string, u32) hmap \<Rightarrow>
     (nat \<Rightarrow> placement_decision \<Rightarrow> string option) \<Rightarrow> nat \<Rightarrow> nat \<Rightarrow> string list \<Rightarrow>
     scheduler_error + placement_decision + string list" where
  "retry_loop s vcpus memory_mb cs cluster existing admission attempt 0 excluded = Inr (Inr excluded)"
| "retry_loop s vcpus memory_mb cs cluster existing admission attempt (Suc n) excluded =
     (case schedule s vcpus memory_mb cs cluster excluded existing of
        Inl e \<Rightarrow> Inl e
      | Inr d \<Rightarrow>
          if pd_is_local_fallback d then Inr (Inl d)
          else (case admission attempt d of
                  None \<Rightarrow> Inr (Inl d)
                | Some _ \<Rightarrow> retry_loop s vcpus memory_mb cs cluster existing admission (Suc attempt) n
                              (excluded @ [pd_hypervisor_id d])))"

definition schedule_with_retry ::
    "scheduler \<Rightarrow> u32 \<Rightarrow> u64 \<Rightarrow> placement_constraints \<Rightarrow> gossip_cluster \<Rightarrow> (string, u32) hmap \<Rightarrow> nat \<Rightarrow>
     (nat \<Rightarrow> placement_decision \<Rightarrow> string option) \<Rightarrow> scheduler_error + placement_decision" where
  "schedule_with_retry s vcpus memory_mb cs cluster existing max_retries admission =
     (case retry_loop s vcpus memory_mb cs cluster existing admission 0 (Suc max_retries) [] of
        Inl e \<Rightarrow> Inl e
      | Inr (Inl d) \<Rightarrow> Inr d
      | Inr (Inr excluded) \<Rightarrow>
          Inl \<lparr>se_message = ''all '' @ show_nat (length excluded) @ '' hypervisors rejected admission after '' @
                 show_nat (max_retries + 1) @ '' retries'',
               se_constraints_summary = summary cs\<rparr>)"

section \<open>Rescheduling\<close>

record vm_placement_info =
  vi_vm_id :: string
  vi_hypervisor_id :: string
  vi_subnet_id :: string
  vi_ip :: string
  vi_mac :: string
  vi_generation :: u64
  vi_restart_on_failure :: bool
  vi_has_local_storage :: bool
  vi_has_gpu :: bool

datatype reschedule_outcome =
    Rescheduled string string string u64
  | MarkedFailed string string
  | Skipped string string

record reschedule_summary =
  rsum_hypervisor_id :: string
  rsum_rescheduled :: "reschedule_outcome list"
  rsum_failed :: "reschedule_outcome list"
  rsum_skipped :: "reschedule_outcome list"

definition evaluate_vm :: "scheduler \<Rightarrow> gossip_cluster \<Rightarrow> vm_placement_info \<Rightarrow> string \<Rightarrow> reschedule_outcome" where
  "evaluate_vm s cluster vm failed_hypervisor =
     (if \<not> vi_restart_on_failure vm then Skipped (vi_vm_id vm) ''restart_on_failure is false''
      else if vi_has_local_storage vm
      then MarkedFailed (vi_vm_id vm) (''has local persistent storage '' @ em_dash @ '' cannot auto-reschedule'')
      else if vi_has_gpu vm
      then MarkedFailed (vi_vm_id vm) (''has GPU passthrough '' @ em_dash @ '' cannot auto-reschedule'')
      else case schedule s 1 512 default_constraints cluster [failed_hypervisor] [] of
             Inr d \<Rightarrow> Rescheduled (vi_vm_id vm) failed_hypervisor (pd_hypervisor_id d) (vi_generation vm + 1)
           | Inl e \<Rightarrow> MarkedFailed (vi_vm_id vm) (''no available hypervisor: '' @ se_message e))"

definition reschedule_step ::
    "scheduler \<Rightarrow> gossip_cluster \<Rightarrow> string \<Rightarrow> vm_placement_info \<Rightarrow> reschedule_summary \<Rightarrow> reschedule_summary" where
  "reschedule_step s cluster failed_hypervisor vm r =
     (if vi_hypervisor_id vm \<noteq> failed_hypervisor then r
      else let outcome = evaluate_vm s cluster vm failed_hypervisor
      in case outcome of
           Rescheduled _ _ _ _ \<Rightarrow> r\<lparr>rsum_rescheduled := rsum_rescheduled r @ [outcome]\<rparr>
         | MarkedFailed _ _ \<Rightarrow> r\<lparr>rsum_failed := rsum_failed r @ [outcome]\<rparr>
         | Skipped _ _ \<Rightarrow> r\<lparr>rsum_skipped := rsum_skipped r @ [outcome]\<rparr>)"

definition reschedule_from_failed ::
    "scheduler \<Rightarrow> gossip_cluster \<Rightarrow> string \<Rightarrow> vm_placement_info list \<Rightarrow> reschedule_summary" where
  "reschedule_from_failed s cluster failed_hypervisor vms =
     fold (reschedule_step s cluster failed_hypervisor) vms
       \<lparr>rsum_hypervisor_id = failed_hypervisor, rsum_rescheduled = [], rsum_failed = [], rsum_skipped = []\<rparr>"

section \<open>The winner is a best candidate\<close>

lemma precedes_total: "precedes a b \<or> precedes b a"
  by (auto simp: precedes_def)

lemma precedes_refl [simp]: "precedes a a"
  by (simp add: precedes_def)

lemma precedes_trans: "\<lbrakk>precedes a b; precedes b c\<rbrakk> \<Longrightarrow> precedes a c"
  by (auto simp: precedes_def)

lemma set_insert_scored [simp]: "set (insert_scored x xs) = insert x (set xs)"
  by (induction xs) auto

lemma set_sort_scored [simp]: "set (sort_scored xs) = set xs"
  by (induction xs) (simp_all add: sort_scored_def)

lemma sorted_insert_scored: "sorted_wrt precedes xs \<Longrightarrow> sorted_wrt precedes (insert_scored x xs)"
proof (induction xs)
  case (Cons y ys)
  show ?case
  proof (cases "precedes x y")
    case True
    with Cons.prems show ?thesis by (auto intro: precedes_trans)
  next
    case False
    with precedes_total [of x y] Cons show ?thesis by simp
  qed
qed simp

lemma sorted_sort_scored: "sorted_wrt precedes (sort_scored xs)"
  by (induction xs) (simp_all add: sort_scored_def sorted_insert_scored)

lemma hd_sort_scored:
  assumes "xs \<noteq> []"
  shows "hd (sort_scored xs) \<in> set xs" "y \<in> set xs \<Longrightarrow> precedes (hd (sort_scored xs)) y"
proof -
  from assms have ne: "sort_scored xs \<noteq> []" by (metis set_sort_scored set_empty)
  then show "hd (sort_scored xs) \<in> set xs" by (metis hd_in_set set_sort_scored)
  obtain a l where al: "sort_scored xs = a # l" using ne by (cases "sort_scored xs") auto
  show "precedes (hd (sort_scored xs)) y" if "y \<in> set xs"
  proof -
    from that have "y \<in> set (a # l)" by (simp only: al [symmetric] set_sort_scored)
    with sorted_sort_scored [of xs] show ?thesis by (auto simp: al)
  qed
qed

abbreviation scored :: "scheduler \<Rightarrow> placement_constraints \<Rightarrow> (string, u32) hmap \<Rightarrow> hypervisor_candidate \<Rightarrow> hypervisor_candidate \<times> rat" where
  "scored s cs existing c \<equiv> (c, score s cs existing c)"

definition decision_for ::
    "scheduler \<Rightarrow> placement_constraints \<Rightarrow> (string, u32) hmap \<Rightarrow> hypervisor_candidate \<Rightarrow> placement_decision" where
  "decision_for s cs existing c =
     \<lparr>pd_hypervisor_id = cand_name c, pd_hypervisor_addr = cand_fabric_ipv6 c,
      pd_score = score s cs existing c, pd_is_local_fallback = False\<rparr>"

lemma pick_best:
  assumes "cands \<noteq> []"
  shows "\<exists>c \<in> set cands. pick s cs existing cands = decision_for s cs existing c \<and>
    (\<forall>c' \<in> set cands. precedes (scored s cs existing c) (scored s cs existing c'))"
proof -
  let ?xs = "map (scored s cs existing) cands"
  have ne: "?xs \<noteq> []" using assms by simp
  from hd_sort_scored(1) [OF ne] obtain c where c: "c \<in> set cands" "hd (sort_scored ?xs) = scored s cs existing c"
    by auto
  from hd_sort_scored(2) [OF ne] c(2)
  have "\<forall>c' \<in> set cands. precedes (scored s cs existing c) (scored s cs existing c')" by auto
  with c show ?thesis by (auto simp: pick_def decision_for_def)
qed

section \<open>Soundness and completeness\<close>

definition has_room :: "u32 \<Rightarrow> u64 \<Rightarrow> allocatable_capacity \<Rightarrow> bool" where
  "has_room vcpus memory_mb cap \<longleftrightarrow>
     cap_allocatable_vcpus cap = 0 \<and> cap_allocatable_memory_mb cap = 0 \<or>
     unat vcpus \<le> unat (cap_allocatable_vcpus cap) - unat (cap_used_vcpus cap) \<and>
     unat memory_mb \<le> unat (cap_allocatable_memory_mb cap) - unat (cap_used_memory_mb cap)"

definition suitable ::
    "u32 \<Rightarrow> u64 \<Rightarrow> placement_constraints \<Rightarrow> string list \<Rightarrow> string list option \<Rightarrow> hypervisor \<Rightarrow> bool" where
  "suitable vcpus memory_mb cs excluded zones hv \<longleftrightarrow>
     hv_state hv = HvAvailable \<and> hv_name hv \<notin> set excluded \<and>
     (\<forall>z. pc_zone cs = Some z \<longrightarrow> hv_zone hv = z) \<and>
     (\<forall>(k, v) \<in> set (pc_node_selector cs). hget (hv_labels hv) k = Some v) \<and>
     (\<forall>t \<in> set (hv_taints hv). contains_str (taint_text t) ''NoSchedule'' \<longrightarrow> taint_text t \<in> set (pc_tolerations cs)) \<and>
     has_room vcpus memory_mb (hv_capacity hv) \<and>
     (\<forall>zs. zones = Some zs \<longrightarrow> hv_zone hv \<in> set zs)"

lemma available_text: "hypervisor_state_to_string st = ''Available'' \<longleftrightarrow> st = HvAvailable"
  by (cases st) simp_all

lemma from_hypervisor_sel [simp]:
  "cand_state (from_hypervisor hv) = hypervisor_state_to_string (hv_state hv)"
  "cand_name (from_hypervisor hv) = hv_name hv" "cand_zone (from_hypervisor hv) = hv_zone hv"
  "cand_labels (from_hypervisor hv) = hv_labels hv"
  "cand_taints (from_hypervisor hv) = map taint_text (hv_taints hv)"
  by (simp_all add: from_hypervisor_def)

lemma has_room_from:
  "has_room vcpus memory_mb (hv_capacity hv) \<longleftrightarrow>
     capacity_unknown (from_hypervisor hv) \<or>
     \<not> cand_available_vcpus (from_hypervisor hv) < vcpus \<and> \<not> cand_available_memory_mb (from_hypervisor hv) < memory_mb"
  by (simp add: has_room_def capacity_unknown_def from_hypervisor_def cand_available_vcpus_def
      cand_available_memory_mb_def not_less word_le_nat_alt unat_saturating_sub)

lemma eligible_suitable:
  "eligible vcpus memory_mb cs excluded (from_hypervisor hv) \<longleftrightarrow>
     suitable vcpus memory_mb cs excluded None hv"
proof -
  have zone: "(case pc_zone cs of Some z \<Rightarrow> hv_zone hv \<noteq> z | None \<Rightarrow> False) \<longleftrightarrow>
      \<not> (\<forall>z. pc_zone cs = Some z \<longrightarrow> hv_zone hv = z)"
    by (auto split: option.split)
  have taints: "list_ex (\<lambda>t. contains_str t ''NoSchedule'' \<and> t \<notin> set (pc_tolerations cs)) (map taint_text (hv_taints hv)) \<longleftrightarrow>
      \<not> (\<forall>t \<in> set (hv_taints hv). contains_str (taint_text t) ''NoSchedule'' \<longrightarrow> taint_text t \<in> set (pc_tolerations cs))"
    by (auto simp: list_ex_iff)
  show ?thesis
    unfolding eligible_def suitable_def has_room_from from_hypervisor_sel available_text zone taints list_all_iff
    by (simp only: if_bool_eq_disj simp_thms option.distinct) blast
qed

lemma suitable_zones:
  "suitable vcpus memory_mb cs excluded zones hv \<longleftrightarrow>
     suitable vcpus memory_mb cs excluded None hv \<and> (\<forall>zs. zones = Some zs \<longrightarrow> hv_zone hv \<in> set zs)"
  by (auto simp: suitable_def)

text \<open>The preflight keeps exactly the candidates in zones with storage.\<close>

lemma preflight_suitable:
  assumes "cands = map from_hypervisor (filter (suitable vcpus memory_mb cs excluded None) hvs)" "cands \<noteq> []"
  shows "storage_preflight cs zones cands =
      Inr (map from_hypervisor (filter (suitable vcpus memory_mb cs excluded zones) hvs)) \<and>
      filter (suitable vcpus memory_mb cs excluded zones) hvs \<noteq> [] \<or>
    (\<exists>e. storage_preflight cs zones cands = Inl e) \<and>
      filter (suitable vcpus memory_mb cs excluded zones) hvs = []"
proof (cases zones)
  case None
  with assms show ?thesis by (simp add: storage_preflight_def)
next
  case (Some zs)
  let ?S = "suitable vcpus memory_mb cs excluded"
  have f: "filter (?S (Some zs)) hvs = filter (\<lambda>hv. hv_zone hv \<in> set zs) (filter (?S None) hvs)"
    by (auto simp: suitable_zones [of _ _ _ _ "Some zs"] intro: filter_cong)
  show ?thesis
  proof (cases "pc_zone cs")
    case (Some z)
    then have "hv_zone hv = z" if "?S None hv" for hv using that by (simp add: suitable_def)
    then have "filter (?S (Some zs)) hvs = (if z \<in> set zs then filter (?S None) hvs else [])"
      by (auto simp: f filter_filter filter_empty_conv intro: filter_cong)
    with Some \<open>zones = Some zs\<close> assms show ?thesis by (auto simp: storage_preflight_def)
  next
    case None
    have "filter (\<lambda>c. cand_zone c \<in> set zs) cands = map from_hypervisor (filter (?S (Some zs)) hvs)"
      by (simp add: assms(1) f filter_map comp_def)
    with None Some show ?thesis by (auto simp: storage_preflight_def Let_def)
  qed
qed

lemma schedule_cases:
  assumes "hypervisor_list store \<noteq> []"
    and ok_def: "ok = filter (suitable vcpus memory_mb cs excluded zones) (hypervisor_list store)"
    and r_def: "r = schedule_from_store_with_storage s vcpus memory_mb cs store excluded existing zones"
  shows "ok \<noteq> [] \<and> r = Inr (pick s cs existing (map from_hypervisor ok)) \<or> ok = [] \<and> (\<exists>e. r = Inl e)"
proof -
  let ?S = "suitable vcpus memory_mb cs excluded"
  let ?f = "filter_candidates (map from_hypervisor (hypervisor_list store)) vcpus memory_mb cs excluded"
  have f: "?f = map from_hypervisor (filter (?S None) (hypervisor_list store))"
    by (simp add: filter_candidates_def filter_map comp_def eligible_suitable)
  show ?thesis
  proof (cases "?f = []")
    case True
    then have "ok = []" unfolding ok_def f by (auto simp: filter_empty_conv suitable_zones [of _ _ _ _ zones])
    with True assms(1) show ?thesis by (simp add: r_def schedule_from_store_with_storage_def Let_def)
  next
    case False
    from preflight_suitable [OF f False, of zones] False assms(1) show ?thesis
      unfolding r_def ok_def by (auto simp: schedule_from_store_with_storage_def Let_def)
  qed
qed

end
