(* ===== verification/Scheduler_Properties.thy ===== *)
theory Scheduler_Properties
  imports Scheduler
begin

text \<open>What the scheduler promises of its decisions, and where it does not keep what its comments say.\<close>

section \<open>The best suitable hypervisor\<close>


definition sample_node :: "string \<Rightarrow> string \<Rightarrow> hypervisor_state \<Rightarrow> u32 \<Rightarrow> hypervisor" where
  "sample_node i n st used =
    \<lparr>hv_id = i, hv_name = n, hv_region = ''eu'', hv_zone = ''az-1'', hv_state = st,
     hv_fabric_node_id = n, hv_public_ip = [], hv_fabric_ipv6 = ''fd00::'' @ i,
     hv_hardware = \<lparr>hw_cpu_model = [], hw_cpu_cores_physical = 4, hw_cpu_threads_logical = 8,
       hw_memory_gb = 16, hw_local_disk_type = NVMe, hw_local_disk_gb = 100, hw_gpu = None,
       hw_network_bandwidth_gbps = 10, hw_architecture = X86_64\<rparr>,
     hv_capacity = default_capacity\<lparr>cap_allocatable_vcpus := 8, cap_allocatable_memory_mb := 16384,
       cap_used_vcpus := used, cap_used_memory_mb := 4096\<rparr>,
     hv_labels = [(''disk'', ''nvme'')], hv_taints = [], hv_created_at = 0\<rparr>"

definition sample_fleet :: hypervisor_store where
  "sample_fleet =
    \<lparr>tbl_hypervisors =
       [(''h1'', sample_node ''h1'' ''a'' HvAvailable 7), (''h2'', sample_node ''h2'' ''b'' HvAvailable 2),
        (''h3'', sample_node ''h3'' ''c'' HvDraining 0)],
     tbl_hypervisor_names = [(''a'', ''h1''), (''b'', ''h2''), (''c'', ''h3'')]\<rparr>"

definition sample_scheduler :: scheduler where
  "sample_scheduler = \<lparr>sch_local_node = ''a'', sch_local_addr = ''fd00::h1''\<rparr>"

lemma sample_fleet_list:
  "hypervisor_list sample_fleet =
    [sample_node ''h1'' ''a'' HvAvailable 7, sample_node ''h2'' ''b'' HvAvailable 2,
     sample_node ''h3'' ''c'' HvDraining 0]"
  by (simp add: hypervisor_list_def sample_fleet_def db_list_def)

lemma sample_suitable:
  "suitable 4 4096 default_constraints [] (Some [''az-1'']) (sample_node i n st used) \<longleftrightarrow>
    st = HvAvailable \<and> 4 \<le> 8 - unat used"
  by (simp add: suitable_def sample_node_def default_constraints_def has_room_def)


section \<open>Retries\<close>

text \<open>A decision after retries was admitted, or is the local fallback.\<close>

lemma retry_admitted:
  "retry_loop s vcpus memory_mb cs cluster existing admission attempt n excluded = Inr (Inl d) \<Longrightarrow>
   pd_is_local_fallback d \<or> (\<exists>k < n. admission (attempt + k) d = None)"
proof (induction n arbitrary: attempt excluded)
  case (Suc n)
  show ?case
  proof (cases "schedule s vcpus memory_mb cs cluster excluded existing")
    case (Inr d')
    with Suc.prems Suc.IH [of "Suc attempt" "excluded @ [pd_hypervisor_id d']"] show ?thesis
      by (auto split: if_splits option.splits)
  qed (use Suc.prems in simp)
qed simp

section \<open>Where the comments and the code part\<close>

text \<open>
  The scheduler that works on gossip data does not look at the states of the members: a node
  that was declared down is scheduled on like before.
\<close>

theorem down_member_still_scheduled:
  "schedule s vcpus memory_mb cs (mark_down n cluster) excluded existing =
   schedule s vcpus memory_mb cs cluster excluded existing"
  by (simp add: schedule_def all_reports_def mark_down_def Let_def split: option.split)

text \<open>
  Without gossip data the fallback ignores the exclusion: the VMs of a failed node are
  rescheduled to that node when it is the local one.
\<close>

theorem failed_node_rescheduled_to:
  assumes "vi_restart_on_failure vm" "\<not> vi_has_local_storage vm" "\<not> vi_has_gpu vm"
  shows "evaluate_vm s new_cluster vm (sch_local_node s) =
    Rescheduled (vi_vm_id vm) (sch_local_node s) (sch_local_node s) (vi_generation vm + 1)"
  using assms by (simp add: evaluate_vm_def schedule_def all_reports_def new_cluster_def local_fallback_def)

text \<open>
  A node that has not reported its capacity is preferred to one with known capacity that
  runs many instances, although the comment on the penalty says that known capacity is always preferred.
\<close>

theorem unknown_capacity_preferred:
  "let known = from_gossip_report (local_report ''fd00::1'' ''a'' ''eu'' ''az-1'' (8, 16384, 0, 0, 200) None None 0) ''fd00::1'';
       unknown = from_gossip_report (local_report ''fd00::2'' ''b'' ''eu'' ''az-1'' (0, 0, 0, 0, 0) None None 0) ''fd00::2'';
       s = \<lparr>sch_local_node = ''c'', sch_local_addr = []\<rparr>
   in eligible 4 4096 default_constraints [] known \<and> eligible 4 4096 default_constraints [] unknown \<and>
      score s default_constraints [] known = - 300 \<and> score s default_constraints [] unknown = - 200"
  by (simp add: from_gossip_report_def local_report_def eligible_def default_constraints_def capacity_unknown_def
      cand_available_vcpus_def cand_available_memory_mb_def saturating_sub_def score_def cpu_utilization_def
      memory_utilization_def f64_add_def f64_sub_def f64_mul_def f64_div_def)

end
