(* ===== verification/Forge_Records.thy ===== *)
theory Forge_Records
  imports Layer_Db Node_Prelude
begin

text \<open>
  Bookkeeping of the node agent: generations of resources (\<^verbatim>\<open>layers/forge/src/generation.rs\<close>),
  fencing of VMs (\<^verbatim>\<open>fencing.rs\<close>) and the registry of kernel resources (\<^verbatim>\<open>ownership.rs\<close>).  Operations
  that read the wall clock, in seconds, take the reading as an argument.
\<close>

section \<open>Generations\<close>

record resource_generation =
  rg_resource_id :: string
  rg_spec_generation :: u64
  rg_reconcile_generation :: u64
  rg_last_observed_at :: u64

definition new_generation :: "u64 \<Rightarrow> string \<Rightarrow> resource_generation" where
  "new_generation now i =
     \<lparr>rg_resource_id = i, rg_spec_generation = 1, rg_reconcile_generation = 0, rg_last_observed_at = now\<rparr>"

definition has_drift :: "resource_generation \<Rightarrow> bool" where
  "has_drift g \<longleftrightarrow> rg_spec_generation g \<noteq> rg_reconcile_generation g"

definition is_stale :: "u64 \<Rightarrow> u64 \<Rightarrow> resource_generation \<Rightarrow> bool" where
  "is_stale now threshold g \<longleftrightarrow> saturating_sub now (rg_last_observed_at g) > threshold"

definition bump_generation :: "u64 \<Rightarrow> resource_generation \<Rightarrow> resource_generation" where
  "bump_generation now g = g\<lparr>rg_spec_generation := rg_spec_generation g + 1, rg_last_observed_at := now\<rparr>"

definition reconcile_generation :: "u64 \<Rightarrow> resource_generation \<Rightarrow> resource_generation" where
  "reconcile_generation now g = g\<lparr>rg_reconcile_generation := rg_spec_generation g, rg_last_observed_at := now\<rparr>"

definition touch_generation :: "u64 \<Rightarrow> resource_generation \<Rightarrow> resource_generation" where
  "touch_generation now g = g\<lparr>rg_last_observed_at := now\<rparr>"

record generation_tracker =
  gt_generations :: "(string, resource_generation) hmap"
  gt_threshold :: u64

definition new_generation_tracker :: generation_tracker where
  "new_generation_tracker = \<lparr>gt_generations = [], gt_threshold = 300\<rparr>"

definition register_generation :: "u64 \<Rightarrow> string \<Rightarrow> generation_tracker \<Rightarrow> generation_tracker \<times> resource_generation" where
  "register_generation now i t =
     (let g = new_generation now i in (t\<lparr>gt_generations := hinsert i g (gt_generations t)\<rparr>, g))"

text \<open>The three updates of a tracked resource share their shape.\<close>

definition update_generation ::
    "(resource_generation \<Rightarrow> resource_generation) \<Rightarrow> string \<Rightarrow> generation_tracker \<Rightarrow>
     generation_tracker \<times> resource_generation option" where
  "update_generation f i t =
     (case hget (gt_generations t) i of
        None \<Rightarrow> (t, None)
      | Some g \<Rightarrow> (t\<lparr>gt_generations := hinsert i (f g) (gt_generations t)\<rparr>, Some (f g)))"

definition bump_spec :: "u64 \<Rightarrow> string \<Rightarrow> generation_tracker \<Rightarrow> generation_tracker \<times> resource_generation option" where
  "bump_spec now = update_generation (bump_generation now)"

definition mark_reconciled :: "u64 \<Rightarrow> string \<Rightarrow> generation_tracker \<Rightarrow> generation_tracker \<times> resource_generation option" where
  "mark_reconciled now = update_generation (reconcile_generation now)"

definition touch :: "u64 \<Rightarrow> string \<Rightarrow> generation_tracker \<Rightarrow> generation_tracker \<times> resource_generation option" where
  "touch now = update_generation (touch_generation now)"

definition remove_generation :: "string \<Rightarrow> generation_tracker \<Rightarrow> generation_tracker \<times> resource_generation option" where
  "remove_generation i t =
     (t\<lparr>gt_generations := hremove i (gt_generations t)\<rparr>, hget (gt_generations t) i)"

definition drifted :: "generation_tracker \<Rightarrow> resource_generation list" where
  "drifted t = filter has_drift (hvalues (gt_generations t))"

definition stale_generations :: "u64 \<Rightarrow> generation_tracker \<Rightarrow> resource_generation list" where
  "stale_generations now t = filter (is_stale now (gt_threshold t)) (hvalues (gt_generations t))"

section \<open>Fencing of VMs\<close>

record fencing_tracker =
  ft_local_generations :: "(string, u64) hmap"
  ft_node_id :: string

datatype fencing_verdict = FenceOk | Fenced string string

definition new_fencing_tracker :: "string \<Rightarrow> fencing_tracker" where
  "new_fencing_tracker n = \<lparr>ft_local_generations = [], ft_node_id = n\<rparr>"

definition record_placement :: "string \<Rightarrow> u64 \<Rightarrow> fencing_tracker \<Rightarrow> fencing_tracker" where
  "record_placement vm g t = t\<lparr>ft_local_generations := hinsert vm g (ft_local_generations t)\<rparr>"

definition remove_local_placement :: "string \<Rightarrow> fencing_tracker \<Rightarrow> fencing_tracker" where
  "remove_local_placement vm t = t\<lparr>ft_local_generations := hremove vm (ft_local_generations t)\<rparr>"

definition fencing_check :: "fencing_tracker \<Rightarrow> string \<Rightarrow> u64 \<Rightarrow> string \<Rightarrow> fencing_verdict" where
  "fencing_check t vm raft_gen raft_hv =
     (case hget (ft_local_generations t) vm of
        None \<Rightarrow> FenceOk
      | Some local_gen \<Rightarrow>
          if local_gen < raft_gen \<and> raft_hv \<noteq> ft_node_id t
          then Fenced vm (''rescheduled: local gen '' @ show_nat (unat local_gen) @ '' < raft gen '' @
                 show_nat (unat raft_gen) @ '', now on '' @ raft_hv)
          else if local_gen = raft_gen \<and> raft_hv \<noteq> ft_node_id t
          then Fenced vm (''wrong node: placed on '' @ raft_hv @ '', not '' @ ft_node_id t)
          else FenceOk)"

definition check_all_step ::
    "fencing_tracker \<Rightarrow> string \<times> u64 \<times> string \<Rightarrow> fencing_verdict list \<Rightarrow> fencing_verdict list" where
  "check_all_step t p fenced =
     (let (vm, raft_gen, raft_hv) = p
      in if \<not> hcontains (ft_local_generations t) vm then fenced
         else let local_gen = (case hget (ft_local_generations t) vm of Some g \<Rightarrow> g | None \<Rightarrow> 0)
         in if local_gen < raft_gen \<and> raft_hv \<noteq> ft_node_id t
            then fenced @ [Fenced vm (''rescheduled: local gen '' @ show_nat (unat local_gen) @ '' < raft gen '' @
                   show_nat (unat raft_gen))]
            else if local_gen = raft_gen \<and> raft_hv \<noteq> ft_node_id t
            then fenced @ [Fenced vm (''wrong node: placed on '' @ raft_hv)]
            else fenced)"

definition check_all :: "fencing_tracker \<Rightarrow> (string \<times> u64 \<times> string) list \<Rightarrow> fencing_verdict list" where
  "check_all t ps = fold (check_all_step t) ps []"

fun fenced_vm :: "fencing_verdict \<Rightarrow> string option" where
  "fenced_vm FenceOk = None"
| "fenced_vm (Fenced vm _) = Some vm"

text \<open>
  A tracked VM is fenced exactly when its placement names another node with a generation
  that is not older than the local one.
\<close>

lemma fencing_check_iff:
  "fencing_check t vm raft_gen raft_hv = FenceOk \<longleftrightarrow>
     (case hget (ft_local_generations t) vm of
        None \<Rightarrow> True | Some g \<Rightarrow> raft_hv = ft_node_id t \<or> raft_gen < g)"
  by (auto simp: fencing_check_def split: option.split)

lemma check_all_step_fences:
  "map fenced_vm (check_all_step t (vm, g, hv) fenced) =
     map fenced_vm fenced @ (if fencing_check t vm g hv = FenceOk then [] else [Some vm])"
  by (auto simp: check_all_step_def fencing_check_def split: option.split)

lemma check_all_fences:
  "map fenced_vm (check_all t ps) =
     map (\<lambda>(vm, _). Some vm) (filter (\<lambda>(vm, g, hv). fencing_check t vm g hv \<noteq> FenceOk) ps)"
proof -
  have "map fenced_vm (fold (check_all_step t) ps acc) = map fenced_vm acc @
      map (\<lambda>(vm, _). Some vm) (filter (\<lambda>(vm, g, hv). fencing_check t vm g hv \<noteq> FenceOk) ps)" for acc
    by (induction ps arbitrary: acc) (auto simp: check_all_step_fences)
  then show ?thesis by (simp add: check_all_def)
qed

text \<open>
  After the fenced VMs were removed, every VM that a node still tracks and that the placements
  name is placed on the node, or the node holds a newer generation than the placement.
\<close>

definition fencing_pass :: "(string \<times> u64 \<times> string) list \<Rightarrow> fencing_tracker \<Rightarrow> fencing_tracker" where
  "fencing_pass ps t = fold remove_local_placement (List.map_filter fenced_vm (check_all t ps)) t"

lemma fold_remove_placement:
  "ft_node_id (fold remove_local_placement vms t) = ft_node_id t \<and>
   hget (ft_local_generations (fold remove_local_placement vms t)) vm =
     (if vm \<in> set vms then None else hget (ft_local_generations t) vm)"
  by (induction vms arbitrary: t) (auto simp: remove_local_placement_def)

lemma fencing_pass_keeps_own:
  assumes "(vm, g, hv) \<in> set ps" "hget (ft_local_generations (fencing_pass ps t)) vm = Some lg"
  shows "hv = ft_node_id t \<or> g < lg"
proof -
  have eq: "set (List.map_filter fenced_vm (check_all t ps)) = {v. Some v \<in> set (map fenced_vm (check_all t ps))}"
  proof -
    have "set (List.map_filter f xs) = {v. Some v \<in> f ` set xs}" for f :: "fencing_verdict \<Rightarrow> string option" and xs
      by (induction xs) (auto simp: List.map_filter_simps split: option.split)
    then show ?thesis by simp
  qed
  from assms(2) have l: "hget (ft_local_generations t) vm = Some lg"
    and n: "vm \<notin> set (List.map_filter fenced_vm (check_all t ps))"
    by (auto simp: fencing_pass_def fold_remove_placement split: if_splits)
  have "fencing_check t vm g hv = FenceOk"
  proof (rule ccontr)
    assume "fencing_check t vm g hv \<noteq> FenceOk"
    with assms(1) have "Some vm \<in> set (map fenced_vm (check_all t ps))"
      unfolding check_all_fences by force
    with n show False unfolding eq by simp
  qed
  with l show ?thesis by (simp add: fencing_check_iff)
qed

section \<open>Ownership of kernel resources\<close>

record ownership_record =
  ow_resource_type :: string
  ow_kernel_name :: string
  ow_created_at :: u64

datatype orphan_policy = Known | Suspected | Unknown

datatype orphan_action = Manage | Quarantine string | Ignore

type_synonym ownership_registry = "(string, ownership_record) table"

definition register_resource :: "u64 \<Rightarrow> string \<Rightarrow> string \<Rightarrow> string \<Rightarrow> ownership_registry \<Rightarrow> ownership_registry" where
  "register_resource now i rtype kname db =
     db_set i \<lparr>ow_resource_type = rtype, ow_kernel_name = kname, ow_created_at = now\<rparr> db"

definition deregister_resource :: "string \<Rightarrow> ownership_registry \<Rightarrow> bool \<times> ownership_registry" where
  "deregister_resource i db = db_delete i db"

definition lookup_resource :: "string \<Rightarrow> ownership_registry \<Rightarrow> ownership_record option" where
  "lookup_resource i db = db_get db i"

definition list_by_type :: "string \<Rightarrow> ownership_registry \<Rightarrow> (string \<times> ownership_record) list" where
  "list_by_type rtype db = filter (\<lambda>(_, r). ow_resource_type r = rtype) (db_list db)"

definition rebuild_registry ::
    "u64 \<Rightarrow> (string \<times> string \<times> string) list \<Rightarrow> ownership_registry \<Rightarrow> ownership_registry \<times> nat" where
  "rebuild_registry now rs db =
     (let cleared = fold (\<lambda>(k, _) t. snd (db_delete k t)) (db_list db) db
      in (fold (\<lambda>(i, rtype, kname) t.
             db_set i \<lparr>ow_resource_type = rtype, ow_kernel_name = kname, ow_created_at = now\<rparr> t) rs cleared,
          length rs))"

definition syfrah_prefixes :: "string list" where
  "syfrah_prefixes =
     [''syfb-'', ''syft-'', ''syfx-'', ''syfvh'', ''syfvc'', ''syfp'', ''br-'', ''tap-'', ''vx-'']"

definition classify :: "ownership_registry \<Rightarrow> string \<Rightarrow> orphan_policy" where
  "classify db kname =
     (if list_ex (\<lambda>(_, r). ow_kernel_name r = kname) (db_list db) then Known
      else if list_ex (starts_with kname) syfrah_prefixes then Suspected
      else Unknown)"

definition handle_orphan :: "ownership_registry \<Rightarrow> string \<Rightarrow> orphan_action" where
  "handle_orphan db kname =
     (case classify db kname of
        Known \<Rightarrow> Manage
      | Suspected \<Rightarrow>
          Quarantine (''interface '' @ [CHR 0x27] @ kname @ [CHR 0x27] @ '' matches Syfrah naming convention but is not in ownership registry'')
      | Unknown \<Rightarrow> Ignore)"

record orphan_scan =
  os_known :: "string list"
  os_suspected :: "string list"
  os_unknown :: "string list"

definition scan_step :: "ownership_registry \<Rightarrow> string \<Rightarrow> orphan_scan \<Rightarrow> orphan_scan" where
  "scan_step db i r =
     (case classify db i of
        Known \<Rightarrow> r\<lparr>os_known := os_known r @ [i]\<rparr>
      | Suspected \<Rightarrow> r\<lparr>os_suspected := os_suspected r @ [i]\<rparr>
      | Unknown \<Rightarrow> r\<lparr>os_unknown := os_unknown r @ [i]\<rparr>)"

definition scan_interfaces :: "ownership_registry \<Rightarrow> string list \<Rightarrow> orphan_scan" where
  "scan_interfaces db is = fold (scan_step db) is \<lparr>os_known = [], os_suspected = [], os_unknown = []\<rparr>"

lemma scan_interfaces_partition:
  "scan_interfaces db is =
     \<lparr>os_known = filter (\<lambda>i. classify db i = Known) is,
      os_suspected = filter (\<lambda>i. classify db i = Suspected) is,
      os_unknown = filter (\<lambda>i. classify db i = Unknown) is\<rparr>"
proof -
  have "fold (scan_step db) is r =
      \<lparr>os_known = os_known r @ filter (\<lambda>i. classify db i = Known) is,
       os_suspected = os_suspected r @ filter (\<lambda>i. classify db i = Suspected) is,
       os_unknown = os_unknown r @ filter (\<lambda>i. classify db i = Unknown) is\<rparr>" for r :: orphan_scan
    by (induction "is" arbitrary: r) (auto simp: scan_step_def split: orphan_policy.splits)
  then show ?thesis by (simp add: scan_interfaces_def)
qed

text \<open>A rebuilt registry knows exactly the kernel names it was given, whatever it held before.\<close>

lemma fold_delete_listed: "fold (\<lambda>(k, _) t. snd (db_delete k t)) (db_list db) db = []"
proof -
  have "fold (\<lambda>(k, _) t. snd (db_delete k t)) es t = fold (\<lambda>k t. snd (db_delete k t)) (map fst es) t"
    for es :: "(string \<times> 'a) list" and t :: "(string, 'a) table"
    by (induction es arbitrary: t) (auto simp: case_prod_unfold)
  then show ?thesis by (simp add: db_list_def)
qed

abbreviation owner_record :: "u64 \<Rightarrow> string \<times> string \<Rightarrow> ownership_record" where
  "owner_record now x \<equiv> \<lparr>ow_resource_type = fst x, ow_kernel_name = snd x, ow_created_at = now\<rparr>"

lemma rebuild_registry_eq:
  "fst (rebuild_registry now rs db) = fold (\<lambda>(k, v) t. db_set k v t) (map (\<lambda>(i, x). (i, owner_record now x)) rs) []"
proof -
  have "fold (\<lambda>(i, rtype, kname) t.
        db_set i \<lparr>ow_resource_type = rtype, ow_kernel_name = kname, ow_created_at = now\<rparr> t) rs t =
      fold (\<lambda>(k, v) t. db_set k v t) (map (\<lambda>(i, x). (i, owner_record now x)) rs) t" for t
    by (induction rs arbitrary: t) (auto simp: case_prod_unfold)
  then show ?thesis by (simp add: rebuild_registry_def fold_delete_listed)
qed

lemma lookup_rebuilt:
  assumes "distinct (map fst rs)"
  shows "lookup_resource i (fst (rebuild_registry now rs db)) = map_option (owner_record now) (map_of rs i)"
proof -
  have "distinct (map fst (map (\<lambda>(i, x). (i, owner_record now x)) rs))"
    using assms by (simp add: comp_def case_prod_unfold)
  from db_get_fold_set [OF this, of "[]" i] show ?thesis
    by (simp add: lookup_resource_def rebuild_registry_eq map_of_map split: option.split)
qed

lemma known_iff_registered:
  assumes "tbl_wf db"
  shows "classify db kname = Known \<longleftrightarrow>
    (\<exists>i r. lookup_resource i db = Some r \<and> ow_kernel_name r = kname)"
proof -
  have "classify db kname = Known \<longleftrightarrow> list_ex (\<lambda>(_, r). ow_kernel_name r = kname) (db_list db)"
    by (simp add: classify_def)
  also have "\<dots> \<longleftrightarrow> (\<exists>i r. (i, r) \<in> set (db_list db) \<and> ow_kernel_name r = kname)"
    by (auto simp: list_ex_iff)
  finally show ?thesis by (simp only: in_db_list_iff [OF assms] lookup_resource_def)
qed

section \<open>Drift of a resource\<close>

datatype generation_event = Bump u64 | Reconciled u64 | Touched u64

fun generation_step :: "string \<Rightarrow> generation_event \<Rightarrow> generation_tracker \<Rightarrow> generation_tracker" where
  "generation_step i (Bump now) t = fst (bump_spec now i t)"
| "generation_step i (Reconciled now) t = fst (mark_reconciled now i t)"
| "generation_step i (Touched now) t = fst (touch now i t)"

fun event_generation :: "generation_event \<Rightarrow> resource_generation \<Rightarrow> resource_generation" where
  "event_generation (Bump now) = bump_generation now"
| "event_generation (Reconciled now) = reconcile_generation now"
| "event_generation (Touched now) = touch_generation now"

lemma generation_steps:
  "hget (gt_generations t) i = Some g \<Longrightarrow>
   hget (gt_generations (fold (generation_step i) es t)) i = Some (fold event_generation es g)"
proof (induction es arbitrary: t g)
  case (Cons e es)
  then have "hget (gt_generations (generation_step i e t)) i = Some (event_generation e g)"
    by (cases e) (simp_all add: bump_spec_def mark_reconciled_def touch_def update_generation_def)
  with Cons.IH show ?case by simp
qed simp

text \<open>The number of changes of the desired state since it was last reconciled.\<close>

fun unreconciled :: "generation_event list \<Rightarrow> nat \<Rightarrow> nat" where
  "unreconciled [] n = n"
| "unreconciled (Bump _ # es) n = unreconciled es (Suc n)"
| "unreconciled (Reconciled _ # es) n = unreconciled es 0"
| "unreconciled (Touched _ # es) n = unreconciled es n"

lemma generations_apart:
  "rg_spec_generation g = rg_reconcile_generation g + of_nat n \<Longrightarrow>
   rg_spec_generation (fold event_generation es g) =
     rg_reconcile_generation (fold event_generation es g) + of_nat (unreconciled es n)"
proof (induction es arbitrary: g n)
  case (Cons e es)
  show ?case
  proof (cases e)
    case (Bump now)
    from Cons.prems have "rg_spec_generation (bump_generation now g) =
        rg_reconcile_generation (bump_generation now g) + of_nat (Suc n)"
      by (simp add: bump_generation_def)
    from Cons.IH [OF this] Bump show ?thesis by simp
  next
    case (Reconciled now)
    have "rg_spec_generation (reconcile_generation now g) =
        rg_reconcile_generation (reconcile_generation now g) + of_nat 0"
      by (simp add: reconcile_generation_def)
    from Cons.IH [OF this] Reconciled show ?thesis by simp
  next
    case (Touched now)
    from Cons.prems have "rg_spec_generation (touch_generation now g) =
        rg_reconcile_generation (touch_generation now g) + of_nat n"
      by (simp add: touch_generation_def)
    from Cons.IH [OF this] Touched show ?thesis by simp
  qed
qed simp

text \<open>
  A registered resource is drifted exactly when its desired state changed since it was last
  reconciled, as long as fewer than \<open>2 ^ 64\<close> changes are outstanding.
\<close>

lemma drift_iff_unreconciled:
  assumes "unreconciled es 1 < 2 ^ 64"
  shows "\<exists>g. hget (gt_generations (fold (generation_step i) es (fst (register_generation now i t)))) i = Some g \<and>
    has_drift g = (unreconciled es 1 > 0)"
proof -
  let ?g = "fold event_generation es (new_generation now i)"
  have "hget (gt_generations (fst (register_generation now i t))) i = Some (new_generation now i)"
    by (simp add: register_generation_def Let_def)
  note g = generation_steps [OF this, of es]
  have "rg_spec_generation ?g = rg_reconcile_generation ?g + of_nat (unreconciled es 1)"
    by (rule generations_apart) (simp add: new_generation_def)
  moreover have "(of_nat (unreconciled es 1) :: u64) = 0 \<longleftrightarrow> unreconciled es 1 = 0"
    using assms by (simp add: word_of_nat_eq_0_iff dvd_eq_mod_eq_0)
  ultimately have "has_drift ?g = (unreconciled es 1 > 0)" by (simp add: has_drift_def)
  with g show ?thesis by (intro exI conjI)
qed

end
