(* ===== verification/Forge_Policy.thy ===== *)
theory Forge_Policy
  imports Node_Prelude
begin

text \<open>
  Policies of the node agent: draining (\<^verbatim>\<open>layers/forge/src/drain.rs\<close>), the policy for a
  degraded control plane (\<^verbatim>\<open>degraded.rs\<close>), the drift detectors (\<^verbatim>\<open>drift.rs\<close>) and the passes of the
  reconciliation engine (\<^verbatim>\<open>reconciler.rs\<close>).
\<close>

section \<open>Draining\<close>

record drain_controller =
  dr_draining :: bool
  dr_started_at :: "instant option"
  dr_timeout :: duration
  dr_force :: bool

record drain_status =
  dst_draining :: bool
  dst_force :: bool
  dst_elapsed_secs :: "int option"
  dst_timeout_secs :: int
  dst_timed_out :: bool

definition default_drain_timeout :: duration where
  "default_drain_timeout = from_secs (30 * 60)"

definition new_drain :: drain_controller where
  "new_drain = \<lparr>dr_draining = False, dr_started_at = None, dr_timeout = default_drain_timeout, dr_force = False\<rparr>"

text \<open>The requested timeout is dropped.\<close>

definition start_drain :: "instant \<Rightarrow> bool \<Rightarrow> duration option \<Rightarrow> drain_controller \<Rightarrow> drain_controller" where
  "start_drain now force timeout d = d\<lparr>dr_draining := True, dr_force := force, dr_started_at := Some now\<rparr>"

definition activate :: "drain_controller \<Rightarrow> drain_controller" where
  "activate d = d\<lparr>dr_draining := False, dr_force := False, dr_started_at := None\<rparr>"

definition is_timed_out :: "instant \<Rightarrow> drain_controller \<Rightarrow> bool" where
  "is_timed_out now d \<longleftrightarrow>
     dr_draining d \<and> (case dr_started_at d of Some s \<Rightarrow> elapsed now s > dr_timeout d | None \<Rightarrow> False)"

definition drain_status_of :: "instant \<Rightarrow> drain_controller \<Rightarrow> drain_status" where
  "drain_status_of now d =
     \<lparr>dst_draining = dr_draining d, dst_force = dr_force d,
      dst_elapsed_secs = map_option (\<lambda>s. as_secs (elapsed now s)) (dr_started_at d),
      dst_timeout_secs = as_secs (dr_timeout d), dst_timed_out = is_timed_out now d\<rparr>"

section \<open>A degraded control plane\<close>

datatype operation_kind = OpRead | OpReconcile | OpCreate | OpDelete | OpStartStop

datatype control_plane_state = CpConnected | CpDegraded | CpBootstrap

record degraded_controller =
  dg_bootstrap_mode :: bool
  dg_last_projection_at :: "instant option"
  dg_reachable :: bool

record degraded_status =
  dgs_state :: control_plane_state
  dgs_reads_allowed :: bool
  dgs_reconcile_allowed :: bool
  dgs_creates_allowed :: bool
  dgs_deletes_allowed :: bool
  dgs_start_stop_allowed :: bool
  dgs_last_projection_age_secs :: "int option"

definition stale_threshold :: duration where
  "stale_threshold = from_secs (5 * 60)"

definition new_bootstrap :: degraded_controller where
  "new_bootstrap = \<lparr>dg_bootstrap_mode = True, dg_last_projection_at = None, dg_reachable = True\<rparr>"

definition control_state :: "instant \<Rightarrow> degraded_controller \<Rightarrow> control_plane_state" where
  "control_state now d =
     (if dg_bootstrap_mode d then CpBootstrap
      else if \<not> dg_reachable d then CpDegraded
      else if (case dg_last_projection_at d of Some l \<Rightarrow> elapsed now l > stale_threshold | None \<Rightarrow> False)
      then CpDegraded
      else CpConnected)"

definition is_allowed :: "instant \<Rightarrow> operation_kind \<Rightarrow> degraded_controller \<Rightarrow> bool" where
  "is_allowed now op d =
     (case control_state now d of
        CpDegraded \<Rightarrow> op = OpRead \<or> op = OpReconcile \<or> op = OpStartStop
      | _ \<Rightarrow> True)"

definition record_projection :: "instant \<Rightarrow> degraded_controller \<Rightarrow> degraded_controller" where
  "record_projection now d = d\<lparr>dg_last_projection_at := Some now\<rparr>"

definition mark_unreachable :: "degraded_controller \<Rightarrow> degraded_controller" where
  "mark_unreachable d = d\<lparr>dg_reachable := False\<rparr>"

definition mark_reachable :: "degraded_controller \<Rightarrow> degraded_controller" where
  "mark_reachable d = d\<lparr>dg_reachable := True\<rparr>"

definition degraded_status_of :: "instant \<Rightarrow> degraded_controller \<Rightarrow> degraded_status" where
  "degraded_status_of now d =
     (let state = control_state now d;
          free = (case state of CpDegraded \<Rightarrow> False | _ \<Rightarrow> True)
      in \<lparr>dgs_state = state, dgs_reads_allowed = True, dgs_reconcile_allowed = True,
          dgs_creates_allowed = free, dgs_deletes_allowed = free, dgs_start_stop_allowed = True,
          dgs_last_projection_age_secs = map_option (\<lambda>l. as_secs (elapsed now l)) (dg_last_projection_at d)\<rparr>)"

section \<open>Drift detectors\<close>

datatype drift_state = InSync | Drifted string | Orphaned | Missing

datatype resource_type =
  RtBridge | RtVxlan | RtNic | RtSecurityGroup | RtFdb | RtNatGateway | RtRoute | RtVm | RtVolume

datatype drift_scenario =
    MissingBridge | MissingVxlan | MissingTap | DeadVm | StaleNftables | WrongSgRules | OrphanedIp
  | MissingFdb | MissingArpProxy | MissingNat | WrongGatewayIp | StaleRoute

record drift_report =
  dp_resource_id :: string
  dp_resource_type :: resource_type
  dp_status :: drift_state
  dp_scenario :: drift_scenario
  dp_expected :: string
  dp_actual :: string

record network_drift_detector =
  nd_expected_bridges :: "string list"
  nd_expected_vxlans :: "string list"
  nd_expected_taps :: "string list"
  nd_actual_interfaces :: "string list"

definition missing_reports ::
    "resource_type \<Rightarrow> drift_scenario \<Rightarrow> string \<Rightarrow> string list \<Rightarrow> string list \<Rightarrow> drift_report list" where
  "missing_reports rt sc what expected actual =
     map (\<lambda>n. \<lparr>dp_resource_id = n, dp_resource_type = rt, dp_status = Missing, dp_scenario = sc,
              dp_expected = what @ '' '' @ n @ '' exists'', dp_actual = what @ '' not found in kernel''\<rparr>)
       (filter (\<lambda>n. \<not> list_ex (\<lambda>i. i = n) actual) expected)"

definition orphan_report ::
    "resource_type \<Rightarrow> drift_scenario \<Rightarrow> string \<Rightarrow> string \<Rightarrow> string list \<Rightarrow> string \<Rightarrow> drift_report list" where
  "orphan_report rt sc what prefix expected i =
     (if starts_with i prefix \<and> i \<notin> set expected
      then [\<lparr>dp_resource_id = i, dp_resource_type = rt, dp_status = Orphaned, dp_scenario = sc,
             dp_expected = ''not in desired state'', dp_actual = what @ '' '' @ i @ '' exists in kernel''\<rparr>]
      else [])"

definition detect_all :: "network_drift_detector \<Rightarrow> drift_report list" where
  "detect_all d =
     missing_reports RtBridge MissingBridge ''bridge'' (nd_expected_bridges d) (nd_actual_interfaces d) @
     missing_reports RtVxlan MissingVxlan ''VXLAN'' (nd_expected_vxlans d) (nd_actual_interfaces d) @
     missing_reports RtNic MissingTap ''TAP'' (nd_expected_taps d) (nd_actual_interfaces d) @
     concat (map (\<lambda>i.
       orphan_report RtBridge MissingBridge ''bridge'' ''syfb-'' (nd_expected_bridges d) i @
       orphan_report RtVxlan MissingVxlan ''VXLAN'' ''syfx-'' (nd_expected_vxlans d) i @
       orphan_report RtNic MissingTap ''TAP'' ''syft-'' (nd_expected_taps d) i) (nd_actual_interfaces d))"

definition detect_dead_vms :: "string list \<Rightarrow> string list \<Rightarrow> drift_report list" where
  "detect_dead_vms expected running =
     map (\<lambda>vm. \<lparr>dp_resource_id = vm, dp_resource_type = RtVm, dp_status = Drifted ''VM process not running'',
               dp_scenario = DeadVm, dp_expected = ''VM '' @ vm @ '' is running'',
               dp_actual = ''VM process not found''\<rparr>)
       (filter (\<lambda>vm. vm \<notin> set running) expected)"

definition detect_sg_drift :: "string list \<Rightarrow> string list \<Rightarrow> drift_report list" where
  "detect_sg_drift expected actual =
     map (\<lambda>c. \<lparr>dp_resource_id = c, dp_resource_type = RtSecurityGroup, dp_status = Missing,
              dp_scenario = StaleNftables, dp_expected = ''chain '' @ c @ '' exists'',
              dp_actual = ''chain not found in nftables''\<rparr>)
       (filter (\<lambda>c. c \<notin> set actual) expected)"

definition detect_fdb_drift :: "string list \<Rightarrow> drift_report list" where
  "detect_fdb_drift missing =
     map (\<lambda>mac. \<lparr>dp_resource_id = ''fdb-'' @ mac, dp_resource_type = RtFdb, dp_status = Missing,
                dp_scenario = MissingFdb, dp_expected = ''FDB entry for MAC '' @ mac @ '' exists'',
                dp_actual = ''FDB entry not found''\<rparr>) missing"

definition detect_nat_drift :: "(string \<times> string) list \<Rightarrow> drift_report list" where
  "detect_nat_drift missing =
     map (\<lambda>(bridge, cidr). \<lparr>dp_resource_id = ''nat-'' @ bridge @ ''-'' @ cidr, dp_resource_type = RtNatGateway,
                dp_status = Missing, dp_scenario = MissingNat,
                dp_expected = ''NAT for '' @ cidr @ '' on '' @ bridge @ '' exists'',
                dp_actual = ''NAT masquerade not found''\<rparr>) missing"

section \<open>The reconciliation engine\<close>

datatype reconcile_action = ActCreate string | ActUpdate string string | ActDelete string | ActNoOp string

record engine_report =
  er_pass_number :: u64
  er_actions_taken :: nat
  er_actions_succeeded :: nat
  er_actions_failed :: nat

record engine =
  en_interval_secs :: u64
  en_pass_count :: u64
  en_last_report :: "engine_report option"
  en_detectors :: "(resource_type \<times> (string \<Rightarrow> drift_state)) list"

definition engine_with_interval :: "u64 \<Rightarrow> engine" where
  "engine_with_interval n = \<lparr>en_interval_secs = n, en_pass_count = 0, en_last_report = None, en_detectors = []\<rparr>"

definition register_detector :: "resource_type \<Rightarrow> (string \<Rightarrow> drift_state) \<Rightarrow> engine \<Rightarrow> engine" where
  "register_detector rt d e = e\<lparr>en_detectors := en_detectors e @ [(rt, d)]\<rparr>"

text \<open>The loop over the registered detectors has an empty body: a pass takes no action.\<close>

definition engine_pass :: "engine \<Rightarrow> engine \<times> reconcile_action list" where
  "engine_pass e =
     (let actions = []
      in (e\<lparr>en_pass_count := en_pass_count e + 1,
            en_last_report := Some \<lparr>er_pass_number = en_pass_count e, er_actions_taken = length actions,
              er_actions_succeeded = length actions, er_actions_failed = 0\<rparr>\<rparr>, actions))"

section \<open>The detectors find exactly the differences\<close>

abbreviation drift_of :: "drift_report \<Rightarrow> resource_type \<times> string \<times> drift_state" where
  "drift_of r \<equiv> (dp_resource_type r, dp_resource_id r, dp_status r)"

lemma missing_reports_drift:
  "(rt', n, st) \<in> drift_of ` set (missing_reports rt sc what expected actual) \<longleftrightarrow>
     rt' = rt \<and> st = Missing \<and> n \<in> set expected \<and> n \<notin> set actual"
  by (auto simp: missing_reports_def list_ex_iff image_iff)

lemma orphan_reports_drift:
  "(rt', n, st) \<in> drift_of ` set (orphan_report rt sc what prefix expected i) \<longleftrightarrow>
     rt' = rt \<and> st = Orphaned \<and> n = i \<and> starts_with i prefix \<and> i \<notin> set expected"
  by (auto simp: orphan_report_def)

fun expected_of :: "network_drift_detector \<Rightarrow> resource_type \<Rightarrow> string list" where
  "expected_of d RtBridge = nd_expected_bridges d"
| "expected_of d RtVxlan = nd_expected_vxlans d"
| "expected_of d RtNic = nd_expected_taps d"
| "expected_of d _ = []"

fun kernel_prefix :: "resource_type \<Rightarrow> string option" where
  "kernel_prefix RtBridge = Some ''syfb-''"
| "kernel_prefix RtVxlan = Some ''syfx-''"
| "kernel_prefix RtNic = Some ''syft-''"
| "kernel_prefix _ = None"

text \<open>
  A network resource is reported missing exactly when it is expected and not present, and
  orphaned exactly when it is present under the prefix of its type and not expected.
\<close>

lemma detect_all_exact:
  "(rt, n, st) \<in> drift_of ` set (detect_all d) \<longleftrightarrow>
     st = Missing \<and> n \<in> set (expected_of d rt) \<and> n \<notin> set (nd_actual_interfaces d) \<or>
     st = Orphaned \<and> n \<in> set (nd_actual_interfaces d) \<and> n \<notin> set (expected_of d rt) \<and>
       (case kernel_prefix rt of Some p \<Rightarrow> starts_with n p | None \<Rightarrow> False)"
proof -
  have "drift_of ` set (concat (map f xs)) = (\<Union>x \<in> set xs. drift_of ` set (f x))"
    for f :: "string \<Rightarrow> drift_report list" and xs by auto
  then show ?thesis
    unfolding detect_all_def set_append image_Un Un_iff missing_reports_drift
    by (simp only: UN_iff set_append image_Un Un_iff orphan_reports_drift) (cases rt; auto)
qed

lemma detect_dead_vms_exact:
  "dp_resource_id ` set (detect_dead_vms expected running) = set expected - set running"
  by (auto simp: detect_dead_vms_def image_image)

section \<open>The policy that never applies\<close>

text \<open>
  Outside tests a controller starts in bootstrap mode and no operation leaves it: creations
  are allowed whatever is known of the control plane.
\<close>

datatype degraded_event = Projection instant | Unreachable | Reachable

fun degraded_step :: "degraded_event \<Rightarrow> degraded_controller \<Rightarrow> degraded_controller" where
  "degraded_step (Projection now) d = record_projection now d"
| "degraded_step Unreachable d = mark_unreachable d"
| "degraded_step Reachable d = mark_reachable d"

lemma stays_in_bootstrap: "dg_bootstrap_mode d \<Longrightarrow> dg_bootstrap_mode (fold degraded_step es d)"
proof (induction es arbitrary: d)
  case (Cons e es)
  then have "dg_bootstrap_mode (degraded_step e d)"
    by (cases e) (simp_all add: record_projection_def mark_unreachable_def mark_reachable_def)
  with Cons.IH show ?case by simp
qed simp

theorem degraded_policy_never_applies: "is_allowed now op (fold degraded_step es new_bootstrap)"
proof -
  have "dg_bootstrap_mode (fold degraded_step es new_bootstrap)"
    by (rule stays_in_bootstrap) (simp add: new_bootstrap_def)
  then show ?thesis by (simp add: is_allowed_def control_state_def)
qed

text \<open>Outside bootstrap mode the policy is the documented one.\<close>

lemma degraded_policy:
  "\<not> dg_bootstrap_mode d \<Longrightarrow> is_allowed now op d \<longleftrightarrow>
     op \<in> {OpRead, OpReconcile, OpStartStop} \<or>
     dg_reachable d \<and> (\<forall>l. dg_last_projection_at d = Some l \<longrightarrow> elapsed now l \<le> stale_threshold)"
  by (auto simp: is_allowed_def control_state_def not_less split: option.split)

text \<open>A drain with a timeout of its own runs out after the default one.\<close>

theorem drain_timeout_ignored:
  "is_timed_out now (start_drain started force timeout new_drain) \<longleftrightarrow> elapsed now started > default_drain_timeout"
  by (simp add: is_timed_out_def start_drain_def new_drain_def)

end
