(* ===== verification/Spec2Isabelle.thy ===== *)
theory Spec2Isabelle
  imports Divergences Network_Properties Node_Properties Capacity_Properties Health_Properties
    Log_Properties Idempotency Scheduler_Properties Forge_Records Forge_Policy
begin

text \<open>
  A verification library for Syfrah, software that turns a set of servers into one cloud.

  \<^bold>\<open>The program.\<close>  Every change to the shared state is a command in a Raft log
  (\<^verbatim>\<open>layers/controlplane\<close>).  Each replica applies the committed commands, in order, to a
  state machine: an in-memory storage state (volumes, snapshots, reference counts, manifests,
  quotas) and redb tables (\<^verbatim>\<open>layers/org\<close>: organizations, networks, addresses, placements,
  hypervisors and a read copy of the volumes), which are stored by \<^verbatim>\<open>layers/state\<close>.  On each
  node an agent (\<^verbatim>\<open>layers/forge\<close>) reads its replica and drives the processes of the node, among
  them one ZeroFS process per attached volume (\<^verbatim>\<open>layers/storage\<close>).  A scheduler chooses nodes for
  VMs from the hypervisor records and from what gossip reports of their capacity.  Paths below
  are relative to \<^verbatim>\<open>src/\<close>; an operation keeps the name of its Rust function.

  \<^bold>\<open>Conventions.\<close>  Machine integers are words of their width.  A \<^verbatim>\<open>HashMap\<close> is an
  association list, whose order is the unspecified order of iteration; a redb table or a \<^verbatim>\<open>BTreeMap\<close>
  is one sorted by key.  A handler takes the state and returns it updated; an early return
  is a branch, an error a value.  Clock readings, random identifiers, the operating system and
  third-party crates (\<^verbatim>\<open>ipnet\<close>, \<^verbatim>\<open>serde_json\<close>, openraft, foca) are arguments: \<open>node_ctx\<close>, \<open>ipnet_lib\<close>,
  \<open>host\<close>, \<open>cache_host\<close>, \<open>codec\<close>, \<open>log_codec\<close>.  What the proofs need of them is a hypothesis
  such as \<open>ipnet_ok\<close>, which \<open>ipnet_ref\<close> satisfies.

  \<^bold>\<open>Foundations.\<close>
  \<^item> \<open>Syfrah_Prelude\<close>: integers and the two containers, with the contract \<open>kv_store\<close> for both.
    \<open>Rust_Strings\<close>: string operations of the standard library.
  \<^item> \<open>Layer_Db\<close>: the embedded store, \<^verbatim>\<open>layers/state/src/lib.rs\<close>, with raw export and import.
  \<^item> \<open>Node_Prelude\<close>: clock, paths and the rule for loops over a hash map, for the node agents.
    \<open>Float64\<close>: rounding of \<^verbatim>\<open>f64\<close>, with exactness on the integers the scheduler meets.

  \<^bold>\<open>The org layer.\<close>  Sources under \<^verbatim>\<open>layers/org/src\<close>.
  \<^item> \<open>Org_Error\<close>, \<open>Org_Types\<close>: \<^verbatim>\<open>error.rs\<close>, \<^verbatim>\<open>types.rs\<close>.
  \<^item> \<open>Cidr\<close>: the block arithmetic of \<^verbatim>\<open>vpc.rs\<close> and the allocators of blocks.
  \<^item> \<open>Org_Store\<close>, \<open>Network_Store\<close>, \<open>Network_Resources\<close>: \<^verbatim>\<open>store.rs\<close>, \<^verbatim>\<open>validation.rs\<close>, \<^verbatim>\<open>ttl.rs\<close>.
  \<^item> \<open>Ipam\<close>: \<^verbatim>\<open>ipam.rs\<close>; \<open>Hypervisor_Store\<close>: \<^verbatim>\<open>hypervisor.rs\<close>; \<open>Placement_Store\<close>: \<^verbatim>\<open>placement.rs\<close>
    and \<^verbatim>\<open>sg_rules.rs\<close>; \<open>Storage_Store\<close>: \<^verbatim>\<open>storage_store.rs\<close>.

  \<^bold>\<open>The replicated state machine.\<close>  Sources \<^verbatim>\<open>state_machine.rs\<close> and \<^verbatim>\<open>commands.rs\<close> of
  \<^verbatim>\<open>layers/controlplane/src\<close>.
  \<^item> \<open>Storage_State\<close>, \<open>Storage_Quota\<close>, \<open>Storage_Sync\<close>, \<open>Storage_Commands\<close>: the storage state, its quotas, its
    copy in redb and one \<open>apply_\<close> function for each storage command.
  \<^item> \<open>Org_Commands\<close>, \<open>Vm_Commands\<close>: the commands on organizations, networks, hypervisors and VMs.
  \<^item> \<open>Apply_Command\<close>: the interpreter \<open>apply_command\<close> with composite commands; \<open>exec\<close> is one basic
    command, and the locale \<open>machine_invariant\<close> carries an invariant from \<open>exec\<close> to every log.
  \<^item> \<open>Raft_Machine\<close>: \<^verbatim>\<open>apply\<close>, \<^verbatim>\<open>build_snapshot\<close> and \<^verbatim>\<open>install_snapshot\<close>.

  \<^bold>\<open>The rest of the control plane.\<close>
  \<^item> \<open>Log_Store\<close>: the Raft log on disk, \<^verbatim>\<open>log_storage.rs\<close>, with interruptions between transactions.
  \<^item> \<open>Idempotency\<close>: the journal of request keys, \<^verbatim>\<open>idempotency.rs\<close>.
  \<^item> \<open>Gossip\<close>: the cluster state of \<^verbatim>\<open>gossip.rs\<close>; \<open>Scheduler\<close>: \<^verbatim>\<open>scheduler.rs\<close> and \<^verbatim>\<open>reschedule.rs\<close>.

  \<^bold>\<open>The node.\<close>  Sources under \<^verbatim>\<open>layers/storage/src\<close> and \<^verbatim>\<open>layers/forge/src\<close>.
  \<^item> \<open>Volume_Health\<close>: \<^verbatim>\<open>s3_health.rs\<close> and the health tracker of \<^verbatim>\<open>volume_mgr.rs\<close>; \<open>Volume_Manager\<close>:
    \<^verbatim>\<open>volume_mgr.rs\<close> and \<^verbatim>\<open>binary.rs\<close>; \<open>Volume_Cache\<close>: \<^verbatim>\<open>cache.rs\<close>.
  \<^item> \<open>Storage_Reconciler\<close>: \<^verbatim>\<open>storage_reconciler.rs\<close>; \<open>Capacity\<close>: \<^verbatim>\<open>capacity.rs\<close>.
  \<^item> \<open>Forge_Records\<close>: \<^verbatim>\<open>generation.rs\<close>, \<^verbatim>\<open>fencing.rs\<close>, \<^verbatim>\<open>ownership.rs\<close>; \<open>Forge_Policy\<close>: \<^verbatim>\<open>drain.rs\<close>,
    \<^verbatim>\<open>degraded.rs\<close>, \<^verbatim>\<open>drift.rs\<close>, \<^verbatim>\<open>reconciler.rs\<close>.

  \<^bold>\<open>What is proved.\<close>
  \<^item> Life of a volume (\<open>Volume_Lifecycle\<close>, \<open>Volume_Fencing\<close>, \<open>Manifest_Fencing\<close>): the commands refine an
    abstract state machine of one volume; a placement generation belongs to one hypervisor; accepted
    manifests of one generation have one publisher and growing versions.
  \<^item> Quotas and garbage collection (\<open>Quota_Enforcement\<close>, \<open>Snapshot_Gc\<close>): a scope stays within its quota;
    no file of a live snapshot is queued for collection, and a command that takes the last reference
    to a file queues it, restores apart.
  \<^item> Storage commands one at a time (\<open>Storage_Replica\<close>, \<open>Storage_Properties\<close>): refused commands change
    nothing, and the redb copy follows.
  \<^item> Whole logs (\<open>Machine_Invariants\<close>, \<open>Machine_Stores\<close>, \<open>Machine_Properties\<close>, \<open>Replica_Properties\<close>,
    \<open>Store_Tables\<close>): the invariants above for the complete command language, composite commands,
    agreement of replicas, snapshots.
  \<^item> Networks (\<open>Network_Invariants\<close>, \<open>Network_Safety\<close>, \<open>Network_Properties\<close>, \<open>Address_Properties\<close>): identifiers and
    blocks do not collide, names find their records, addresses are handed out once, and the allocators
    fail only when nothing is free.
  \<^item> Log and journal (\<open>Log_Properties\<close>, \<open>Idempotency\<close>): a restart reads back what was written, whichever
    transaction was the last; the log behaves like a function from indices to entries; a repeated
    request is answered from the journal.
  \<^item> Nodes with the state machine (\<open>Node_Fencing\<close>, \<open>Node_Properties\<close>): no two hosts run a volume with the same
    generation, a pass of the reconciler makes the node run what is assigned to it, and there
    is one process per volume.
  \<^item> \<open>Capacity_Properties\<close>, \<open>Scheduler_Properties\<close>, \<open>Health_Properties\<close>: admission never promises more than
    the node has; the scheduler picks the best suitable node; health follows the outage.
  \<^item> Runs in which the code differs from its comments or documents: \<open>Divergences\<close>, the last sections
    of \<open>Node_Properties\<close>, \<open>Capacity_Properties\<close>, \<open>Log_Properties\<close> and \<open>Scheduler_Properties\<close>, and
    \<open>drain_timeout_ignored\<close> and \<open>degraded_policy_never_applies\<close> in \<open>Forge_Policy\<close>.

  \<^bold>\<open>Bounds and loops.\<close>  No definition takes fuel.  The scan for a free block has the 32-bit
  counter of the source, so it might not end: \<open>scan_u32\<close> is a partial function, and
  \<open>scan_terminates\<close> shows that it returns on every network the code validates.  \<open>wait_for_path\<close>
  polls at most 150 times and \<open>bit_length\<close> halves its argument; both have termination proofs.
  \<open>retry_loop\<close> recurs on the number of attempts, which is the argument of the source.  Sums of
  words wrap around; \<open>compute_volume_usage_exact\<close> (fewer than \<open>2 ^ 32\<close> live volumes in a scope) and the
  invariant of \<open>Capacity\<close> (sums bounded by totals) show where they are exact.

  \<^bold>\<open>Not modelled.\<close>  Input and output failures of redb.  Transport between nodes (\<^verbatim>\<open>server.rs\<close>,
  \<^verbatim>\<open>client.rs\<close>, \<^verbatim>\<open>network.rs\<close>, \<^verbatim>\<open>remote_create.rs\<close>) and the protocols of openraft and foca, which are
  third-party code.  Timers and tokio tasks around the modelled passes.  HTTP handlers of all layers,
  the remaining services of forge, the compute, overlay and fabric layers, which drive external
  programs and sockets, the core and API layers, and the command line.  \<^verbatim>\<open>VpcStore\<close> and
  \<^verbatim>\<open>NicStore\<close>, a second implementation of network operations that only their tests use.
\<close>

end
